theory Spec2Isabelle
  imports Complex_Main
begin

section \<open>The FAP interpreter: syntax trees, values, environments\<close>

text \<open>
  This theory embeds the evaluator of the FAP interpreter
  (\<^verbatim>\<open>fap_interpreter/runtime_checker.py\<close> and \<^verbatim>\<open>fap_interpreter/environment.py\<close>).
  The evaluator walks the tree the parser produced and mutates one \<^verbatim>\<open>RuntimeChecker\<close>
  object; here the object is a record that every function takes and returns.

  Scope of the model.
  \<^item> Console output (\<^verbatim>\<open>print\<close>) and the debug modes are not part of the state: the
    model is the interpreter with \<^verbatim>\<open>debug_mode = debug_plus_mode = False\<close>.
  \<^item> The statement and expression kinds modelled are the ones listed in the datatypes
    below. The built-in math calls, the absolute value, the input prompt and the list
    methods \<^verbatim>\<open>add\<close>/\<^verbatim>\<open>clear\<close> are not modelled; without the list methods a list is
    never mutated, so lists are plain values.
  \<^item> Python's \<^verbatim>\<open>float\<close> is a type parameter \<open>'f\<close>; its operations are the fields of a
    \<open>host\<close> record that every function takes. The theorems hold for every host.
  \<^item> Python's recursion limit is not modelled: a call depth is bounded by an explicit
    budget instead, and running out of it is the outcome \<open>OutOfFuel\<close>. Memory is not
    bounded either: a repetition whose count fits a machine index always succeeds.
\<close>

subsection \<open>Text\<close>

definition starts_with :: "string \<Rightarrow> string \<Rightarrow> bool" where
  "starts_with s p = (take (length p) s = p)"

text \<open>Python's \<^verbatim>\<open>sub in s\<close> on strings.\<close>

fun contains_str :: "string \<Rightarrow> string \<Rightarrow> bool" where
  "contains_str sub [] = (sub = [])"
| "contains_str sub (c # cs) = (starts_with (c # cs) sub \<or> contains_str sub cs)"

definition is_digit :: "char \<Rightarrow> bool" where
  "is_digit c = (c \<in> set ''0123456789'')"

text \<open>\<^verbatim>\<open>str.isdigit\<close>, on ASCII text: non-empty and every character a digit.\<close>

definition isdigit :: "string \<Rightarrow> bool" where
  "isdigit s = (s \<noteq> [] \<and> list_all is_digit s)"

definition digit_val :: "char \<Rightarrow> nat" where
  "digit_val c = of_char c - 48"

definition nat_of_digits :: "string \<Rightarrow> nat" where
  "nat_of_digits s = foldl (\<lambda>a c. 10 * a + digit_val c) 0 s"

text \<open>\<^verbatim>\<open>int(s)\<close> for text of the shape \<^verbatim>\<open>-?[0-9]+\<close>; \<open>None\<close> is Python's ValueError.\<close>

definition py_int_of_str :: "string \<Rightarrow> int option" where
  "py_int_of_str s =
     (if isdigit s then Some (int (nat_of_digits s))
      else if starts_with s ''-'' \<and> isdigit (tl s) then Some (- int (nat_of_digits (tl s)))
      else None)"

definition digit_char :: "nat \<Rightarrow> char" where
  "digit_char d = char_of (48 + d)"

fun str_of_nat :: "nat \<Rightarrow> string" where
  "str_of_nat n = (if n < 10 then [digit_char n] else str_of_nat (n div 10) @ [digit_char (n mod 10)])"

declare str_of_nat.simps [simp del]

definition str_of_int :: "int \<Rightarrow> string" where
  "str_of_int i = (if i < 0 then CHR ''-'' # str_of_nat (nat (- i)) else str_of_nat (nat i))"

subsection \<open>Syntax trees\<close>

text \<open>
  The grammar of \<^verbatim>\<open>parser.py\<close>. Keyword and punctuation tokens are filtered out of the
  tree by the parser; named tokens (\<^verbatim>\<open>NUMBER\<close>, \<^verbatim>\<open>STRING\<close>, \<^verbatim>\<open>IDENT\<close>, the operators)
  stay, and are kept here by their text. An \<^verbatim>\<open>expr\<close> node has the children
  \<^verbatim>\<open>term (ADD_OP term)*\<close>: the first operand and the list of (operator, operand) pairs.
\<close>

datatype expr = Expr trm "(string \<times> trm) list"
and trm = Trm factor "(string \<times> factor) list"
and factor =
    NUMBER string
  | STRING string
  | IDENT string
  | Member_access_expr string string
  | List_literal "expr list"
  | List_access string expr
  | Func_call string "expr list"
  | Paren expr

text \<open>
  A \<^verbatim>\<open>type_name\<close> node: its \<^verbatim>\<open>data\<close> (\<^verbatim>\<open>type_int\<close>, \<^verbatim>\<open>type_float\<close>, \<^verbatim>\<open>type_str\<close>) and the
  text of its child tokens; a \<^verbatim>\<open>logic_op\<close> node: the text of its child tokens. The
  parser filters the keywords, so the trees it builds have no child there.
\<close>

datatype type_name = Type_name string "string list"

datatype logic_op = Logic_op "string list"

datatype condition = Condition expr string expr

datatype conditions = Conditions condition "(logic_op \<times> condition) list"

datatype statement =
    Const_def type_name string expr
  | Var_def type_name string "expr option"
  | List_def string "expr list"
  | Assignment string expr
  | Cause_stmt conditions "statement list" "statement list option"
  | Output_stmt string string "expr list"
  | Again_stmt expr "string option" "statement list"
  | Rep_stop
  | Func_def string "(type_name \<times> string) list" "statement list"
  | Func_call_stmt string "expr list"
  | Back_stmt "expr option"

text \<open>
  The children of the \<^verbatim>\<open>start\<close> node: statements and \<^verbatim>\<open>NEWLINE\<close> tokens. A statement
  carries \<^verbatim>\<open>meta.line\<close> when the tree has it.
\<close>

datatype top_item = Top_statement "nat option" statement | Top_newline

subsection \<open>Values\<close>

text \<open>
  Everything a \<^verbatim>\<open>visit\<close> can return: \<^verbatim>\<open>None\<close>, an \<^verbatim>\<open>int\<close>, a \<^verbatim>\<open>float\<close>, a \<^verbatim>\<open>str\<close>, a
  \<^verbatim>\<open>list\<close>, a \<^verbatim>\<open>dict\<close> with text keys (the pseudo-objects \<^verbatim>\<open>out\<close>, \<^verbatim>\<open>rep\<close>, \<^verbatim>\<open>now\<close>,
  \<^verbatim>\<open>back\<close>, and a function's record), and the two objects a function's record holds:
  its body (a tree) and its defining environment (by its number).
\<close>

datatype 'f val =
    VNone
  | VInt int
  | VFloat 'f
  | VStr string
  | VList "'f val list"
  | VDict "(string \<times> 'f val) list"
  | VTree "statement list"
  | VEnv nat

record 'f host =
  float_of_literal :: "string \<Rightarrow> 'f"
  float_of_int :: "int \<Rightarrow> 'f option"
  float_of_str :: "string \<Rightarrow> 'f option"
  float_is_integer :: "'f \<Rightarrow> bool"
  int_of_float :: "'f \<Rightarrow> int option"
  float_add :: "'f \<Rightarrow> 'f \<Rightarrow> 'f"
  float_sub :: "'f \<Rightarrow> 'f \<Rightarrow> 'f"
  float_mul :: "'f \<Rightarrow> 'f \<Rightarrow> 'f"
  float_div :: "'f \<Rightarrow> 'f \<Rightarrow> 'f"
  int_truediv :: "int \<Rightarrow> int \<Rightarrow> 'f option"
  float_eq :: "'f \<Rightarrow> 'f \<Rightarrow> bool"
  float_lt :: "'f \<Rightarrow> 'f \<Rightarrow> bool"
  float_eq_int :: "'f \<Rightarrow> int \<Rightarrow> bool"
  float_lt_int :: "'f \<Rightarrow> int \<Rightarrow> bool"
  int_lt_float :: "int \<Rightarrow> 'f \<Rightarrow> bool"
  float_str :: "'f \<Rightarrow> string"
  str_repr :: "string \<Rightarrow> string"
  object_str :: "'f val \<Rightarrow> string"

text \<open>
  The fields are Python's own: \<^verbatim>\<open>float(text)\<close> of a literal, \<^verbatim>\<open>float(int)\<close> (\<open>None\<close>
  is OverflowError), \<^verbatim>\<open>float(str)\<close> (\<open>None\<close> is ValueError), \<^verbatim>\<open>f.is_integer()\<close>,
  \<^verbatim>\<open>int(f)\<close> (\<open>None\<close> for an infinity or a NaN), the float arithmetic, \<^verbatim>\<open>int / int\<close>
  (\<open>None\<close> is OverflowError), the comparisons of floats with floats and with ints,
  \<^verbatim>\<open>str(f)\<close>, \<^verbatim>\<open>repr(s)\<close> of a string, and \<^verbatim>\<open>str\<close> of a dict, a tree or an environment.
\<close>

fun type_name_of :: "'f val \<Rightarrow> string" where
  "type_name_of VNone = ''NoneType''"
| "type_name_of (VInt _) = ''int''"
| "type_name_of (VFloat _) = ''float''"
| "type_name_of (VStr _) = ''str''"
| "type_name_of (VList _) = ''list''"
| "type_name_of (VDict _) = ''dict''"
| "type_name_of (VTree _) = ''Tree''"
| "type_name_of (VEnv _) = ''Environment''"

fun is_str :: "'f val \<Rightarrow> bool" where
  "is_str (VStr _) = True"
| "is_str _ = False"

text \<open>\<^verbatim>\<open>isinstance(v, (int, float))\<close>.\<close>

fun is_number :: "'f val \<Rightarrow> bool" where
  "is_number (VInt _) = True"
| "is_number (VFloat _) = True"
| "is_number _ = False"

definition join_str :: "string \<Rightarrow> string list \<Rightarrow> string" where
  "join_str sep xs = (case xs of [] \<Rightarrow> [] | y # ys \<Rightarrow> y @ concat (map (\<lambda>z. sep @ z) ys))"

fun py_repr :: "'f host \<Rightarrow> 'f val \<Rightarrow> string" where
  "py_repr H VNone = ''None''"
| "py_repr H (VInt i) = str_of_int i"
| "py_repr H (VFloat f) = float_str H f"
| "py_repr H (VStr s) = str_repr H s"
| "py_repr H (VList xs) = ''['' @ join_str '', '' (map (py_repr H) xs) @ '']''"
| "py_repr H (VDict kvs) = object_str H (VDict kvs)"
| "py_repr H (VTree b) = object_str H (VTree b)"
| "py_repr H (VEnv i) = object_str H (VEnv i)"

text \<open>\<^verbatim>\<open>str(v)\<close>: a string is itself, anything else prints as its \<^verbatim>\<open>repr\<close>.\<close>

definition py_str :: "'f host \<Rightarrow> 'f val \<Rightarrow> string" where
  "py_str H v = (case v of VStr s \<Rightarrow> s | _ \<Rightarrow> py_repr H v)"

subsection \<open>Python's arithmetic on these values\<close>

text \<open>
  Each operator returns \<open>Inr\<close> the result or \<open>Inl\<close> the message of the exception Python
  raises (TypeError for operands the operator does not take, OverflowError when an int
  is too large for a float or for the count of a repetition). The messages are
  CPython's: a \<^verbatim>\<open>str\<close> or a \<^verbatim>\<open>list\<close> on the left of \<^verbatim>\<open>+\<close> can only be concatenated with its
  own kind, and a \<^verbatim>\<open>str\<close> or a \<^verbatim>\<open>list\<close> on either side of \<^verbatim>\<open>*\<close> can only be multiplied by
  an int; every other pair that an operator does not take is an unsupported operand.
\<close>

definition unsupported :: "string \<Rightarrow> 'f val \<Rightarrow> 'f val \<Rightarrow> string" where
  "unsupported opr a b =
     ''unsupported operand type(s) for '' @ opr @ '': '' @ [CHR 0x27] @ type_name_of a @ [CHR 0x27]
       @ '' and '' @ [CHR 0x27] @ type_name_of b @ [CHR 0x27]"

definition overflow_msg :: string where
  "overflow_msg = ''int too large to convert to float''"

definition float_op :: "'f host \<Rightarrow> ('f \<Rightarrow> 'f \<Rightarrow> 'f) \<Rightarrow> 'f option \<Rightarrow> 'f option \<Rightarrow> string + 'f val" where
  "float_op H f a b =
     (case a of None \<Rightarrow> Inl overflow_msg
      | Some x \<Rightarrow> (case b of None \<Rightarrow> Inl overflow_msg | Some y \<Rightarrow> Inr (VFloat (f x y))))"

text \<open>\<^verbatim>\<open>can only concatenate list (not "int") to list\<close>, and the same for \<^verbatim>\<open>str\<close>.\<close>

definition concat_msg :: "string \<Rightarrow> 'f val \<Rightarrow> string" where
  "concat_msg kind b =
     ''can only concatenate '' @ kind @ '' (not '' @ [CHR 0x22] @ type_name_of b @ [CHR 0x22]
       @ '') to '' @ kind"

fun py_add :: "'f host \<Rightarrow> 'f val \<Rightarrow> 'f val \<Rightarrow> string + 'f val" where
  "py_add H (VInt a) (VInt b) = Inr (VInt (a + b))"
| "py_add H (VInt a) (VFloat g) = float_op H (float_add H) (float_of_int H a) (Some g)"
| "py_add H (VFloat f) (VInt b) = float_op H (float_add H) (Some f) (float_of_int H b)"
| "py_add H (VFloat f) (VFloat g) = Inr (VFloat (float_add H f g))"
| "py_add H (VStr s) (VStr t) = Inr (VStr (s @ t))"
| "py_add H (VStr s) b = Inl (concat_msg ''str'' b)"
| "py_add H (VList xs) (VList ys) = Inr (VList (xs @ ys))"
| "py_add H (VList xs) b = Inl (concat_msg ''list'' b)"
| "py_add H a b = Inl (unsupported ''+'' a b)"

fun py_sub :: "'f host \<Rightarrow> 'f val \<Rightarrow> 'f val \<Rightarrow> string + 'f val" where
  "py_sub H (VInt a) (VInt b) = Inr (VInt (a - b))"
| "py_sub H (VInt a) (VFloat g) = float_op H (float_sub H) (float_of_int H a) (Some g)"
| "py_sub H (VFloat f) (VInt b) = float_op H (float_sub H) (Some f) (float_of_int H b)"
| "py_sub H (VFloat f) (VFloat g) = Inr (VFloat (float_sub H f g))"
| "py_sub H a b = Inl (unsupported ''-'' a b)"

text \<open>
  \<^verbatim>\<open>*\<close> also repeats a sequence: a string or a list times an int, in either order; a
  count of zero or less gives the empty sequence. The count has to fit a machine index
  (64 bits), or Python raises OverflowError. Times anything but an int, a sequence
  raises \<^verbatim>\<open>can't multiply sequence by non-int of type 'float'\<close> (the type of the other
  operand).
\<close>

definition repeat_seq :: "int \<Rightarrow> 'a list \<Rightarrow> 'a list" where
  "repeat_seq n xs = concat (replicate (nat n) xs)"

definition fits_index :: "int \<Rightarrow> bool" where
  "fits_index n = (- (2 ^ 63) \<le> n \<and> n < 2 ^ 63)"

definition index_overflow_msg :: string where
  "index_overflow_msg =
     ''cannot fit '' @ [CHR 0x27] @ ''int'' @ [CHR 0x27] @ '' into an index-sized integer''"

definition seq_repeat :: "int \<Rightarrow> 'a list \<Rightarrow> string + 'a list" where
  "seq_repeat n xs = (if fits_index n then Inr (repeat_seq n xs) else Inl index_overflow_msg)"

definition cant_multiply :: "'f val \<Rightarrow> string" where
  "cant_multiply b =
     ''can'' @ [CHR 0x27] @ ''t multiply sequence by non-int of type '' @ [CHR 0x27]
       @ type_name_of b @ [CHR 0x27]"

fun py_mul :: "'f host \<Rightarrow> 'f val \<Rightarrow> 'f val \<Rightarrow> string + 'f val" where
  "py_mul H (VInt a) (VInt b) = Inr (VInt (a * b))"
| "py_mul H (VInt a) (VFloat g) = float_op H (float_mul H) (float_of_int H a) (Some g)"
| "py_mul H (VFloat f) (VInt b) = float_op H (float_mul H) (Some f) (float_of_int H b)"
| "py_mul H (VFloat f) (VFloat g) = Inr (VFloat (float_mul H f g))"
| "py_mul H (VStr s) (VInt n) = map_sum id VStr (seq_repeat n s)"
| "py_mul H (VStr s) b = Inl (cant_multiply b)"
| "py_mul H (VList xs) (VInt n) = map_sum id VList (seq_repeat n xs)"
| "py_mul H (VList xs) b = Inl (cant_multiply b)"
| "py_mul H (VInt n) (VStr s) = map_sum id VStr (seq_repeat n s)"
| "py_mul H (VInt n) (VList xs) = map_sum id VList (seq_repeat n xs)"
| "py_mul H a (VStr s) = Inl (cant_multiply a)"
| "py_mul H a (VList xs) = Inl (cant_multiply a)"
| "py_mul H a b = Inl (unsupported ''*'' a b)"

text \<open>\<^verbatim>\<open>right == 0\<close>: an int 0 or a float equal to 0; no other value equals 0.\<close>

fun is_zero :: "'f host \<Rightarrow> 'f val \<Rightarrow> bool" where
  "is_zero H (VInt n) = (n = 0)"
| "is_zero H (VFloat f) = float_eq_int H f 0"
| "is_zero H _ = False"

definition zero_division_msg :: string where
  "zero_division_msg = ''division by zero''"

fun py_truediv :: "'f host \<Rightarrow> 'f val \<Rightarrow> 'f val \<Rightarrow> string + 'f val" where
  "py_truediv H (VInt a) (VInt b) =
     (if b = 0 then Inl zero_division_msg
      else (case int_truediv H a b of None \<Rightarrow> Inl ''integer division result too large for a float''
            | Some f \<Rightarrow> Inr (VFloat f)))"
| "py_truediv H (VInt a) (VFloat g) =
     (if float_eq_int H g 0 then Inl zero_division_msg
      else float_op H (float_div H) (float_of_int H a) (Some g))"
| "py_truediv H (VFloat f) (VInt b) =
     (if b = 0 then Inl zero_division_msg
      else float_op H (float_div H) (Some f) (float_of_int H b))"
| "py_truediv H (VFloat f) (VFloat g) =
     (if float_eq_int H g 0 then Inl zero_division_msg else Inr (VFloat (float_div H f g)))"
| "py_truediv H a b = Inl (unsupported ''/'' a b)"

subsection \<open>Python's comparisons on these values\<close>

fun py_eq :: "'f host \<Rightarrow> 'f val \<Rightarrow> 'f val \<Rightarrow> bool"
and py_eq_list :: "'f host \<Rightarrow> 'f val list \<Rightarrow> 'f val list \<Rightarrow> bool"
and py_eq_items :: "'f host \<Rightarrow> (string \<times> 'f val) list \<Rightarrow> (string \<times> 'f val) list \<Rightarrow> bool" where
  "py_eq H VNone VNone = True"
| "py_eq H (VInt a) (VInt b) = (a = b)"
| "py_eq H (VInt a) (VFloat g) = float_eq_int H g a"
| "py_eq H (VFloat f) (VInt b) = float_eq_int H f b"
| "py_eq H (VFloat f) (VFloat g) = float_eq H f g"
| "py_eq H (VStr s) (VStr t) = (s = t)"
| "py_eq H (VList xs) (VList ys) = py_eq_list H xs ys"
| "py_eq H (VDict xs) (VDict ys) = py_eq_items H xs ys"
| "py_eq H (VTree a) (VTree b) = (a = b)"
| "py_eq H (VEnv i) (VEnv j) = (i = j)"
| "py_eq H _ _ = False"
| "py_eq_list H [] [] = True"
| "py_eq_list H (x # xs) (y # ys) = (py_eq H x y \<and> py_eq_list H xs ys)"
| "py_eq_list H _ _ = False"
| "py_eq_items H [] [] = True"
| "py_eq_items H ((k, x) # xs) ((l, y) # ys) = (k = l \<and> py_eq H x y \<and> py_eq_items H xs ys)"
| "py_eq_items H _ _ = False"

fun str_lt :: "string \<Rightarrow> string \<Rightarrow> bool" where
  "str_lt [] [] = False"
| "str_lt [] (d # ds) = True"
| "str_lt (c # cs) [] = False"
| "str_lt (c # cs) (d # ds) =
     (if c = d then str_lt cs ds else (of_char c :: nat) < of_char d)"

text \<open>
  The four order comparisons \<^verbatim>\<open>a < b\<close>, \<^verbatim>\<open>a <= b\<close>, \<^verbatim>\<open>a > b\<close>, \<^verbatim>\<open>a >= b\<close>, by the text
  \<open>opr\<close> of the operator; \<open>Inl\<close> is the message of the TypeError of operands that have no
  order. Two lists are compared at their first pair of unequal items, with the same
  operator, so that the message names the types of those items; when one list is a
  prefix of the other, the lengths are compared.
\<close>

definition not_supported :: "string \<Rightarrow> 'f val \<Rightarrow> 'f val \<Rightarrow> string" where
  "not_supported opr a b =
     [CHR 0x27] @ opr @ [CHR 0x27] @ '' not supported between instances of '' @ [CHR 0x27]
       @ type_name_of a @ [CHR 0x27] @ '' and '' @ [CHR 0x27] @ type_name_of b @ [CHR 0x27]"

text \<open>The answer of the operator from the three facts \<open>a < b\<close>, \<open>a = b\<close> and \<open>b < a\<close>.\<close>

definition order_result :: "string \<Rightarrow> bool \<Rightarrow> bool \<Rightarrow> bool \<Rightarrow> bool" where
  "order_result opr lt eq gt =
     (if opr = ''<'' then lt
      else if opr = ''<='' then lt \<or> eq
      else if opr = ''>'' then gt
      else gt \<or> eq)"

fun py_order :: "'f host \<Rightarrow> string \<Rightarrow> 'f val \<Rightarrow> 'f val \<Rightarrow> string + bool"
and py_order_list :: "'f host \<Rightarrow> string \<Rightarrow> 'f val list \<Rightarrow> 'f val list \<Rightarrow> string + bool" where
  "py_order H opr (VInt a) (VInt b) = Inr (order_result opr (a < b) (a = b) (b < a))"
| "py_order H opr (VInt a) (VFloat g) =
     Inr (order_result opr (int_lt_float H a g) (float_eq_int H g a) (float_lt_int H g a))"
| "py_order H opr (VFloat f) (VInt b) =
     Inr (order_result opr (float_lt_int H f b) (float_eq_int H f b) (int_lt_float H b f))"
| "py_order H opr (VFloat f) (VFloat g) =
     Inr (order_result opr (float_lt H f g) (float_eq H f g) (float_lt H g f))"
| "py_order H opr (VStr s) (VStr t) = Inr (order_result opr (str_lt s t) (s = t) (str_lt t s))"
| "py_order H opr (VList xs) (VList ys) = py_order_list H opr xs ys"
| "py_order H opr a b = Inl (not_supported opr a b)"
| "py_order_list H opr [] [] = Inr (order_result opr False True False)"
| "py_order_list H opr [] (y # ys) = Inr (order_result opr True False False)"
| "py_order_list H opr (x # xs) [] = Inr (order_result opr False False True)"
| "py_order_list H opr (x # xs) (y # ys) =
     (if py_eq H x y then py_order_list H opr xs ys else py_order H opr x y)"

text \<open>\<^verbatim>\<open>attr in obj\<close> and \<^verbatim>\<open>obj[attr]\<close> for a text \<open>attr\<close>; \<open>Inl\<close> is Python's TypeError.\<close>

fun py_contains :: "'f host \<Rightarrow> string \<Rightarrow> 'f val \<Rightarrow> string + bool" where
  "py_contains H attr (VDict kvs) = Inr (attr \<in> set (map fst kvs))"
| "py_contains H attr (VStr s) = Inr (contains_str attr s)"
| "py_contains H attr (VList xs) = Inr (list_ex (\<lambda>x. py_eq H x (VStr attr)) xs)"
| "py_contains H attr v =
     Inl (''argument of type '' @ [CHR 0x27] @ type_name_of v @ [CHR 0x27] @ '' is not iterable'')"

fun py_getitem :: "'f val \<Rightarrow> string \<Rightarrow> string + 'f val" where
  "py_getitem (VDict kvs) attr =
     (case map_of kvs attr of Some v \<Rightarrow> Inr v | None \<Rightarrow> Inl ([CHR 0x27] @ attr @ [CHR 0x27]))"
| "py_getitem (VStr s) attr = Inl (''string indices must be integers, not '' @ [CHR 0x27] @ ''str'' @ [CHR 0x27])"
| "py_getitem (VList xs) attr = Inl ''list indices must be integers or slices, not str''"
| "py_getitem v attr =
     Inl ([CHR 0x27] @ type_name_of v @ [CHR 0x27] @ '' object is not subscriptable'')"

subsection \<open>Environments (\<^verbatim>\<open>environment.py\<close>)\<close>

text \<open>
  An \<^verbatim>\<open>Environment\<close> object has three dictionaries and a parent. A function's record
  is the dict \<^verbatim>\<open>{'params': ..., 'body': ..., 'env': ...}\<close>.
\<close>

record func_info =
  params :: "(string \<times> string) list"
  body :: "statement list"
  fenv :: nat

record 'f environment =
  variables :: "string \<rightharpoonup> 'f val"
  constants :: "string \<rightharpoonup> 'f val"
  funcs :: "string \<rightharpoonup> func_info"
  parent :: "nat option"

definition param_dict :: "string \<times> string \<Rightarrow> 'f val" where
  "param_dict p = VDict [(''name'', VStr (fst p)), (''type'', VStr (snd p))]"

definition func_dict :: "func_info \<Rightarrow> 'f val" where
  "func_dict fi =
     VDict [(''params'', VList (map param_dict (params fi))), (''body'', VTree (body fi)),
            (''env'', VEnv (fenv fi))]"

text \<open>
  Environments are objects that refer to one another, and a function keeps the one it
  was defined in; so they live in a store, numbered in the order they are created. A
  parent is always older than its child; the walks up the chain stop at a parent that is
  not (no such store is ever built).
\<close>

type_synonym 'f store = "nat \<Rightarrow> 'f environment"

definition empty_env :: "nat option \<Rightarrow> 'f environment" where
  "empty_env p = \<lparr>variables = Map.empty, constants = Map.empty, funcs = Map.empty, parent = p\<rparr>"

definition define_var :: "'f store \<Rightarrow> nat \<Rightarrow> string \<Rightarrow> 'f val \<Rightarrow> 'f store" where
  "define_var E i name v = E(i := (E i)\<lparr>variables := (variables (E i))(name \<mapsto> v)\<rparr>)"

definition define_const :: "'f store \<Rightarrow> nat \<Rightarrow> string \<Rightarrow> 'f val \<Rightarrow> 'f store" where
  "define_const E i name v = E(i := (E i)\<lparr>constants := (constants (E i))(name \<mapsto> v)\<rparr>)"

definition define_func :: "'f store \<Rightarrow> nat \<Rightarrow> string \<Rightarrow> func_info \<Rightarrow> 'f store" where
  "define_func E i name fi = E(i := (E i)\<lparr>funcs := (funcs (E i))(name \<mapsto> fi)\<rparr>)"

definition not_defined_msg :: "string \<Rightarrow> string" where
  "not_defined_msg name = ''Variable not defined: '' @ name"

function is_defined :: "'f store \<Rightarrow> nat \<Rightarrow> string \<Rightarrow> bool" where
  "is_defined E i name =
     (if variables (E i) name \<noteq> None \<or> constants (E i) name \<noteq> None \<or> funcs (E i) name \<noteq> None
      then True
      else (case parent (E i) of None \<Rightarrow> False | Some p \<Rightarrow> if p < i then is_defined E p name else False))"
  by pat_completeness auto
termination
  by (relation "measure (\<lambda>(E, i, name). i)") auto

function set_value :: "'f store \<Rightarrow> nat \<Rightarrow> string \<Rightarrow> 'f val \<Rightarrow> string + 'f store" where
  "set_value E i name v =
     (if constants (E i) name \<noteq> None then Inl (''Cannot modify constant: '' @ name)
      else if variables (E i) name \<noteq> None then Inr (define_var E i name v)
      else (case parent (E i) of
              None \<Rightarrow> Inl (not_defined_msg name)
            | Some p \<Rightarrow>
                if p < i \<and> is_defined E p name then set_value E p name v
                else Inl (not_defined_msg name)))"
  by pat_completeness auto
termination
  by (relation "measure (\<lambda>(E, i, name, v). i)") auto

declare set_value.simps [simp del] is_defined.simps [simp del]

function get_value :: "'f store \<Rightarrow> nat \<Rightarrow> string \<Rightarrow> string + 'f val" where
  "get_value E i name =
     (case constants (E i) name of
        Some v \<Rightarrow> Inr v
      | None \<Rightarrow>
          (case variables (E i) name of
             Some v \<Rightarrow> Inr v
           | None \<Rightarrow>
               (case funcs (E i) name of
                  Some fi \<Rightarrow> Inr (func_dict fi)
                | None \<Rightarrow>
                    (case parent (E i) of
                       None \<Rightarrow> Inl (not_defined_msg name)
                     | Some p \<Rightarrow> if p < i then get_value E p name else Inl (not_defined_msg name)))))"
  by pat_completeness auto
termination
  by (relation "measure (\<lambda>(E, i, name). i)") auto

declare get_value.simps [simp del]

function get_func :: "'f store \<Rightarrow> nat \<Rightarrow> string \<Rightarrow> func_info option" where
  "get_func E i name =
     (case funcs (E i) name of
        Some fi \<Rightarrow> Some fi
      | None \<Rightarrow> (case parent (E i) of None \<Rightarrow> None | Some p \<Rightarrow> if p < i then get_func E p name else None))"
  by pat_completeness auto
termination
  by (relation "measure (\<lambda>(E, i, name). i)") auto

declare get_func.simps [simp del]

definition is_constant :: "'f store \<Rightarrow> nat \<Rightarrow> string \<Rightarrow> bool" where
  "is_constant E i name = (constants (E i) name \<noteq> None)"

function is_function :: "'f store \<Rightarrow> nat \<Rightarrow> string \<Rightarrow> bool" where
  "is_function E i name =
     (funcs (E i) name \<noteq> None \<or>
      (case parent (E i) of None \<Rightarrow> False | Some p \<Rightarrow> if p < i then is_function E p name else False))"
  by pat_completeness auto
termination
  by (relation "measure (\<lambda>(E, i, name). i)") auto

declare is_function.simps [simp del]

subsection \<open>The evaluator's state (\<^verbatim>\<open>RuntimeChecker.__init__\<close>)\<close>

record 'f state =
  envs :: "'f store"
  next_env :: nat
  env :: nat
  used_variables :: "string set"
  defined_vars :: "string set"
  assigned_vars :: "string set"
  warned_vars :: "string set"
  errors :: "string list"
  error_vars_list :: "string list"
  has_output :: bool
  original_lines :: "string list"
  current_line_num :: nat
  should_break :: bool
  return_value :: "'f val"
  should_return :: bool

text \<open>
  \<open>envs\<close> is the store of environments and \<open>next_env\<close> the number the next one gets;
  \<open>env\<close> is \<^verbatim>\<open>self.env\<close>, the current one. \<open>error_vars_list\<close> holds the poisoned names.
\<close>

definition builtin_env :: "'f environment" where
  "builtin_env =
     \<lparr>variables =
        [''out'' \<mapsto> VDict [(''Info'', VStr ''out.Info''), (''Warn'', VStr ''out.Warn''),
                              (''Error'', VStr ''out.Error'')],
         ''rep'' \<mapsto> VDict [(''stop'', VStr ''rep.stop'')],
         ''now'' \<mapsto> VDict [(''repeat'', VStr ''now.repeat'')],
         ''back'' \<mapsto> VDict [(''value'', VStr ''back.value'')]],
      constants = Map.empty, funcs = Map.empty, parent = None\<rparr>"

definition initial_state :: "string list \<Rightarrow> 'f state" where
  "initial_state lines =
     \<lparr>envs = (\<lambda>i. empty_env None)(0 := builtin_env), next_env = 1, env = 0,
      used_variables = {}, defined_vars = {}, assigned_vars = {}, warned_vars = {},
      errors = [], error_vars_list = [], has_output = False,
      original_lines = lines, current_line_num = 0,
      should_break = False, return_value = VNone, should_return = False\<rparr>"

definition quoted :: "string \<Rightarrow> string" where
  "quoted x = [CHR 0x27] @ x @ [CHR 0x27]"

text \<open>
  \<^verbatim>\<open>_add_error\<close> with both debug modes off: the message is wrapped in the colour codes and
  appended unless that very text is already in the list.
\<close>

definition format_error :: "string \<Rightarrow> string" where
  "format_error msg = [CHR 0x1B] @ ''[91m[ERROR] '' @ msg @ [CHR 0x1B] @ ''[0m''"

definition add_error :: "string \<Rightarrow> 'f state \<Rightarrow> 'f state" where
  "add_error msg s =
     (if format_error msg \<in> set (errors s) then s
      else s\<lparr>errors := errors s @ [format_error msg]\<rparr>)"

text \<open>\<^verbatim>\<open>self.error_vars_list.append(name)\<close>.\<close>

definition poison :: "string \<Rightarrow> 'f state \<Rightarrow> 'f state" where
  "poison name s = s\<lparr>error_vars_list := error_vars_list s @ [name]\<rparr>"

subsection \<open>Outcomes\<close>

text \<open>
  A \<^verbatim>\<open>visit\<close> returns a value or raises an exception; the state it has changed so far
  stays changed either way. \<open>Raised\<close> carries \<^verbatim>\<open>str(e)\<close>: every handler that lets an
  exception of the evaluator through catches \<^verbatim>\<open>Exception\<close> and reads only its text.
\<close>

datatype 'a outcome = Done 'a | Raised string | OutOfFuel

type_synonym ('a, 'f) run = "'f state \<Rightarrow> 'a outcome \<times> 'f state"

definition and_then :: "('a, 'f) run \<Rightarrow> ('a \<Rightarrow> ('b, 'f) run) \<Rightarrow> ('b, 'f) run" where
  "and_then m k s =
     (case m s of
        (Done a, s1) \<Rightarrow> k a s1
      | (Raised e, s1) \<Rightarrow> (Raised e, s1)
      | (OutOfFuel, s1) \<Rightarrow> (OutOfFuel, s1))"

definition has_marker :: "string \<Rightarrow> bool" where
  "has_marker msg =
     (contains_str ''Tree('' msg \<or> contains_str ''Token('' msg \<or> contains_str ''visit_'' msg)"

text \<open>
  \<^verbatim>\<open>RuntimeChecker.visit\<close>: the dispatch to the node's method (the argument \<open>m\<close>) inside
  its \<^verbatim>\<open>try\<close>: an exception whose text has a marker is replaced by
  \<^verbatim>\<open>Exception("Invalid statement")\<close>, any other is raised again.
\<close>

definition visit :: "('a, 'f) run \<Rightarrow> ('a, 'f) run" where
  "visit m s =
     (case m s of
        (Raised e, s1) \<Rightarrow> (Raised (if has_marker e then ''Invalid statement'' else e), s1)
      | r \<Rightarrow> r)"

subsection \<open>\<^verbatim>\<open>cast_type\<close>\<close>

text \<open>The \<^verbatim>\<open>except (ValueError, TypeError)\<close> branch, for the exception text \<open>e\<close>.\<close>

definition cast_fail :: "'f host \<Rightarrow> 'f val \<Rightarrow> string \<Rightarrow> string \<Rightarrow> string \<Rightarrow> ('f val, 'f) run" where
  "cast_fail H v type_name var_name e s =
     (let error_msg =
            ''Cannot cast '' @ quoted (py_str H v) @ '' to type '' @ quoted type_name
            @ (if var_name \<noteq> [] then '' for variable '' @ quoted var_name else [])
            @ (if e \<noteq> [] then '' - '' @ e else []);
          s1 = add_error error_msg s
      in (Done VNone, if var_name \<noteq> [] then poison var_name s1 else s1))"

definition int_type_error :: "'f val \<Rightarrow> string" where
  "int_type_error v =
     ''int() argument must be a string, a bytes-like object or a real number, not ''
       @ quoted (type_name_of v)"

definition float_type_error :: "'f val \<Rightarrow> string" where
  "float_type_error v =
     ''float() argument must be a string or a real number, not '' @ quoted (type_name_of v)"

definition cast_type :: "'f host \<Rightarrow> 'f val \<Rightarrow> string \<Rightarrow> string \<Rightarrow> ('f val, 'f) run" where
  "cast_type H v type_name var_name s =
     (if var_name \<noteq> [] \<and> var_name \<in> set (error_vars_list s) then (Done VNone, s)
      else if type_name = ''int'' then
        (case v of
           VStr x \<Rightarrow>
             (case py_int_of_str x of
                Some i \<Rightarrow> (Done (VInt i), s)
              | None \<Rightarrow>
                  cast_fail H v type_name var_name
                    (''String '' @ quoted x @ '' cannot be converted to int'') s)
         | VFloat f \<Rightarrow>
             (if float_is_integer H f then
                (case int_of_float H f of
                   Some i \<Rightarrow> (Done (VInt i), s)
                 | None \<Rightarrow> (Raised ''cannot convert float to integer'', s))
              else
                cast_fail H v type_name var_name
                  (''Float '' @ quoted (float_str H f)
                     @ '' cannot be converted to int without loss of precision'') s)
         | VInt i \<Rightarrow> (Done (VInt i), s)
         | _ \<Rightarrow> cast_fail H v type_name var_name (int_type_error v) s)
      else if type_name = ''float'' then
        (case v of
           VStr x \<Rightarrow>
             (case float_of_str H x of
                Some f \<Rightarrow> (Done (VFloat f), s)
              | None \<Rightarrow>
                  cast_fail H v type_name var_name
                    (''String '' @ quoted x @ '' cannot be converted to float'') s)
         | VInt i \<Rightarrow>
             (case float_of_int H i of
                Some f \<Rightarrow> (Done (VFloat f), s)
              | None \<Rightarrow> (Raised overflow_msg, s))
         | VFloat f \<Rightarrow> (Done (VFloat f), s)
         | _ \<Rightarrow> cast_fail H v type_name var_name (float_type_error v) s)
      else if type_name = ''str'' then (Done (VStr (py_str H v)), s)
      else
        (let error_msg =
               ''Unsupported type: '' @ quoted type_name
               @ (if var_name \<noteq> [] then '' for variable '' @ quoted var_name else []);
             s1 = add_error error_msg s
         in (Done VNone, if var_name \<noteq> [] then poison var_name s1 else s1)))"

subsection \<open>Expressions\<close>

text \<open>
  Every method below takes, for each kind of child node it visits, the method that
  \<^verbatim>\<open>self.visit\<close> dispatches to (\<open>ve\<close> for an \<^verbatim>\<open>expr\<close>, \<open>vt\<close> for a \<^verbatim>\<open>term\<close>, \<open>vf\<close> for a
  \<^verbatim>\<open>factor\<close>, \<open>vb\<close> for a \<^verbatim>\<open>block\<close>, \<open>vs\<close> for a \<^verbatim>\<open>statement\<close>); \<open>visit (ve e)\<close> is
  \<^verbatim>\<open>self.visit(e)\<close>. The recursion is closed at the end of the section.
\<close>

definition visit_NUMBER :: "'f host \<Rightarrow> string \<Rightarrow> ('f val, 'f) run" where
  "visit_NUMBER H tok s =
     (if CHR ''.'' \<in> set tok then (Done (VFloat (float_of_literal H tok)), s)
      else (case py_int_of_str tok of
              Some i \<Rightarrow> (Done (VInt i), s)
            | None \<Rightarrow> (Raised (''invalid literal for int() with base 10: '' @ quoted tok), s)))"

definition visit_STRING :: "string \<Rightarrow> ('f val, 'f) run" where
  "visit_STRING tok s = (Done (VStr (butlast (tl tok))), s)"

definition visit_IDENT :: "string \<Rightarrow> ('f val, 'f) run" where
  "visit_IDENT var_name s0 =
     (let s = s0\<lparr>used_variables := insert var_name (used_variables s0)\<rparr> in
      if \<not> is_defined (envs s) (env s) var_name then
        (let s1 = add_error (''Variable '' @ quoted var_name @ '' not defined'') s
         in (Done VNone, if var_name \<notin> set (error_vars_list s1) then poison var_name s1 else s1))
      else
        (case get_value (envs s) (env s) var_name of
           Inl e \<Rightarrow> (Raised e, s)
         | Inr v \<Rightarrow>
             (Done v,
              if var_name \<in> defined_vars s \<and> var_name \<notin> assigned_vars s
                 \<and> \<not> is_constant (envs s) (env s) var_name
                 \<and> var_name \<notin> warned_vars s \<and> var_name \<notin> set (error_vars_list s)
              then s\<lparr>warned_vars := insert var_name (warned_vars s)\<rparr> else s)))"

definition visit_member_access_expr :: "'f host \<Rightarrow> string \<Rightarrow> string \<Rightarrow> ('f val, 'f) run" where
  "visit_member_access_expr H obj_name attr_name s =
     (if \<not> is_defined (envs s) (env s) obj_name then
        (Done VNone, add_error (''Object '' @ quoted obj_name @ '' is not defined'') s)
      else
        (case get_value (envs s) (env s) obj_name of
           Inl e \<Rightarrow> (Raised e, s)
         | Inr obj \<Rightarrow>
             (case py_contains H attr_name obj of
                Inl e \<Rightarrow> (Raised e, s)
              | Inr False \<Rightarrow>
                  (Done VNone,
                   add_error (''Object '' @ quoted obj_name @ '' has no member '' @ quoted attr_name) s)
              | Inr True \<Rightarrow>
                  if obj_name = ''now'' \<and> attr_name = ''repeat'' then
                    (if is_defined (envs s) (env s) ''repeat'' then
                       (case get_value (envs s) (env s) ''repeat'' of
                          Inl e \<Rightarrow> (Raised e, s)
                        | Inr v \<Rightarrow> (Done v, s))
                     else
                       (Done VNone,
                        add_error (quoted ''now.repeat''
                          @ '' can only be used inside an Again loop that provides a repeat parameter'') s))
                  else
                    (case py_getitem obj attr_name of
                       Inl e \<Rightarrow> (Raised e, s)
                     | Inr v \<Rightarrow> (Done v, s)))))"

text \<open>The children of a list literal or of \<^verbatim>\<open>func_args\<close>, visited left to right.\<close>

fun visit_all :: "(expr \<Rightarrow> ('f val, 'f) run) \<Rightarrow> expr list \<Rightarrow> ('f val list, 'f) run" where
  "visit_all ve [] s = (Done [], s)"
| "visit_all ve (e # es) s =
     (case visit (ve e) s of
        (Done v, s1) \<Rightarrow>
          (case visit_all ve es s1 of
             (Done vs, s2) \<Rightarrow> (Done (v # vs), s2)
           | (Raised x, s2) \<Rightarrow> (Raised x, s2)
           | (OutOfFuel, s2) \<Rightarrow> (OutOfFuel, s2))
      | (Raised x, s1) \<Rightarrow> (Raised x, s1)
      | (OutOfFuel, s1) \<Rightarrow> (OutOfFuel, s1))"

definition visit_list_literal :: "(expr \<Rightarrow> ('f val, 'f) run) \<Rightarrow> expr list \<Rightarrow> ('f val, 'f) run" where
  "visit_list_literal ve elems = and_then (visit_all ve elems) (\<lambda>vs s. (Done (VList vs), s))"

definition visit_list_access ::
  "(expr \<Rightarrow> ('f val, 'f) run) \<Rightarrow> string \<Rightarrow> expr \<Rightarrow> ('f val, 'f) run" where
  "visit_list_access ve list_name index_node =
     and_then (visit (ve index_node)) (\<lambda>index s.
       if list_name \<in> set (error_vars_list s) then (Done VNone, s)
       else if \<not> is_defined (envs s) (env s) list_name then
         (Done VNone, poison list_name (add_error (''List '' @ quoted list_name @ '' is not defined'') s))
       else
         (case get_value (envs s) (env s) list_name of
            Inl e \<Rightarrow> (Raised e, s)
          | Inr current_list \<Rightarrow>
              (case current_list of
                 VList xs \<Rightarrow>
                   (case index of
                      VInt k \<Rightarrow>
                        if k < 0 \<or> k \<ge> int (length xs) then
                          (Done VNone,
                           add_error (''List index '' @ str_of_int k @ '' out of range for list of length ''
                             @ str_of_nat (length xs)) s)
                        else (Done (xs ! nat k), s)
                    | _ \<Rightarrow>
                        (Done VNone,
                         add_error (''List index must be an integer, got '' @ type_name_of index) s))
               | _ \<Rightarrow> (Done VNone, add_error (quoted list_name @ '' is not a list'') s))))"

text \<open>
  The loop of \<^verbatim>\<open>visit_func_call\<close> that casts the arguments; \<open>i\<close> counts from 1. The result
  \<open>None\<close> is the early \<^verbatim>\<open>return None\<close> after a failed cast.
\<close>

fun cast_args ::
  "'f host \<Rightarrow> string \<Rightarrow> (string \<times> string) list \<Rightarrow> nat \<Rightarrow> (string \<times> 'f val) list
     \<Rightarrow> ('f val list option, 'f) run" where
  "cast_args H func_name func_params i [] s = (Done (Some []), s)"
| "cast_args H func_name func_params i ((param_name, arg_value) # rest) s =
     (case map_of (rev func_params) param_name of
        None \<Rightarrow> (Raised (quoted param_name), s)
      | Some param_type \<Rightarrow>
          (case cast_type H arg_value param_type (func_name @ '' argument '' @ str_of_nat i) s of
             (Done casted_arg, s1) \<Rightarrow>
               if casted_arg = VNone then
                 (Done None,
                  add_error (''Argument '' @ str_of_nat i @ '' of function '' @ quoted func_name
                    @ '' cannot be cast to type '' @ quoted param_type) s1)
               else
                 (case cast_args H func_name func_params (Suc i) rest s1 of
                    (Done (Some cs), s2) \<Rightarrow> (Done (Some (casted_arg # cs)), s2)
                  | r \<Rightarrow> r)
           | (Raised e, s1) \<Rightarrow> (Raised e, s1)
           | (OutOfFuel, s1) \<Rightarrow> (OutOfFuel, s1)))"

text \<open>
  The call itself, once the arguments are cast. \<open>enter_call\<close>: a child of the function's
  own environment is made current, with the parameters bound in it, and \<^verbatim>\<open>return_value\<close>
  and \<^verbatim>\<open>should_return\<close> are reset. \<open>leave_call\<close>: the caller's environment and both fields
  are put back, also when the body raises. The result is the \<^verbatim>\<open>return_value\<close> the body left.
\<close>

definition enter_call :: "func_info \<Rightarrow> (string \<times> 'f val) list \<Rightarrow> 'f state \<Rightarrow> 'f state" where
  "enter_call fi bindings s =
     (let func_env = next_env s;
          E1 = (envs s)(func_env := empty_env (Some (fenv fi)));
          E2 = foldl (\<lambda>E (param_name, arg_value). define_var E func_env param_name arg_value) E1 bindings
      in s\<lparr>envs := E2, next_env := Suc func_env, env := func_env,
            return_value := VNone, should_return := False\<rparr>)"

definition leave_call :: "'f state \<Rightarrow> 'f state \<Rightarrow> 'f state" where
  "leave_call s s2 =
     s2\<lparr>env := env s, return_value := return_value s, should_return := should_return s\<rparr>"

definition call_body ::
  "(statement list \<Rightarrow> (unit, 'f) run) \<Rightarrow> func_info \<Rightarrow> (string \<times> 'f val) list \<Rightarrow> ('f val, 'f) run" where
  "call_body vb fi bindings s =
     (case visit (vb (body fi)) (enter_call fi bindings s) of
        (Done u, s2) \<Rightarrow> (Done (return_value s2), leave_call s s2)
      | (Raised e, s2) \<Rightarrow> (Raised e, leave_call s s2)
      | (OutOfFuel, s2) \<Rightarrow> (OutOfFuel, leave_call s s2))"

definition visit_func_call ::
  "'f host \<Rightarrow> (expr \<Rightarrow> ('f val, 'f) run) \<Rightarrow> (statement list \<Rightarrow> (unit, 'f) run)
     \<Rightarrow> string \<Rightarrow> expr list \<Rightarrow> ('f val, 'f) run" where
  "visit_func_call H ve vb func_name arg_nodes s0 =
     (let s = s0\<lparr>used_variables := insert func_name (used_variables s0)\<rparr> in
      if func_name \<in> set (error_vars_list s) then (Done VNone, s)
      else if \<not> is_function (envs s) (env s) func_name then
        (Done VNone, poison func_name (add_error (''Function '' @ quoted func_name @ '' is not defined'') s))
      else
        (case get_func (envs s) (env s) func_name of
           None \<Rightarrow> (Done VNone, add_error (''Function '' @ quoted func_name @ '' not found'') s)
         | Some func_info \<Rightarrow>
             and_then (visit_all ve arg_nodes) (\<lambda>args s1.
               let expected_params = map fst (params func_info) in
               if length args \<noteq> length expected_params then
                 (Done VNone,
                  add_error (''Function '' @ quoted func_name @ '' expects ''
                    @ str_of_nat (length expected_params) @ '' arguments but got ''
                    @ str_of_nat (length args)) s1)
               else
                 and_then (cast_args H func_name (params func_info) 1 (zip expected_params args))
                   (\<lambda>casted s2.
                      case casted of
                        None \<Rightarrow> (Done VNone, s2)
                      | Some casted_args \<Rightarrow> call_body vb func_info (zip expected_params casted_args) s2)
                   s1) s))"

definition visit_factor ::
  "'f host \<Rightarrow> (expr \<Rightarrow> ('f val, 'f) run) \<Rightarrow> (statement list \<Rightarrow> (unit, 'f) run)
     \<Rightarrow> factor \<Rightarrow> ('f val, 'f) run" where
  "visit_factor H ve vb f =
     (case f of
        NUMBER tok \<Rightarrow> visit (visit_NUMBER H tok)
      | STRING tok \<Rightarrow> visit (visit_STRING tok)
      | IDENT name \<Rightarrow> visit (visit_IDENT name)
      | Member_access_expr obj_name attr_name \<Rightarrow> visit_member_access_expr H obj_name attr_name
      | List_literal elems \<Rightarrow> visit_list_literal ve elems
      | List_access list_name index_node \<Rightarrow> visit_list_access ve list_name index_node
      | Func_call func_name arg_nodes \<Rightarrow> visit_func_call H ve vb func_name arg_nodes
      | Paren e \<Rightarrow> visit (ve e))"

text \<open>
  The loop of \<^verbatim>\<open>visit_term\<close> over the (operator, factor) pairs, with \<open>left\<close> the value so
  far. A division whose right operand equals 0 records the error and returns 0 from the
  whole method.
\<close>

definition lift_op :: "string + 'f val \<Rightarrow> ('f val \<Rightarrow> ('f val, 'f) run) \<Rightarrow> ('f val, 'f) run" where
  "lift_op r k s = (case r of Inl e \<Rightarrow> (Raised e, s) | Inr v \<Rightarrow> k v s)"

fun term_loop ::
  "'f host \<Rightarrow> (factor \<Rightarrow> ('f val, 'f) run) \<Rightarrow> 'f val \<Rightarrow> (string \<times> factor) list \<Rightarrow> ('f val, 'f) run" where
  "term_loop H vf left [] s = (Done left, s)"
| "term_loop H vf left ((opr, f) # rest) s =
     (case visit (vf f) s of
        (Done right, s1) \<Rightarrow>
          if opr = ''*'' then lift_op (py_mul H left right) (\<lambda>v. term_loop H vf v rest) s1
          else if opr = ''/'' then
            (if is_zero H right then (Done (VInt 0), add_error ''Division by zero'' s1)
             else lift_op (py_truediv H left right) (\<lambda>v. term_loop H vf v rest) s1)
          else term_loop H vf left rest s1
      | (Raised e, s1) \<Rightarrow> (Raised e, s1)
      | (OutOfFuel, s1) \<Rightarrow> (OutOfFuel, s1))"

definition visit_term :: "'f host \<Rightarrow> (factor \<Rightarrow> ('f val, 'f) run) \<Rightarrow> trm \<Rightarrow> ('f val, 'f) run" where
  "visit_term H vf t =
     (case t of Trm f rest \<Rightarrow> and_then (visit (vf f)) (\<lambda>left. term_loop H vf left rest))"

fun expr_loop ::
  "'f host \<Rightarrow> (trm \<Rightarrow> ('f val, 'f) run) \<Rightarrow> 'f val \<Rightarrow> (string \<times> trm) list \<Rightarrow> ('f val, 'f) run" where
  "expr_loop H vt left [] s = (Done left, s)"
| "expr_loop H vt left ((opr, t) # rest) s =
     (case visit (vt t) s of
        (Done right, s1) \<Rightarrow>
          if opr = ''+'' then
            (if is_str left \<or> is_str right
             then expr_loop H vt (VStr (py_str H left @ py_str H right)) rest s1
             else lift_op (py_add H left right) (\<lambda>v. expr_loop H vt v rest) s1)
          else if opr = ''-'' then lift_op (py_sub H left right) (\<lambda>v. expr_loop H vt v rest) s1
          else if opr = ''*'' then lift_op (py_mul H left right) (\<lambda>v. expr_loop H vt v rest) s1
          else if opr = ''/'' then
            (if is_zero H right then (Done (VInt 0), add_error ''Division by zero'' s1)
             else lift_op (py_truediv H left right) (\<lambda>v. expr_loop H vt v rest) s1)
          else expr_loop H vt left rest s1
      | (Raised e, s1) \<Rightarrow> (Raised e, s1)
      | (OutOfFuel, s1) \<Rightarrow> (OutOfFuel, s1))"

definition visit_expr :: "'f host \<Rightarrow> (trm \<Rightarrow> ('f val, 'f) run) \<Rightarrow> expr \<Rightarrow> ('f val, 'f) run" where
  "visit_expr H vt e =
     (case e of Expr t rest \<Rightarrow> and_then (visit (vt t)) (\<lambda>left. expr_loop H vt left rest))"

subsection \<open>Conditions\<close>

definition lower_char :: "char \<Rightarrow> char" where
  "lower_char c =
     (if (65::nat) \<le> of_char c \<and> of_char c \<le> (90::nat) then char_of (of_char c + (32::nat)) else c)"

text \<open>
  \<^verbatim>\<open>visit_logic_op\<close> reads the operator off the source line \<^verbatim>\<open>current_line_num\<close> when that
  line has \<^verbatim>\<open>' and '\<close> or \<^verbatim>\<open>' or '\<close> in it, and only otherwise looks at the node.
\<close>

definition visit_logic_op :: "logic_op \<Rightarrow> 'f state \<Rightarrow> string" where
  "visit_logic_op node s =
     (let n = current_line_num s;
          on_line = (\<lambda>w. 0 < n \<and> n \<le> length (original_lines s)
                          \<and> contains_str w (original_lines s ! (n - 1)))
      in if on_line '' and '' then ''and''
         else if on_line '' or '' then ''or''
         else (case node of Logic_op children \<Rightarrow>
                 (case children of c # cs \<Rightarrow> map lower_char c | [] \<Rightarrow> ''and'')))"

text \<open>
  The comparison of \<^verbatim>\<open>visit_condition\<close>: \<open>None\<close> for an operator it does not know,
  \<open>Some (Inl e)\<close> for Python's TypeError of text \<open>e\<close>.
\<close>

definition py_compare :: "'f host \<Rightarrow> string \<Rightarrow> 'f val \<Rightarrow> 'f val \<Rightarrow> (string + bool) option" where
  "py_compare H opr l r =
     (if opr = ''?'' then Some (Inr (py_eq H l r))
      else if opr = ''!'' then Some (Inr (\<not> py_eq H l r))
      else if opr \<in> set [''>'', ''<'', ''>='', ''<=''] then Some (py_order H opr l r)
      else None)"

definition visit_condition ::
  "'f host \<Rightarrow> (expr \<Rightarrow> ('f val, 'f) run) \<Rightarrow> condition \<Rightarrow> (bool, 'f) run" where
  "visit_condition H ve c =
     (case c of Condition l opr r \<Rightarrow>
        and_then (visit (ve l)) (\<lambda>left.
          and_then (visit (ve r)) (\<lambda>right s.
            case py_compare H opr left right of
              Some (Inr b) \<Rightarrow> (Done b, s)
            | None \<Rightarrow> (Done False, add_error (''Unknown comparison operator: '' @ opr) s)
            | Some (Inl e) \<Rightarrow>
                (Done False,
                 add_error (''Comparison failed between '' @ type_name_of left @ '' and ''
                   @ type_name_of right @ '': '' @ e) s))))"

text \<open>
  \<^verbatim>\<open>visit_conditions\<close>, first loop: every child after the first condition is visited in
  order, an operator giving its text and a condition its result.
\<close>

fun visit_children ::
  "(condition \<Rightarrow> (bool, 'f) run) \<Rightarrow> (logic_op \<times> condition) list \<Rightarrow> ((string \<times> bool) list, 'f) run" where
  "visit_children vc [] s = (Done [], s)"
| "visit_children vc ((node, c) # rest) s =
     (let logic_op = visit_logic_op node s in
      case visit (vc c) s of
        (Done result, s1) \<Rightarrow>
          (case visit_children vc rest s1 of
             (Done xs, s2) \<Rightarrow> (Done ((logic_op, result) # xs), s2)
           | (Raised e, s2) \<Rightarrow> (Raised e, s2)
           | (OutOfFuel, s2) \<Rightarrow> (OutOfFuel, s2))
      | (Raised e, s1) \<Rightarrow> (Raised e, s1)
      | (OutOfFuel, s1) \<Rightarrow> (OutOfFuel, s1))"

text \<open>
  Second loop: the results folded from the left, \<open>final_result\<close> the value so far; the
  pair \<open>(logic_op, result)\<close> is \<^verbatim>\<open>logic_ops[i]\<close> with \<^verbatim>\<open>results[i + 1]\<close>.
\<close>

fun logic_loop :: "bool \<Rightarrow> (string \<times> bool) list \<Rightarrow> (bool, 'f) run" where
  "logic_loop final_result [] s = (Done final_result, s)"
| "logic_loop final_result ((logic_op, result) # rest) s =
     (if logic_op = ''and'' then
        (if \<not> (final_result \<and> result) then (Done (final_result \<and> result), s)
         else logic_loop (final_result \<and> result) rest s)
      else if logic_op = ''or'' then
        (if final_result \<or> result then (Done (final_result \<or> result), s)
         else logic_loop (final_result \<or> result) rest s)
      else (Done False, add_error (''Unknown logical operator: '' @ quoted logic_op) s))"

text \<open>
  A \<^verbatim>\<open>conditions\<close> node of the grammar has one more condition than operators, so of the
  branches after the first loop only the fold is reached.
\<close>

definition visit_conditions :: "(condition \<Rightarrow> (bool, 'f) run) \<Rightarrow> conditions \<Rightarrow> (bool, 'f) run" where
  "visit_conditions vc node =
     (case node of Conditions c rest \<Rightarrow>
        if rest = [] then visit (vc c)
        else and_then (visit (vc c)) (\<lambda>first. and_then (visit_children vc rest) (logic_loop first)))"

subsection \<open>Statements\<close>

text \<open>Lines 1158 to 1162: the type name is the text of the node's first child, or \<^verbatim>\<open>'int'\<close>.\<close>

definition type_name_text :: "type_name \<Rightarrow> string" where
  "type_name_text node =
     (case node of Type_name d children \<Rightarrow> (case children of c # cs \<Rightarrow> c | [] \<Rightarrow> ''int''))"

text \<open>The cast of an initial value: a number keeps its own type, anything else is cast to the declared one.\<close>

definition cast_initial :: "'f host \<Rightarrow> 'f val \<Rightarrow> string \<Rightarrow> string \<Rightarrow> ('f val, 'f) run" where
  "cast_initial H v type_name name =
     (case v of
        VInt i \<Rightarrow> cast_type H v ''int'' name
      | VFloat f \<Rightarrow> cast_type H v ''float'' name
      | _ \<Rightarrow> cast_type H v type_name name)"

definition default_value :: "'f host \<Rightarrow> string \<Rightarrow> 'f val" where
  "default_value H type_name =
     (if type_name = ''int'' then VInt 0
      else if type_name = ''float'' then VFloat (float_of_literal H ''0.0'')
      else if type_name = ''str'' then VStr []
      else VNone)"

definition visit_var_def ::
  "'f host \<Rightarrow> (expr \<Rightarrow> ('f val, 'f) run) \<Rightarrow> type_name \<Rightarrow> string \<Rightarrow> expr option \<Rightarrow> (unit, 'f) run" where
  "visit_var_def H ve type_node var_name init s =
     (let type_name = type_name_text type_node in
      if type_name \<notin> set [''int'', ''float'', ''str''] then
        (Done (), add_error (''Invalid type name: '' @ quoted type_name) s)
      else if var_name \<in> set (error_vars_list s) then (Done (), s)
      else if is_defined (envs s) (env s) var_name then
        (Done (), poison var_name (add_error (''Variable '' @ quoted var_name @ '' is already defined'') s))
      else
        (case init of
           Some value_node \<Rightarrow>
             and_then (visit (ve value_node)) (\<lambda>v.
               and_then (cast_initial H v type_name var_name) (\<lambda>casted_value s2.
                 if casted_value \<noteq> VNone then
                   (Done (),
                    s2\<lparr>envs := define_var (envs s2) (env s2) var_name casted_value,
                       assigned_vars := insert var_name (assigned_vars s2),
                       defined_vars := insert var_name (defined_vars s2)\<rparr>)
                 else (Done (), s2))) s
         | None \<Rightarrow>
             (Done (),
              s\<lparr>envs := define_var (envs s) (env s) var_name (default_value H type_name),
                defined_vars := insert var_name (defined_vars s)\<rparr>)))"

definition visit_const_def ::
  "'f host \<Rightarrow> (expr \<Rightarrow> ('f val, 'f) run) \<Rightarrow> type_name \<Rightarrow> string \<Rightarrow> expr \<Rightarrow> (unit, 'f) run" where
  "visit_const_def H ve type_node const_name value_node s =
     (let type_name = type_name_text type_node in
      if type_name \<notin> set [''int'', ''float'', ''str''] then
        (Done (), add_error (''Invalid type name: '' @ quoted type_name) s)
      else if const_name \<in> set (error_vars_list s) then (Done (), s)
      else if is_defined (envs s) (env s) const_name then
        (Done (), poison const_name (add_error (''Constant '' @ quoted const_name @ '' is already defined'') s))
      else
        and_then (visit (ve value_node)) (\<lambda>v.
          and_then (cast_initial H v type_name const_name) (\<lambda>casted_value s2.
            if casted_value \<noteq> VNone then
              (Done (),
               s2\<lparr>envs := define_const (envs s2) (env s2) const_name casted_value,
                  assigned_vars := insert const_name (assigned_vars s2),
                  defined_vars := insert const_name (defined_vars s2)\<rparr>)
            else (Done (), s2))) s)"

definition visit_list_def ::
  "(expr \<Rightarrow> ('f val, 'f) run) \<Rightarrow> string \<Rightarrow> expr list \<Rightarrow> (unit, 'f) run" where
  "visit_list_def ve list_name elems s =
     (if list_name \<in> set (error_vars_list s) then (Done (), s)
      else if is_defined (envs s) (env s) list_name then
        (Done (), poison list_name (add_error (''List '' @ quoted list_name @ '' is already defined'') s))
      else
        and_then (visit (visit_list_literal ve elems)) (\<lambda>list_value s1.
          (Done (),
           s1\<lparr>envs := define_var (envs s1) (env s1) list_name list_value,
              defined_vars := insert list_name (defined_vars s1),
              assigned_vars := insert list_name (assigned_vars s1)\<rparr>)) s)"

text \<open>
  \<^verbatim>\<open>visit_assignment\<close> after it has evaluated the right-hand side to \<open>v\<close> (lines 1008 to
  1039). \<^verbatim>\<open>actual_type\<close> is the type name of the value now stored.
\<close>

definition assign_value :: "'f host \<Rightarrow> string \<Rightarrow> 'f val \<Rightarrow> (unit, 'f) run" where
  "assign_value H var_name v s =
     (if var_name \<in> set (error_vars_list s) then (Done (), s)
      else if \<not> is_defined (envs s) (env s) var_name then
        (Done (),
         s\<lparr>envs := define_var (envs s) (env s) var_name v,
           defined_vars := insert var_name (defined_vars s),
           assigned_vars := insert var_name (assigned_vars s)\<rparr>)
      else if is_constant (envs s) (env s) var_name then
        (Done (), add_error (''Cannot assign values to constants afterward: '' @ quoted var_name) s)
      else
        (case get_value (envs s) (env s) var_name of
           Inl e \<Rightarrow> (Raised e, s)
         | Inr current_value \<Rightarrow>
             if current_value = VNone then
               (Done (), add_error (''Variable '' @ quoted var_name @ '' has no value'') s)
             else
               and_then (cast_type H v (type_name_of current_value) var_name) (\<lambda>new_value s1.
                 if new_value \<noteq> VNone then
                   (case set_value (envs s1) (env s1) var_name new_value of
                      Inl e \<Rightarrow> (Raised e, s1)
                    | Inr E \<Rightarrow>
                        (Done (), s1\<lparr>envs := E, assigned_vars := insert var_name (assigned_vars s1)\<rparr>))
                 else (Done (), s1)) s))"

definition visit_assignment ::
  "'f host \<Rightarrow> (expr \<Rightarrow> ('f val, 'f) run) \<Rightarrow> string \<Rightarrow> expr \<Rightarrow> (unit, 'f) run" where
  "visit_assignment H ve var_name value_node =
     and_then (visit (ve value_node)) (\<lambda>v. assign_value H var_name v)"

definition visit_cause_stmt ::
  "(conditions \<Rightarrow> (bool, 'f) run) \<Rightarrow> (statement list \<Rightarrow> (unit, 'f) run)
     \<Rightarrow> conditions \<Rightarrow> statement list \<Rightarrow> statement list option \<Rightarrow> (unit, 'f) run" where
  "visit_cause_stmt vcs vb conditions_node if_block or_block =
     and_then (visit (vcs conditions_node)) (\<lambda>conditions_result.
       if conditions_result then vb if_block
       else (case or_block of Some b \<Rightarrow> vb b | None \<Rightarrow> (\<lambda>s. (Done (), s))))"

text \<open>\<^verbatim>\<open>visit_member_access\<close>, for the receiver of an output statement.\<close>

definition visit_member_access :: "'f host \<Rightarrow> string \<Rightarrow> string \<Rightarrow> (string, 'f) run" where
  "visit_member_access H obj_name attr_name s =
     (if \<not> is_defined (envs s) (env s) obj_name then
        (Done [], add_error (''Object '' @ quoted obj_name @ '' is not defined'') s)
      else
        (case get_value (envs s) (env s) obj_name of
           Inl e \<Rightarrow> (Raised e, s)
         | Inr obj \<Rightarrow>
             (case py_contains H attr_name obj of
                Inl e \<Rightarrow> (Raised e, s)
              | Inr False \<Rightarrow>
                  (Done [],
                   add_error (''Object '' @ quoted obj_name @ '' has no member '' @ quoted attr_name) s)
              | Inr True \<Rightarrow> (Done (obj_name @ ''.'' @ attr_name), s))))"

text \<open>The loop over the arguments of an output statement; \<open>False\<close> is its early \<^verbatim>\<open>return\<close>.\<close>

fun output_args :: "(expr \<Rightarrow> ('f val, 'f) run) \<Rightarrow> nat \<Rightarrow> expr list \<Rightarrow> (bool, 'f) run" where
  "output_args ve i [] s = (Done True, s)"
| "output_args ve i (arg # rest) s =
     (case visit (ve arg) s of
        (Done arg_value, s1) \<Rightarrow>
          if arg_value = VNone then
            (Done False,
             add_error (''Invalid argument at position '' @ str_of_nat (Suc i) @ '' in output function'') s1)
          else output_args ve (Suc i) rest s1
      | (Raised e, s1) \<Rightarrow> (Raised e, s1)
      | (OutOfFuel, s1) \<Rightarrow> (OutOfFuel, s1))"

definition visit_output_stmt ::
  "'f host \<Rightarrow> (expr \<Rightarrow> ('f val, 'f) run) \<Rightarrow> string \<Rightarrow> string \<Rightarrow> expr list \<Rightarrow> (unit, 'f) run" where
  "visit_output_stmt H ve obj_name attr_name args =
     and_then (visit (visit_member_access H obj_name attr_name)) (\<lambda>full_func_name s.
       if full_func_name = [] \<or> CHR ''.'' \<notin> set full_func_name then
         (Done (), add_error (''Invalid member access: '' @ full_func_name) s)
       else if full_func_name \<notin> set [''out.Info'', ''out.Warn'', ''out.Error''] then
         (Done (), add_error (''Invalid output function: '' @ full_func_name) s)
       else
         and_then (output_args ve 0 args) (\<lambda>complete s1.
           (Done (), if complete then s1\<lparr>has_output := True\<rparr> else s1)) s)"

text \<open>The truth value Python gives the optional index name (\<^verbatim>\<open>if repeat_var\<close>).\<close>

definition truthy :: "string option \<Rightarrow> bool" where
  "truthy x = (case x of Some n \<Rightarrow> n \<noteq> [] | None \<Rightarrow> False)"

text \<open>Lines 1082 and 1083: the index name, when there is one, is bound to \<open>i + 1\<close>.\<close>

definition bind_repeat_var :: "string option \<Rightarrow> nat \<Rightarrow> 'f state \<Rightarrow> 'f state" where
  "bind_repeat_var repeat_var i s =
     (if truthy repeat_var
      then s\<lparr>envs := define_var (envs s) (env s) (the repeat_var) (VInt (int i + 1))\<rparr>
      else s)"

text \<open>
  The \<^verbatim>\<open>for i in range(int(times))\<close> loop of \<^verbatim>\<open>visit_again_stmt\<close>: \<open>i\<close> is the loop
  variable and \<open>k\<close> the number of iterations still in the range.
\<close>

fun again_loop ::
  "(statement list \<Rightarrow> (unit, 'f) run) \<Rightarrow> string option \<Rightarrow> statement list \<Rightarrow> nat \<Rightarrow> nat
     \<Rightarrow> (unit, 'f) run" where
  "again_loop vb repeat_var block_node i 0 s = (Done (), s)"
| "again_loop vb repeat_var block_node i (Suc k) s =
     (if should_break s then (Done (), s)
      else
        (case vb block_node (bind_repeat_var repeat_var i s) of
           (Done u, s2) \<Rightarrow>
             if should_break s2 then (Done (), s2)
             else again_loop vb repeat_var block_node (Suc i) k s2
         | (Raised e, s2) \<Rightarrow> (Raised e, s2)
         | (OutOfFuel, s2) \<Rightarrow> (OutOfFuel, s2)))"

fun is_negative :: "'f host \<Rightarrow> 'f val \<Rightarrow> bool" where
  "is_negative H (VInt n) = (n < 0)"
| "is_negative H (VFloat f) = float_lt_int H f 0"
| "is_negative H _ = False"

text \<open>\<^verbatim>\<open>int(times)\<close> for a number; \<open>None\<close> is the exception for an infinity or a NaN.\<close>

fun int_of_number :: "'f host \<Rightarrow> 'f val \<Rightarrow> int option" where
  "int_of_number H (VInt n) = Some n"
| "int_of_number H (VFloat f) = int_of_float H f"
| "int_of_number H _ = None"

text \<open>Lines 1092 and 1093: the index name is popped from the current environment's variables.\<close>

definition pop_repeat_var :: "string option \<Rightarrow> 'f state \<Rightarrow> 'f state" where
  "pop_repeat_var repeat_var s =
     (if truthy repeat_var \<and> is_defined (envs s) (env s) (the repeat_var) then
        s\<lparr>envs := (envs s)(env s := (envs s (env s))
             \<lparr>variables := (variables (envs s (env s)))(the repeat_var := None)\<rparr>)\<rparr>
      else s)"

definition visit_again_stmt ::
  "'f host \<Rightarrow> (expr \<Rightarrow> ('f val, 'f) run) \<Rightarrow> (statement list \<Rightarrow> (unit, 'f) run)
     \<Rightarrow> expr \<Rightarrow> string option \<Rightarrow> statement list \<Rightarrow> (unit, 'f) run" where
  "visit_again_stmt H ve vb times_expr repeat_var block_node =
     and_then (visit (ve times_expr)) (\<lambda>times s.
       if \<not> is_number times \<or> is_negative H times then
         (Done (), add_error ''Loop times must be a non-negative number'' s)
       else
         (case int_of_number H times of
            None \<Rightarrow> (Raised ''cannot convert float to integer'', s\<lparr>should_break := False\<rparr>)
          | Some n \<Rightarrow>
              (case again_loop vb repeat_var block_node 0 (nat n) (s\<lparr>should_break := False\<rparr>) of
                 (Done u, s1) \<Rightarrow> (Done (), (pop_repeat_var repeat_var s1)\<lparr>should_break := False\<rparr>)
               | (Raised e, s1) \<Rightarrow> (Raised e, s1)
               | (OutOfFuel, s1) \<Rightarrow> (OutOfFuel, s1))))"

definition visit_rep_stop :: "(unit, 'f) run" where
  "visit_rep_stop s = (Done (), s\<lparr>should_break := True\<rparr>)"

text \<open>The type of a parameter is read off the node's \<^verbatim>\<open>data\<close> (lines 271 to 281).\<close>

definition param_type :: "type_name \<Rightarrow> string" where
  "param_type node =
     (case node of Type_name d children \<Rightarrow>
        if d = ''type_int'' then ''int''
        else if d = ''type_float'' then ''float''
        else if d = ''type_str'' then ''str''
        else ''int'')"

definition visit_func_def ::
  "string \<Rightarrow> (type_name \<times> string) list \<Rightarrow> statement list \<Rightarrow> (unit, 'f) run" where
  "visit_func_def func_name params_node block_node s =
     (if func_name \<in> set (error_vars_list s) then (Done (), s)
      else if is_defined (envs s) (env s) func_name then
        (Done (), poison func_name (add_error (''Function '' @ quoted func_name @ '' is already defined'') s))
      else
        (Done (),
         s\<lparr>envs := define_func (envs s) (env s) func_name
                    \<lparr>params = map (\<lambda>(type_node, name). (name, param_type type_node)) params_node,
                     body = block_node, fenv = env s\<rparr>,
           defined_vars := insert func_name (defined_vars s)\<rparr>))"

definition visit_func_call_stmt ::
  "'f host \<Rightarrow> (expr \<Rightarrow> ('f val, 'f) run) \<Rightarrow> (statement list \<Rightarrow> (unit, 'f) run)
     \<Rightarrow> string \<Rightarrow> expr list \<Rightarrow> (unit, 'f) run" where
  "visit_func_call_stmt H ve vb func_name arg_nodes =
     and_then (visit_func_call H ve vb func_name arg_nodes) (\<lambda>v s. (Done (), s))"

definition visit_back_stmt :: "(expr \<Rightarrow> ('f val, 'f) run) \<Rightarrow> expr option \<Rightarrow> (unit, 'f) run" where
  "visit_back_stmt ve node =
     (case node of
        Some expr_node \<Rightarrow>
          and_then (visit (ve expr_node)) (\<lambda>v s. (Done (), s\<lparr>return_value := v, should_return := True\<rparr>))
      | None \<Rightarrow> (\<lambda>s. (Done (), s\<lparr>return_value := VNone, should_return := True\<rparr>)))"

text \<open>\<^verbatim>\<open>visit_statement\<close>: \<^verbatim>\<open>self.visit\<close> of the node's one child.\<close>

definition visit_statement ::
  "'f host \<Rightarrow> (expr \<Rightarrow> ('f val, 'f) run) \<Rightarrow> (statement list \<Rightarrow> (unit, 'f) run)
     \<Rightarrow> statement \<Rightarrow> (unit, 'f) run" where
  "visit_statement H ve vb st =
     visit
       (case st of
          Const_def type_node name value_node \<Rightarrow> visit_const_def H ve type_node name value_node
        | Var_def type_node name init \<Rightarrow> visit_var_def H ve type_node name init
        | List_def name elems \<Rightarrow> visit_list_def ve name elems
        | Assignment name value_node \<Rightarrow> visit_assignment H ve name value_node
        | Cause_stmt c if_block or_block \<Rightarrow>
            visit_cause_stmt (visit_conditions (visit_condition H ve)) vb c if_block or_block
        | Output_stmt obj_name attr_name args \<Rightarrow> visit_output_stmt H ve obj_name attr_name args
        | Again_stmt times_expr repeat_var block_node \<Rightarrow>
            visit_again_stmt H ve vb times_expr repeat_var block_node
        | Rep_stop \<Rightarrow> visit_rep_stop
        | Func_def name params_node block_node \<Rightarrow> visit_func_def name params_node block_node
        | Func_call_stmt name arg_nodes \<Rightarrow> visit_func_call_stmt H ve vb name arg_nodes
        | Back_stmt node \<Rightarrow> visit_back_stmt ve node)"

text \<open>
  \<^verbatim>\<open>visit_block\<close>: before each statement the two flags are looked at, and the loop is left
  when one is set.
\<close>

fun visit_block :: "(statement \<Rightarrow> (unit, 'f) run) \<Rightarrow> statement list \<Rightarrow> (unit, 'f) run" where
  "visit_block vs [] s = (Done (), s)"
| "visit_block vs (stmt # rest) s =
     (if should_return s \<or> should_break s then (Done (), s)
      else
        (case visit (vs stmt) s of
           (Done u, s1) \<Rightarrow> visit_block vs rest s1
         | (Raised e, s1) \<Rightarrow> (Raised e, s1)
         | (OutOfFuel, s1) \<Rightarrow> (OutOfFuel, s1)))"

subsection \<open>The recursion, and the loop of \<^verbatim>\<open>execute\<close>\<close>

text \<open>
  The methods call one another through \<^verbatim>\<open>self.visit\<close>; the first argument bounds the
  depth of these calls (the nesting of the tree, and of function calls).
\<close>

fun eval_expr :: "'f host \<Rightarrow> nat \<Rightarrow> expr \<Rightarrow> ('f val, 'f) run"
and eval_term :: "'f host \<Rightarrow> nat \<Rightarrow> trm \<Rightarrow> ('f val, 'f) run"
and eval_factor :: "'f host \<Rightarrow> nat \<Rightarrow> factor \<Rightarrow> ('f val, 'f) run"
and exec_statement :: "'f host \<Rightarrow> nat \<Rightarrow> statement \<Rightarrow> (unit, 'f) run"
and exec_block :: "'f host \<Rightarrow> nat \<Rightarrow> statement list \<Rightarrow> (unit, 'f) run" where
  "eval_expr H 0 e s = (OutOfFuel, s)"
| "eval_expr H (Suc n) e s = visit_expr H (\<lambda>t. eval_term H n t) e s"
| "eval_term H 0 t s = (OutOfFuel, s)"
| "eval_term H (Suc n) t s = visit_term H (\<lambda>f. eval_factor H n f) t s"
| "eval_factor H 0 f s = (OutOfFuel, s)"
| "eval_factor H (Suc n) f s = visit_factor H (\<lambda>e. eval_expr H n e) (\<lambda>b. exec_block H n b) f s"
| "exec_statement H 0 st s = (OutOfFuel, s)"
| "exec_statement H (Suc n) st s =
     visit_statement H (\<lambda>e. eval_expr H n e) (\<lambda>b. exec_block H n b) st s"
| "exec_block H 0 b s = (OutOfFuel, s)"
| "exec_block H (Suc n) b s = visit_block (\<lambda>st. exec_statement H n st) b s"

text \<open>
  The loop of \<^verbatim>\<open>execute\<close> over the children of \<^verbatim>\<open>start\<close> (lines 96 to 112): \<open>i\<close> is the
  index of the child. An exception of a statement is recorded as an error and the loop
  goes on.
\<close>

fun execute_loop :: "'f host \<Rightarrow> nat \<Rightarrow> nat \<Rightarrow> top_item list \<Rightarrow> (unit, 'f) run" where
  "execute_loop H n i [] s = (Done (), s)"
| "execute_loop H n i (Top_newline # rest) s =
     execute_loop H n (Suc i) rest (s\<lparr>current_line_num := i + 1\<rparr>)"
| "execute_loop H n i (Top_statement line stmt # rest) s =
     (case visit (exec_statement H n stmt)
             (s\<lparr>current_line_num := (case line of Some l \<Rightarrow> l | None \<Rightarrow> i + 1)\<rparr>) of
        (Done u, s1) \<Rightarrow> execute_loop H n (Suc i) rest s1
      | (Raised e, s1) \<Rightarrow>
          execute_loop H n (Suc i) rest (if \<not> has_marker e then add_error e s1 else s1)
      | (OutOfFuel, s1) \<Rightarrow> (OutOfFuel, s1))"

section \<open>A host for the examples\<close>

text \<open>
  The theorems below hold for every host. To run example programs a host is needed; this
  one takes the rationals for the floats, so that its arithmetic is exact. The examples
  work on integers and strings only, where Python computes the same values.
  \<open>parse_decimal\<close> reads a literal of the form \<^verbatim>\<open>digits.digits\<close>; no string converts to a
  float or to an integer other than a string of digits.
\<close>

definition parse_decimal :: "string \<Rightarrow> rat" where
  "parse_decimal s =
     (let neg = starts_with s ''-'';
          digits = (if neg then tl s else s);
          ip = takeWhile (\<lambda>c. c \<noteq> CHR ''.'') digits;
          fp = tl (dropWhile (\<lambda>c. c \<noteq> CHR ''.'') digits);
          q = of_nat (nat_of_digits (ip @ fp)) / of_nat (10 ^ length fp)
      in if neg then - q else q)"

definition ideal_host :: "rat host" where
  "ideal_host =
     \<lparr>float_of_literal = parse_decimal,
      float_of_int = (\<lambda>i. Some (of_int i)),
      float_of_str = (\<lambda>s. None),
      float_is_integer = (\<lambda>q. q = of_int \<lfloor>q\<rfloor>),
      int_of_float = (\<lambda>q. Some (if q < 0 then - \<lfloor>- q\<rfloor> else \<lfloor>q\<rfloor>)),
      float_add = (+), float_sub = (-), float_mul = (*), float_div = (/),
      int_truediv = (\<lambda>a b. Some (of_int a / of_int b)),
      float_eq = (=), float_lt = (<),
      float_eq_int = (\<lambda>q i. q = of_int i),
      float_lt_int = (\<lambda>q i. q < of_int i),
      int_lt_float = (\<lambda>i q. of_int i < q),
      float_str = (\<lambda>q. str_of_int (fst (quotient_of q)) @ ''/'' @ str_of_int (snd (quotient_of q))),
      str_repr = quoted,
      object_str = (\<lambda>v. ''<object>'')\<rparr>"

text \<open>Trees of the simplest expressions: a number, a name, a string literal with its quotes.\<close>

definition num_lit :: "string \<Rightarrow> expr" where
  "num_lit n = Expr (Trm (NUMBER n) []) []"

definition name_ref :: "string \<Rightarrow> expr" where
  "name_ref n = Expr (Trm (IDENT n) []) []"

definition text_lit :: "string \<Rightarrow> expr" where
  "text_lit n = Expr (Trm (STRING ([CHR 0x22] @ n @ [CHR 0x22])) []) []"

text \<open>The type node the parser builds for \<^verbatim>\<open>int\<close>: the keyword is filtered out of its children.\<close>

definition int_type :: type_name where
  "int_type = Type_name ''type_int'' []"

text \<open>
  A run of the loop of \<^verbatim>\<open>execute\<close> on a list of statements from the state of a fresh
  checker, with depth bound \<open>n\<close>; and the bindings of the global environment afterwards.
  (Before its loop \<^verbatim>\<open>execute\<close> collects the names the program defines into
  \<^verbatim>\<open>defined_vars\<close>, and after it \<^verbatim>\<open>check_unused_vars\<close> prints warnings; both only matter to
  warnings, which are not modelled.)
\<close>

definition run_program :: "nat \<Rightarrow> statement list \<Rightarrow> rat state" where
  "run_program n stmts =
     snd (execute_loop ideal_host n 0 (map (Top_statement None) stmts) (initial_state []))"

definition var_of :: "rat state \<Rightarrow> string \<Rightarrow> rat val option" where
  "var_of s x = variables (envs s 0) x"

definition const_of :: "rat state \<Rightarrow> string \<Rightarrow> rat val option" where
  "const_of s x = constants (envs s 0) x"

section \<open>Example programs, and notions used in the statements\<close>

text \<open>\<^verbatim>\<open>now.repeat\<close>, read in a loop whose index is named \<^verbatim>\<open>i\<close>, and read outside any loop.\<close>

definition now_repeat :: expr where
  "now_repeat = Expr (Trm (Member_access_expr ''now'' ''repeat'') []) []"

definition now_repeat_prog :: "statement list" where
  "now_repeat_prog = [Again_stmt (num_lit ''1'') (Some ''i'') [Assignment ''x'' now_repeat]]"

definition now_repeat_outside_prog :: "statement list" where
  "now_repeat_outside_prog = [Assignment ''repeat'' (text_lit ''hello''), Assignment ''x'' now_repeat]"

text \<open>\<^verbatim>\<open>1 + 5 / 0\<close>, and the two statements \<^verbatim>\<open>x -> 5 / 0\<close>, \<^verbatim>\<open>y -> 1\<close>.\<close>

definition sum_with_division :: expr where
  "sum_with_division = Expr (Trm (NUMBER ''1'') []) [(''+'', Trm (NUMBER ''5'') [(''/'', NUMBER ''0'')])]"

definition division_then_assignment :: "statement list" where
  "division_then_assignment =
     [Assignment ''x'' (Expr (Trm (NUMBER ''5'') [(''/'', NUMBER ''0'')]) []),
      Assignment ''y'' (num_lit ''1'')]"

text \<open>The float a number stands for in mixed arithmetic.\<close>

fun as_float :: "'f host \<Rightarrow> 'f val \<Rightarrow> 'f option" where
  "as_float H (VInt i) = float_of_int H i"
| "as_float H (VFloat f) = Some f"
| "as_float H _ = None"

text \<open>\<^verbatim>\<open>"ab" * 3\<close>.\<close>

definition text_times_int :: trm where
  "text_times_int = Trm (STRING ([CHR 0x22] @ ''ab'' @ [CHR 0x22])) [(''*'', NUMBER ''3'')]"

text \<open>\<^verbatim>\<open>i -> 5\<close> followed by \<^verbatim>\<open>Again(0, i) [ ]\<close>.\<close>

definition zero_loop_prog :: "statement list" where
  "zero_loop_prog = [Assignment ''i'' (num_lit ''5''), Again_stmt (num_lit ''0'') (Some ''i'') []]"

text \<open>
  The result the specification gives a group of conditions: the strict left fold of the
  results \<open>(operator, result)\<close> of the conditions after the first, from the result of the
  first, which stops once an \<^verbatim>\<open>and\<close> is false or an \<^verbatim>\<open>or\<close> is true.
\<close>

fun spec_fold :: "bool \<Rightarrow> (string \<times> bool) list \<Rightarrow> bool" where
  "spec_fold running [] = running"
| "spec_fold running ((opr, result) # rest) =
     (if opr = ''and'' then (if running \<and> result then spec_fold True rest else False)
      else (if running \<or> result then True else spec_fold False rest))"

text \<open>\<^verbatim>\<open>1 ? 2 and y ? 1\<close> and \<^verbatim>\<open>1 ? 2 and 1 ? 1\<close>, as the parser builds them.\<close>

definition false_and_undefined :: conditions where
  "false_and_undefined =
     Conditions (Condition (num_lit ''1'') ''?'' (num_lit ''2''))
       [(Logic_op [], Condition (name_ref ''y'') ''?'' (num_lit ''1''))]"

definition false_and_true :: conditions where
  "false_and_true =
     Conditions (Condition (num_lit ''1'') ''?'' (num_lit ''2''))
       [(Logic_op [], Condition (num_lit ''1'') ''?'' (num_lit ''1''))]"

text \<open>
  A name resolves to a variable when the walk of \<^verbatim>\<open>get_value\<close> and \<^verbatim>\<open>set_value\<close> up the
  chain of environments meets it among the variables of an environment before it meets
  a constant or a function of that name.
\<close>

function resolves_to_var :: "'f store \<Rightarrow> nat \<Rightarrow> string \<Rightarrow> bool" where
  "resolves_to_var E i name =
     (if constants (E i) name \<noteq> None then False
      else if variables (E i) name \<noteq> None then True
      else if funcs (E i) name \<noteq> None then False
      else (case parent (E i) of None \<Rightarrow> False
            | Some p \<Rightarrow> if p < i then resolves_to_var E p name else False))"
  by pat_completeness auto
termination
  by (relation "measure (\<lambda>(E, i, name). i)") auto

declare resolves_to_var.simps [simp del]

text \<open>\<^verbatim>\<open>x -> 5\<close>, \<^verbatim>\<open>x -> "abc"\<close>, \<^verbatim>\<open>x -> 7\<close>.\<close>

definition poisoned_assignment_prog :: "statement list" where
  "poisoned_assignment_prog =
     [Assignment ''x'' (num_lit ''5''), Assignment ''x'' (text_lit ''abc''), Assignment ''x'' (num_lit ''7'')]"

text \<open>A constant \<^verbatim>\<open>c\<close> of value 5, a definition of a variable \<^verbatim>\<open>c\<close>, and \<^verbatim>\<open>c -> 7\<close>.\<close>

definition poisoned_constant_prog :: "statement list" where
  "poisoned_constant_prog =
     [Const_def int_type ''c'' (num_lit ''5''), Var_def int_type ''c'' (Some (num_lit ''6'')),
      Assignment ''c'' (num_lit ''7'')]"

text \<open>
  Invariants of a run. \<open>keeps P m\<close>: the step \<open>m\<close> ends in a state where \<open>P\<close> holds
  whenever it starts in one, whatever its outcome. \<open>stable P\<close>: \<open>P\<close> does not look at the
  fields that only record names, bindings, output, the line and \<^verbatim>\<open>should_break\<close>; it
  survives a recorded error, a poisoned name and a \<^verbatim>\<open>back.value\<close>; and a function call
  keeps it when the statements of its body do.
\<close>

definition keeps :: "('f state \<Rightarrow> bool) \<Rightarrow> ('a, 'f) run \<Rightarrow> bool" where
  "keeps P m = (\<forall>s. P s \<longrightarrow> P (snd (m s)))"

definition stable :: "('f state \<Rightarrow> bool) \<Rightarrow> bool" where
  "stable P =
     ((\<forall>s X. P (s\<lparr>used_variables := X\<rparr>) = P s)
    \<and> (\<forall>s X. P (s\<lparr>defined_vars := X\<rparr>) = P s)
    \<and> (\<forall>s X. P (s\<lparr>assigned_vars := X\<rparr>) = P s)
    \<and> (\<forall>s X. P (s\<lparr>warned_vars := X\<rparr>) = P s)
    \<and> (\<forall>s X. P (s\<lparr>envs := X\<rparr>) = P s)
    \<and> (\<forall>s X. P (s\<lparr>has_output := X\<rparr>) = P s)
    \<and> (\<forall>s X. P (s\<lparr>current_line_num := X\<rparr>) = P s)
    \<and> (\<forall>s X. P (s\<lparr>should_break := X\<rparr>) = P s)
    \<and> (\<forall>s m. P s \<longrightarrow> P (add_error m s))
    \<and> (\<forall>s x. P s \<longrightarrow> P (poison x s))
    \<and> (\<forall>s v. P s \<longrightarrow> P (s\<lparr>return_value := v, should_return := True\<rparr>))
    \<and> (\<forall>vb fi bs. (\<forall>b. keeps P (vb b :: (unit, 'f) run)) \<longrightarrow> keeps P (call_body vb fi bs)))"

text \<open>
  \<^verbatim>\<open>back.value\<close>, then a \<^verbatim>\<open>Cause\<close> whose condition \<^verbatim>\<open>1 ? 1\<close> holds and whose block assigns
  \<^verbatim>\<open>x\<close>, then an assignment to \<^verbatim>\<open>y\<close>. The second program defines a function \<^verbatim>\<open>f\<close> whose body
  assigns \<^verbatim>\<open>z\<close>, and calls it after the \<^verbatim>\<open>back.value\<close>.
\<close>

definition return_then_block :: "statement list" where
  "return_then_block =
     [Back_stmt None,
      Cause_stmt (Conditions (Condition (num_lit ''1'') ''?'' (num_lit ''1'')) [])
        [Assignment ''x'' (num_lit ''1'')] None,
      Assignment ''y'' (num_lit ''2'')]"

definition return_then_call :: "statement list" where
  "return_then_call =
     [Func_def ''f'' [] [Assignment ''z'' (num_lit ''3'')],
      Back_stmt None,
      Func_call_stmt ''f'' []]"



text \<open>
  The children of \<^verbatim>\<open>start\<close> as the parser builds them from a source text: the statements
  with a NEWLINE token between one and the next, and no line information on the nodes.
  \<open>run_source\<close> is the loop of \<^verbatim>\<open>execute\<close> on these children, from the state of a fresh
  checker.
\<close>

fun separated :: "statement list \<Rightarrow> top_item list" where
  "separated [] = []"
| "separated [st] = [Top_statement None st]"
| "separated (st # rest) = Top_statement None st # Top_newline # separated rest"

definition run_source :: "nat \<Rightarrow> statement list \<Rightarrow> rat state" where
  "run_source n stmts = snd (execute_loop ideal_host n 0 (separated stmts) (initial_state []))"

section \<open>Python's operators by operand kind\<close>

lemma py_sub_non_numeric:
  "\<not> (is_number l \<and> is_number r) \<Longrightarrow> py_sub H l r = Inl (unsupported ''-'' l r)"
  by (cases l; cases r) auto

lemma py_truediv_non_numeric:
  "\<not> (is_number l \<and> is_number r) \<Longrightarrow> py_truediv H l r = Inl (unsupported ''/'' l r)"
  by (cases l; cases r) auto

lemma py_add_numbers:
  "is_number l \<Longrightarrow> is_number r \<Longrightarrow>
     py_add H l r =
       (case (l, r) of
          (VInt a, VInt b) \<Rightarrow> Inr (VInt (a + b))
        | _ \<Rightarrow> float_op H (float_add H) (as_float H l) (as_float H r))"
  by (cases l; cases r) (auto simp: float_op_def)

section \<open>The fold of a group of conditions\<close>

lemma visit_logic_op_parser: "visit_logic_op (Logic_op []) s = ''and'' \<or> visit_logic_op (Logic_op []) s = ''or''"
  by (simp add: visit_logic_op_def Let_def)

lemma visit_children_ops:
  "visit_children vc rest s0 = (Done xs, s1) \<Longrightarrow> list_all (\<lambda>(node, c). node = Logic_op []) rest
     \<Longrightarrow> list_all (\<lambda>(opr, r). opr = ''and'' \<or> opr = ''or'') xs \<and> length xs = length rest"
proof (induction rest arbitrary: s0 xs)
  case Nil
  then show ?case by simp
next
  case (Cons a rest)
  obtain node c where a: "a = (node, c)" by (cases a)
  from Cons.prems(2) a have node: "node = Logic_op []" and tl: "list_all (\<lambda>(node, c). node = Logic_op []) rest"
    by simp_all
  from Cons.prems(1) a obtain result sa ys where
    h: "visit (vc c) s0 = (Done result, sa)" and r: "visit_children vc rest sa = (Done ys, s1)"
    and xs: "xs = (visit_logic_op node s0, result) # ys"
    by (auto simp: Let_def split: prod.splits outcome.splits)
  from Cons.IH [OF r tl] xs node visit_logic_op_parser [of s0] show ?case by auto
qed

lemma logic_loop_spec:
  "list_all (\<lambda>(opr, r). opr = ''and'' \<or> opr = ''or'') xs \<Longrightarrow> logic_loop b xs s = (Done (spec_fold b xs), s)"
proof (induction xs arbitrary: b)
  case Nil
  then show ?case by simp
next
  case (Cons a xs)
  obtain opr r where a: "a = (opr, r)" by (cases a)
  with Cons.prems have o: "opr = ''and'' \<or> opr = ''or''"
    and tl: "list_all (\<lambda>(opr, r). opr = ''and'' \<or> opr = ''or'') xs" by simp_all
  from Cons.IH [OF tl] a o show ?case by auto
qed

section \<open>Blocks\<close>

lemma visit_block_skipped:
  "should_return s \<or> should_break s \<Longrightarrow> visit_block vs b s = (Done (), s)"
  by (cases b) auto

lemma visit_block_append:
  "visit_block vs (a @ b) s =
     (case visit_block vs a s of (Done u, s1) \<Rightarrow> visit_block vs b s1 | r \<Rightarrow> r)"
proof (induction a arbitrary: s)
  case Nil
  then show ?case by simp
next
  case (Cons x a)
  show ?case
  proof (cases "should_return s \<or> should_break s")
    case True
    then show ?thesis using visit_block_skipped [of s vs b] by auto
  next
    case False
    then show ?thesis using Cons.IH by (auto split: prod.splits outcome.splits)
  qed
qed

lemma exec_rep_stop: "visit (exec_statement H (Suc n) Rep_stop) s = (Done (), s\<lparr>should_break := True\<rparr>)"
  by (simp add: visit_statement_def visit_def visit_rep_stop_def)

section \<open>Environments and casts\<close>

lemma resolves_is_defined: "resolves_to_var E i x \<Longrightarrow> is_defined E i x"
proof (induction E i x rule: resolves_to_var.induct)
  case (1 E i name)
  from "1.prems" "1.IH" show ?case
    by (subst is_defined.simps, subst (asm) resolves_to_var.simps)
       (auto split: if_splits option.splits)
qed

lemma resolves_not_constant: "resolves_to_var E i x \<Longrightarrow> \<not> is_constant E i x"
  by (subst (asm) resolves_to_var.simps) (auto simp: is_constant_def split: if_splits)

lemma set_value_constants:
  "set_value E i x w = Inr E' \<Longrightarrow> constants (E' j) = constants (E j)"
proof (induction E i x w rule: set_value.induct)
  case (1 E i name v)
  from "1.prems" "1.IH" show ?case
    by (subst (asm) set_value.simps)
       (auto simp: define_var_def split: if_splits option.splits)
qed

lemma set_value_of_constant: "is_constant E i c \<Longrightarrow> set_value E i c w = Inl (''Cannot modify constant: '' @ c)"
  by (subst set_value.simps) (simp add: is_constant_def)

lemma is_constant_is_defined: "is_constant E i c \<Longrightarrow> is_defined E i c"
  by (subst is_defined.simps) (simp add: is_constant_def)

lemma envs_add_error [simp]: "envs (add_error m s) = envs s"
  by (simp add: add_error_def)

lemma envs_poison [simp]: "envs (poison x s) = envs s"
  by (simp add: poison_def)

lemma env_add_error [simp]: "env (add_error m s) = env s"
  by (simp add: add_error_def)

lemma env_poison [simp]: "env (poison x s) = env s"
  by (simp add: poison_def)

lemma cast_type_frame: "envs (snd (cast_type H v T x s)) = envs s \<and> env (snd (cast_type H v T x s)) = env s"
  by (auto simp: cast_type_def cast_fail_def Let_def split: val.splits option.splits)

lemma set_value_resolves:
  "resolves_to_var E i x \<Longrightarrow>
     \<exists>E'. set_value E i x c = Inr E' \<and> get_value E' i x = Inr c"
proof (induction E i x rule: resolves_to_var.induct)
  case (1 E i name)
  show ?case
  proof (cases "variables (E i) name")
    case (Some a)
    with "1.prems" show ?thesis
      by (subst set_value.simps, subst get_value.simps, subst (asm) resolves_to_var.simps)
         (auto simp: define_var_def split: if_splits)
  next
    case None
    with "1.prems" obtain p where p: "parent (E i) = Some p" "p < i" "resolves_to_var E p name"
      and c: "constants (E i) name = None" and f: "funcs (E i) name = None"
      by (subst (asm) resolves_to_var.simps) (auto split: if_splits option.splits)
    from "1.IH" [OF _ _ _ p(1) p(2)] c None f p(3)
    obtain E' where E': "set_value E p name c = Inr E'" "get_value E' p name = Inr c" by auto
    have unchanged: "E' i = E i"
      using E'(1) p(2)
    proof (induction E p name c arbitrary: E' rule: set_value.induct)
      case (1 E j name v)
      from "1.prems" "1.IH" show ?case
        by (subst (asm) set_value.simps)
           (auto simp: define_var_def split: if_splits option.splits)
    qed
    from resolves_is_defined [OF p(3)] have d: "is_defined E p name" .
    have s: "set_value E i name c = Inr E'"
      using c None p d E'(1) by (subst set_value.simps) simp
    have g: "get_value E' i name = Inr c"
      using c None f p unchanged E'(2) by (subst get_value.simps) simp
    from s g show ?thesis by blast
  qed
qed

lemma cast_type_done:
  assumes "cast_type H v T x s = (Done c, s1)" and "c \<noteq> VNone"
  shows "s1 = s \<and> type_name_of c = T"
  using assms
  by (auto simp: cast_type_def cast_fail_def Let_def split: if_splits val.splits option.splits)

lemma cast_type_failed:
  assumes "cast_type H v T x s = (Done VNone, s1)" and "x \<noteq> []" and "x \<notin> set (error_vars_list s)"
  shows "\<exists>m. s1 = poison x (add_error m s)"
  using assms
  by (auto simp: cast_type_def cast_fail_def Let_def split: if_splits val.splits option.splits)

lemma cast_type_raised:
  assumes "cast_type H v T x s = (Raised e, s1)"
  shows "s1 = s"
  using assms
  by (auto simp: cast_type_def cast_fail_def Let_def split: if_splits val.splits option.splits)

lemma cast_type_fuel: "cast_type H v T x s \<noteq> (OutOfFuel, s1)"
  by (auto simp: cast_type_def cast_fail_def Let_def split: if_splits val.splits option.splits)

lemma assign_value_constants:
  assumes "assign_value H x v s = (r, s')"
  shows "constants (envs s' j) = constants (envs s j)"
proof -
  have ct: "envs s1 = envs s" if "cast_type H v T x s = (rc, s1)" for T rc s1
    using cast_type_frame [of H v T x s] that by simp
  from assms show ?thesis
    by (auto simp: assign_value_def and_then_def add_error_def define_var_def
             dest!: ct set_value_constants [where j = j]
             split: if_splits sum.splits prod.splits outcome.splits)
qed

section \<open>Invariants of a run\<close>

lemma stable_fields:
  assumes "stable P"
  shows "P (s\<lparr>used_variables := X1\<rparr>) = P s" and "P (s\<lparr>defined_vars := X2\<rparr>) = P s"
    and "P (s\<lparr>assigned_vars := X3\<rparr>) = P s" and "P (s\<lparr>warned_vars := X4\<rparr>) = P s"
    and "P (s\<lparr>envs := X5\<rparr>) = P s" and "P (s\<lparr>has_output := X6\<rparr>) = P s"
    and "P (s\<lparr>current_line_num := X7\<rparr>) = P s" and "P (s\<lparr>should_break := X8\<rparr>) = P s"
  using assms unfolding stable_def by simp_all

lemma stable_steps:
  assumes "stable P"
  shows "P s \<Longrightarrow> P (add_error m s)" and "P s \<Longrightarrow> P (poison x s)"
    and "P s \<Longrightarrow> P (s\<lparr>return_value := v, should_return := True\<rparr>)"
  using assms unfolding stable_def by simp_all

lemma stable_call:
  assumes "stable P" and "\<And>b. keeps P (vb b :: (unit, 'f) run)"
  shows "keeps P (call_body vb fi bs)"
  using assms unfolding stable_def by simp

lemma keepsI: "(\<And>s. P s \<Longrightarrow> P (snd (m s))) \<Longrightarrow> keeps P m"
  by (simp add: keeps_def)

lemma krD: "keeps P m \<Longrightarrow> m s = (r, s1) \<Longrightarrow> P s \<Longrightarrow> P s1"
  by (auto simp: keeps_def dest: spec [of _ s])

lemma keepsD: "keeps P m \<Longrightarrow> P s \<Longrightarrow> P (snd (m s))"
  by (simp add: keeps_def)

lemma keeps_visit: "keeps P m \<Longrightarrow> keeps P (visit m)"
  unfolding keeps_def visit_def
  by (auto split: prod.splits outcome.splits)

lemma keeps_cast_type:
  assumes st: "stable P"
  shows "keeps P (cast_type H v T x)"
proof -
  note [simp] = stable_fields [OF st] stable_steps [OF st]
  show ?thesis
    unfolding keeps_def cast_type_def cast_fail_def
    by (auto simp: Let_def split: val.splits option.splits)
qed

lemma keeps_cast_args:
  assumes st: "stable P"
  shows "keeps P (cast_args H fn ps i xs)"
proof (induction xs arbitrary: i)
  case Nil
  show ?case by (simp add: keeps_def)
next
  case (Cons a xs)
  note [simp] = stable_fields [OF st] stable_steps [OF st]
  note ct = krD [OF keeps_cast_type [OF st]] and ih = krD [OF Cons.IH]
  obtain p v where a: "a = (p, v)" by (cases a)
  show ?case
    unfolding keeps_def a
    by (auto split: option.splits prod.splits outcome.splits dest: ct ih)
qed

lemma keeps_visit_all:
  assumes "\<And>e. keeps P (ve e)"
  shows "keeps P (visit_all ve es)"
proof (induction es)
  case Nil
  show ?case by (simp add: keeps_def)
next
  case (Cons e es)
  note v = krD [OF keeps_visit [OF assms]] and ih = krD [OF Cons.IH]
  show ?case
    unfolding keeps_def
    by (auto split: prod.splits outcome.splits dest: v ih)
qed

lemma keeps_visit_func_call:
  assumes st: "stable P" and ve: "\<And>e. keeps P (ve e)" and vb: "\<And>b. keeps P (vb b)"
  shows "keeps P (visit_func_call H ve vb fn es)"
proof -
  note [simp] = stable_fields [OF st] stable_steps [OF st]
  note va = krD [OF keeps_visit_all [of P ve, OF ve]] and ca = krD [OF keeps_cast_args [OF st]]
   and cb = keepsD [OF stable_call [OF st vb]]
  show ?thesis
    unfolding keeps_def visit_func_call_def and_then_def
    by (auto simp: Let_def split: option.splits prod.splits outcome.splits dest: va ca intro!: cb)
qed

lemma keeps_visit_IDENT:
  assumes st: "stable P"
  shows "keeps P (visit_IDENT x)"
proof -
  note [simp] = stable_fields [OF st] stable_steps [OF st]
  show ?thesis
    unfolding keeps_def visit_IDENT_def
    by (auto simp: Let_def split: sum.splits)
qed

lemma keeps_visit_member_access_expr:
  assumes st: "stable P"
  shows "keeps P (visit_member_access_expr H x a)"
proof -
  note [simp] = stable_fields [OF st] stable_steps [OF st]
  show ?thesis
    unfolding keeps_def visit_member_access_expr_def
    by (auto simp: Let_def split: sum.splits bool.splits)
qed

lemma keeps_visit_list_access:
  assumes st: "stable P" and ve: "\<And>e. keeps P (ve e)"
  shows "keeps P (visit_list_access ve x e)"
proof -
  note [simp] = stable_fields [OF st] stable_steps [OF st]
  note v = krD [OF keeps_visit [OF ve]]
  show ?thesis
    unfolding keeps_def visit_list_access_def and_then_def
    by (auto simp: Let_def split: sum.splits prod.splits outcome.splits val.splits dest: v)
qed

lemma keeps_visit_NUMBER: "keeps P (visit_NUMBER H x)"
  unfolding keeps_def visit_NUMBER_def by (auto split: option.splits)

lemma keeps_visit_STRING: "keeps P (visit_STRING x)"
  unfolding keeps_def visit_STRING_def by auto

lemma keeps_visit_list_literal:
  assumes "\<And>e. keeps P (ve e)"
  shows "keeps P (visit_list_literal ve es)"
proof -
  note va = krD [OF keeps_visit_all [of P ve, OF assms]]
  show ?thesis
    unfolding keeps_def visit_list_literal_def and_then_def
    by (auto split: prod.splits outcome.splits dest: va)
qed

lemma keeps_visit_factor:
  assumes st: "stable P" and ve: "\<And>e. keeps P (ve e)" and vb: "\<And>b. keeps P (vb b)"
  shows "keeps P (visit_factor H ve vb f)"
  by (cases f)
     (simp_all add: visit_factor_def keeps_visit keeps_visit_NUMBER keeps_visit_STRING
        keeps_visit_IDENT [OF st] keeps_visit_member_access_expr [OF st]
        keeps_visit_list_literal [of P ve, OF ve] keeps_visit_list_access [OF st ve]
        keeps_visit_func_call [OF st ve vb] ve)

lemma keeps_lift_op:
  "P s \<Longrightarrow> (\<And>v. keeps P (k v)) \<Longrightarrow> P (snd (lift_op r k s))"
  by (cases r) (auto simp: lift_op_def dest: keepsD)

lemma keeps_term_loop:
  assumes st: "stable P" and vf: "\<And>f. keeps P (vf f)"
  shows "keeps P (term_loop H vf left rest)"
proof (induction rest arbitrary: left)
  case Nil
  show ?case by (simp add: keeps_def)
next
  case (Cons a rest)
  note [simp] = stable_fields [OF st] stable_steps [OF st]
  obtain opr f where a: "a = (opr, f)" by (cases a)
  show ?case
  proof (rule keepsI)
    fix s :: "'a state"
    assume sr: "P s"
    obtain r s1 where c: "visit (vf f) s = (r, s1)" by (cases "visit (vf f) s")
    from krD [OF keeps_visit [OF vf] c sr] have s1: "P s1" .
    show "P (snd (term_loop H vf left (a # rest) s))"
    proof (cases r)
      case (Done right)
      with a c s1 show ?thesis
        by (auto intro!: keeps_lift_op [where P = P] keepsD [OF Cons.IH] Cons.IH)
    qed (use a c s1 in simp_all)
  qed
qed

lemma keeps_visit_term:
  assumes st: "stable P" and vf: "\<And>f. keeps P (vf f)"
  shows "keeps P (visit_term H vf t)"
proof (rule keepsI)
  fix s :: "'a state"
  assume sr: "P s"
  obtain f rest where t: "t = Trm f rest" by (cases t)
  obtain r s1 where c: "visit (vf f) s = (r, s1)" by (cases "visit (vf f) s")
  from krD [OF keeps_visit [OF vf] c sr] have s1: "P s1" .
  from t c s1 keepsD [OF keeps_term_loop [of P vf, OF st vf] s1]
  show "P (snd (visit_term H vf t s))"
    by (cases r) (simp_all add: visit_term_def and_then_def)
qed

lemma keeps_expr_loop:
  assumes st: "stable P" and vt: "\<And>t. keeps P (vt t)"
  shows "keeps P (expr_loop H vt left rest)"
proof (induction rest arbitrary: left)
  case Nil
  show ?case by (simp add: keeps_def)
next
  case (Cons a rest)
  note [simp] = stable_fields [OF st] stable_steps [OF st]
  obtain opr t where a: "a = (opr, t)" by (cases a)
  show ?case
  proof (rule keepsI)
    fix s :: "'a state"
    assume sr: "P s"
    obtain r s1 where c: "visit (vt t) s = (r, s1)" by (cases "visit (vt t) s")
    from krD [OF keeps_visit [OF vt] c sr] have s1: "P s1" .
    show "P (snd (expr_loop H vt left (a # rest) s))"
    proof (cases r)
      case (Done right)
      with a c s1 show ?thesis
        by (auto intro!: keeps_lift_op [where P = P] keepsD [OF Cons.IH] Cons.IH)
    qed (use a c s1 in simp_all)
  qed
qed

lemma keeps_visit_expr:
  assumes st: "stable P" and vt: "\<And>t. keeps P (vt t)"
  shows "keeps P (visit_expr H vt e)"
proof (rule keepsI)
  fix s :: "'a state"
  assume sr: "P s"
  obtain t rest where e: "e = Expr t rest" by (cases e)
  obtain r s1 where c: "visit (vt t) s = (r, s1)" by (cases "visit (vt t) s")
  from krD [OF keeps_visit [OF vt] c sr] have s1: "P s1" .
  from e c s1 keepsD [OF keeps_expr_loop [of P vt, OF st vt] s1]
  show "P (snd (visit_expr H vt e s))"
    by (cases r) (simp_all add: visit_expr_def and_then_def)
qed

lemma keeps_visit_condition:
  assumes st: "stable P" and ve: "\<And>e. keeps P (ve e)"
  shows "keeps P (visit_condition H ve c)"
proof -
  note [simp] = stable_fields [OF st] stable_steps [OF st]
  note v = krD [OF keeps_visit [OF ve]]
  show ?thesis
    unfolding keeps_def visit_condition_def and_then_def
    by (auto split: condition.splits prod.splits outcome.splits option.splits sum.splits dest: v)
qed

lemma keeps_visit_children:
  assumes "\<And>c. keeps P (vc c)"
  shows "keeps P (visit_children vc rest)"
proof (induction rest)
  case Nil
  show ?case by (simp add: keeps_def)
next
  case (Cons a rest)
  note v = krD [OF keeps_visit [OF assms]] and ih = krD [OF Cons.IH]
  obtain node c where a: "a = (node, c)" by (cases a)
  show ?case
    unfolding keeps_def a
    by (auto simp: Let_def split: prod.splits outcome.splits dest: v ih)
qed

lemma keeps_logic_loop:
  assumes st: "stable P"
  shows "keeps P (logic_loop b xs)"
proof (induction xs arbitrary: b)
  case Nil
  show ?case by (simp add: keeps_def)
next
  case (Cons a xs)
  note [simp] = stable_fields [OF st] stable_steps [OF st]
  obtain opr r where a: "a = (opr, r)" by (cases a)
  show ?case
    unfolding keeps_def a
    by (auto intro!: keepsD [OF Cons.IH])
qed

lemma keeps_visit_conditions:
  assumes st: "stable P" and vc: "\<And>c. keeps P (vc c)"
  shows "keeps P (visit_conditions vc node)"
proof -
  note v = krD [OF keeps_visit [OF vc]] and ch = krD [OF keeps_visit_children [of P vc, OF vc]]
  show ?thesis
    unfolding keeps_def visit_conditions_def and_then_def
    by (auto split: conditions.splits prod.splits outcome.splits
             dest: v ch intro!: keepsD [OF keeps_logic_loop [OF st]] keepsD [OF keeps_visit [OF vc]])
qed

lemma keeps_cast_initial:
  assumes st: "stable P"
  shows "keeps P (cast_initial H v T x)"
  unfolding cast_initial_def by (cases v) (simp_all add: keeps_cast_type [OF st])

lemma keeps_visit_var_def:
  assumes st: "stable P" and ve: "\<And>e. keeps P (ve e)"
  shows "keeps P (visit_var_def H ve tn x init)"
proof -
  note [simp] = stable_fields [OF st] stable_steps [OF st]
  note v = krD [OF keeps_visit [OF ve]] and c = krD [OF keeps_cast_initial [OF st]]
  show ?thesis
    unfolding keeps_def visit_var_def_def and_then_def
    by (auto simp: Let_def split: option.splits prod.splits outcome.splits dest: v c)
qed

lemma keeps_visit_const_def:
  assumes st: "stable P" and ve: "\<And>e. keeps P (ve e)"
  shows "keeps P (visit_const_def H ve tn x e)"
proof -
  note [simp] = stable_fields [OF st] stable_steps [OF st]
  note v = krD [OF keeps_visit [OF ve]] and c = krD [OF keeps_cast_initial [OF st]]
  show ?thesis
    unfolding keeps_def visit_const_def_def and_then_def
    by (auto simp: Let_def split: option.splits prod.splits outcome.splits dest: v c)
qed

lemma keeps_visit_list_def:
  assumes st: "stable P" and ve: "\<And>e. keeps P (ve e)"
  shows "keeps P (visit_list_def ve x es)"
proof -
  note [simp] = stable_fields [OF st] stable_steps [OF st]
  note v = krD [OF keeps_visit [OF keeps_visit_list_literal [of P ve, OF ve]]]
  show ?thesis
    unfolding keeps_def visit_list_def_def and_then_def
    by (auto split: prod.splits outcome.splits dest: v)
qed

lemma keeps_assign_value:
  assumes st: "stable P"
  shows "keeps P (assign_value H x v)"
proof -
  note [simp] = stable_fields [OF st] stable_steps [OF st]
  note c = krD [OF keeps_cast_type [OF st]]
  show ?thesis
    unfolding keeps_def assign_value_def and_then_def
    by (auto split: sum.splits prod.splits outcome.splits dest: c)
qed

lemma keeps_visit_assignment:
  assumes st: "stable P" and ve: "\<And>e. keeps P (ve e)"
  shows "keeps P (visit_assignment H ve x e)"
proof -
  note v = krD [OF keeps_visit [OF ve]]
  show ?thesis
    unfolding keeps_def visit_assignment_def and_then_def
    by (auto split: prod.splits outcome.splits dest: v intro!: keepsD [OF keeps_assign_value [OF st]])
qed

lemma keeps_visit_cause_stmt:
  assumes "\<And>c. keeps P (vcs c)" and "\<And>b. keeps P (vb b)"
  shows "keeps P (visit_cause_stmt vcs vb c b1 b2)"
proof -
  note v = krD [OF keeps_visit [OF assms(1)]]
  show ?thesis
    unfolding keeps_def visit_cause_stmt_def and_then_def
    by (auto split: prod.splits outcome.splits option.splits dest: v intro!: keepsD [OF assms(2)])
qed

lemma keeps_visit_member_access:
  assumes st: "stable P"
  shows "keeps P (visit_member_access H x a)"
proof -
  note [simp] = stable_fields [OF st] stable_steps [OF st]
  show ?thesis
    unfolding keeps_def visit_member_access_def
    by (auto split: sum.splits bool.splits)
qed

lemma keeps_output_args:
  assumes st: "stable P" and ve: "\<And>e. keeps P (ve e)"
  shows "keeps P (output_args ve i es)"
proof (induction es arbitrary: i)
  case Nil
  show ?case by (simp add: keeps_def)
next
  case (Cons e es)
  note [simp] = stable_fields [OF st] stable_steps [OF st]
  note v = krD [OF keeps_visit [OF ve]]
  show ?case
    unfolding keeps_def
    by (auto split: prod.splits outcome.splits dest: v intro!: keepsD [OF Cons.IH])
qed

lemma keeps_visit_output_stmt:
  assumes st: "stable P" and ve: "\<And>e. keeps P (ve e)"
  shows "keeps P (visit_output_stmt H ve x a es)"
proof -
  note [simp] = stable_fields [OF st] stable_steps [OF st]
  note m = krD [OF keeps_visit [OF keeps_visit_member_access [OF st]]]
   and oa = krD [OF keeps_output_args [of P ve, OF st ve]]
  show ?thesis
    unfolding keeps_def visit_output_stmt_def and_then_def
    by (auto split: prod.splits outcome.splits dest: m oa)
qed

lemma keeps_again_loop:
  assumes st: "stable P" and vb: "\<And>b. keeps P (vb b)"
  shows "keeps P (again_loop vb rv b i k)"
proof (induction k arbitrary: i)
  case 0
  show ?case by (simp add: keeps_def)
next
  case (Suc k)
  note [simp] = stable_fields [OF st] stable_steps [OF st]
  show ?case
  proof (rule keepsI)
    fix s :: "'a state"
    assume sr: "P s"
    from sr have p1: "P (bind_repeat_var rv i s)" by (simp add: bind_repeat_var_def)
    obtain r s2 where c: "vb b (bind_repeat_var rv i s) = (r, s2)" by (cases "vb b (bind_repeat_var rv i s)")
    from krD [OF vb c p1] have p2: "P s2" .
    from sr c p2 keepsD [OF Suc.IH p2] show "P (snd (again_loop vb rv b i (Suc k) s))"
      by (cases r) simp_all
  qed
qed

lemma keeps_pop:
  assumes st: "stable P"
  shows "P (pop_repeat_var rv s) = P s"
  using stable_fields [OF st] by (simp add: pop_repeat_var_def)

lemma keeps_visit_again_stmt:
  assumes st: "stable P" and ve: "\<And>e. keeps P (ve e)" and vb: "\<And>b. keeps P (vb b)"
  shows "keeps P (visit_again_stmt H ve vb e rv b)"
proof (rule keepsI)
  note [simp] = stable_fields [OF st] stable_steps [OF st] keeps_pop [OF st]
  fix s :: "'a state"
  assume sr: "P s"
  obtain r s0 where c: "visit (ve e) s = (r, s0)" by (cases "visit (ve e) s")
  from krD [OF keeps_visit [OF ve] c sr] have s0: "P s0" .
  have loop: "P (snd (again_loop vb rv b 0 k (s0\<lparr>should_break := False\<rparr>)))" for k
    using keepsD [OF keeps_again_loop [of P vb, OF st vb], of "s0\<lparr>should_break := False\<rparr>"] s0
    by simp
  show "P (snd (visit_again_stmt H ve vb e rv b s))"
  proof (cases r)
    case (Done cnt)
    show ?thesis
    proof (cases "int_of_number H cnt")
      case None
      with Done c s0 show ?thesis by (simp add: visit_again_stmt_def and_then_def)
    next
      case (Some n)
      obtain r2 s2 where l: "again_loop vb rv b 0 (nat n) (s0\<lparr>should_break := False\<rparr>) = (r2, s2)"
        by (cases "again_loop vb rv b 0 (nat n) (s0\<lparr>should_break := False\<rparr>)")
      from loop [of "nat n"] l have "P s2" by simp
      with Done Some c s0 l show ?thesis
        by (cases r2) (simp_all add: visit_again_stmt_def and_then_def)
    qed
  qed (use c s0 in \<open>simp_all add: visit_again_stmt_def and_then_def\<close>)
qed

lemma keeps_visit_func_def:
  assumes st: "stable P"
  shows "keeps P (visit_func_def x ps b)"
proof -
  note [simp] = stable_fields [OF st] stable_steps [OF st]
  show ?thesis
    unfolding keeps_def visit_func_def_def by auto
qed

lemma keeps_visit_func_call_stmt:
  assumes st: "stable P" and ve: "\<And>e. keeps P (ve e)" and vb: "\<And>b. keeps P (vb b)"
  shows "keeps P (visit_func_call_stmt H ve vb x es)"
proof -
  note c = krD [OF keeps_visit_func_call [of P ve vb, OF st ve vb]]
  show ?thesis
    unfolding keeps_def visit_func_call_stmt_def and_then_def
    by (auto split: prod.splits outcome.splits dest: c)
qed

lemma keeps_visit_back_stmt:
  assumes st: "stable P" and ve: "\<And>e. keeps P (ve e)"
  shows "keeps P (visit_back_stmt ve node)"
proof -
  note [simp] = stable_fields [OF st] stable_steps [OF st]
  note v = krD [OF keeps_visit [OF ve]]
  show ?thesis
    unfolding keeps_def visit_back_stmt_def and_then_def
    by (auto split: prod.splits outcome.splits option.splits dest: v)
qed

lemma keeps_visit_rep_stop:
  assumes st: "stable P"
  shows "keeps P visit_rep_stop"
  using stable_fields [OF st] by (simp add: keeps_def visit_rep_stop_def)

lemma keeps_visit_statement:
  assumes st: "stable P" and ve: "\<And>e. keeps P (ve e)" and vb: "\<And>b. keeps P (vb b)"
  shows "keeps P (visit_statement H ve vb stmt)"
  unfolding visit_statement_def
  by (rule keeps_visit, cases stmt)
     (simp_all add: keeps_visit_const_def [OF st ve] keeps_visit_var_def [OF st ve]
        keeps_visit_list_def [OF st ve] keeps_visit_assignment [OF st ve]
        keeps_visit_cause_stmt [of P _ vb, OF keeps_visit_conditions [OF st keeps_visit_condition [OF st ve]] vb]
        keeps_visit_output_stmt [OF st ve] keeps_visit_again_stmt [OF st ve vb]
        keeps_visit_func_def [OF st] keeps_visit_func_call_stmt [OF st ve vb]
        keeps_visit_back_stmt [OF st ve] keeps_visit_rep_stop [OF st])

lemma keeps_visit_block:
  assumes "\<And>stmt. keeps P (vs stmt)"
  shows "keeps P (visit_block vs b)"
proof (induction b)
  case Nil
  show ?case by (simp add: keeps_def)
next
  case (Cons stmt b)
  note v = krD [OF keeps_visit [OF assms]]
  show ?case
    unfolding keeps_def
    by (auto split: prod.splits outcome.splits dest: v intro!: keepsD [OF Cons.IH])
qed

lemma keeps_eval:
  assumes st: "stable P"
  shows "(\<forall>e. keeps P (eval_expr H n e)) \<and> (\<forall>t. keeps P (eval_term H n t))
   \<and> (\<forall>f. keeps P (eval_factor H n f)) \<and> (\<forall>stmt. keeps P (exec_statement H n stmt))
   \<and> (\<forall>b. keeps P (exec_block H n b))"
proof (induction n)
  case 0
  show ?case by (simp add: keeps_def)
next
  case (Suc n)
  have e: "keeps P (eval_expr H (Suc n) e)" for e
    using keeps_visit_expr [of P "\<lambda>t. eval_term H n t" H e, OF st] Suc
    by (simp add: keeps_def)
  have t: "keeps P (eval_term H (Suc n) t)" for t
    using keeps_visit_term [of P "\<lambda>f. eval_factor H n f" H t, OF st] Suc
    by (simp add: keeps_def)
  have f: "keeps P (eval_factor H (Suc n) f)" for f
    using keeps_visit_factor [of P "\<lambda>e. eval_expr H n e" "\<lambda>b. exec_block H n b" H f, OF st] Suc
    by (simp add: keeps_def)
  have s: "keeps P (exec_statement H (Suc n) stmt)" for stmt
    using keeps_visit_statement [of P "\<lambda>e. eval_expr H n e" "\<lambda>b. exec_block H n b" H stmt, OF st] Suc
    by (simp add: keeps_def)
  have b: "keeps P (exec_block H (Suc n) b)" for b
    using keeps_visit_block [of P "\<lambda>stmt. exec_statement H n stmt" b] Suc
    by (simp add: keeps_def)
  from e t f s b show ?case by blast
qed

lemma keeps_execute_loop:
  assumes st: "stable P"
  shows "P s \<Longrightarrow> P (snd (execute_loop H n i items s))"
proof (induction items arbitrary: i s)
  case Nil
  then show ?case by simp
next
  case (Cons item items)
  note [simp] = stable_fields [OF st] stable_steps [OF st]
  show ?case
  proof (cases item)
    case Top_newline
    with Cons show ?thesis by simp
  next
    case (Top_statement line stmt)
    from keeps_eval [OF st, of H n] have k: "keeps P (exec_statement H n stmt)" by blast
    obtain r s1 where c: "visit (exec_statement H n stmt)
        (s\<lparr>current_line_num := (case line of Some l \<Rightarrow> l | None \<Rightarrow> i + 1)\<rparr>) = (r, s1)"
      by (cases "visit (exec_statement H n stmt)
        (s\<lparr>current_line_num := (case line of Some l \<Rightarrow> l | None \<Rightarrow> i + 1)\<rparr>)")
    from krD [OF keeps_visit [OF k] c] Cons.prems have s1: "P s1" by simp
    from Top_statement c s1 Cons.IH show ?thesis
      by (cases r) simp_all
  qed
qed

lemma call_body_restores: "should_return (snd (call_body vb fi bs s)) = should_return s"
  by (simp add: call_body_def leave_call_def split: prod.splits outcome.splits)

lemma stable_should_return: "stable should_return"
  unfolding stable_def keeps_def
  by (auto simp: add_error_def poison_def call_body_restores)



section \<open>A loop whose body is skipped\<close>

lemma bind_repeat_var_flags [simp]:
  "should_return (bind_repeat_var rv i s) = should_return s"
  "should_break (bind_repeat_var rv i s) = should_break s"
  by (simp_all add: bind_repeat_var_def)

lemma bind_repeat_var_again [simp]:
  "bind_repeat_var rv j (bind_repeat_var rv i s) = bind_repeat_var rv j s"
  by (simp add: bind_repeat_var_def define_var_def)

lemma again_loop_skipped:
  assumes "\<And>b s. should_return s \<Longrightarrow> vb b s = (Done (), s)"
  shows "should_return s \<Longrightarrow> \<not> should_break s \<Longrightarrow>
         again_loop vb rv b i k s = (Done (), if k = 0 then s else bind_repeat_var rv (i + k - 1) s)"
proof (induction k arbitrary: i s)
  case 0
  then show ?case by simp
next
  case (Suc k)
  from Suc.prems have r: "should_return (bind_repeat_var rv i s)" and nb: "\<not> should_break (bind_repeat_var rv i s)"
    by simp_all
  from assms [OF r] Suc.IH [OF r nb, of "Suc i"] Suc.prems show ?case
    by simp
qed

section \<open>The loop of \<^verbatim>\<open>execute\<close> on a list of children in two parts\<close>

lemma execute_loop_append:
  "execute_loop H n i (pre @ post) s =
     (case execute_loop H n i pre s of
        (Done u, s1) \<Rightarrow> execute_loop H n (i + length pre) post s1
      | (Raised e, s1) \<Rightarrow> (Raised e, s1)
      | (OutOfFuel, s1) \<Rightarrow> (OutOfFuel, s1))"
proof (induction pre arbitrary: i s)
  case Nil
  show ?case by simp
next
  case (Cons a pre)
  show ?case
  proof (cases a)
    case (Top_statement line st)
    then show ?thesis
      using Cons.IH [of "Suc i"] by (simp split: prod.splits outcome.splits)
  next
    case Top_newline
    then show ?thesis
      using Cons.IH [of "Suc i"] by (simp split: prod.splits outcome.splits)
  qed
qed

lemma execute_loop_not_raised: "fst (execute_loop H n i items s) \<noteq> Raised e"
proof (induction items arbitrary: i s)
  case Nil
  show ?case by simp
next
  case (Cons a items)
  show ?case
  proof (cases a)
    case (Top_statement line st)
    then show ?thesis
      using Cons.IH by (simp split: prod.splits outcome.splits)
  next
    case Top_newline
    then show ?thesis
      using Cons.IH by simp
  qed
qed

section \<open>Claim C1: an assignment keeps the variable's type\<close>

text \<open>
  C1, as the code has it. Let \<open>x\<close> resolve to a variable that holds a value \<open>cv\<close>, and
  let \<^verbatim>\<open>visit_assignment\<close> have evaluated the right-hand side to \<open>v\<close>.
  \<^item> If \<open>x\<close> is poisoned, the assignment does nothing: no cast, no error, same state.
  \<^item> Otherwise \<open>v\<close> is cast to the type of \<open>cv\<close>. If the cast fails, an error is recorded,
    \<open>x\<close> is poisoned and the environments are unchanged; if it succeeds, the variable
    holds the result, which has the type of \<open>cv\<close>, and no error is recorded. (A float
    too large for an integer raises, with the state unchanged.)
  \<^item> In every case the variable afterwards holds a value of the type of \<open>cv\<close>.
\<close>

theorem assignment_keeps_type:
  assumes "resolves_to_var (envs s) (env s) x" and "x \<noteq> []"
      and "get_value (envs s) (env s) x = Inr cv" and "cv \<noteq> VNone"
      and "assign_value H x v s = (r, s')"
  shows "(x \<in> set (error_vars_list s) \<longrightarrow> r = Done () \<and> s' = s)
       \<and> (x \<notin> set (error_vars_list s) \<longrightarrow>
            (case cast_type H v (type_name_of cv) x s of
               (Done c, s1) \<Rightarrow>
                 if c = VNone
                 then r = Done () \<and> envs s' = envs s \<and> x \<in> set (error_vars_list s')
                      \<and> (\<exists>m. s' = poison x (add_error m s))
                 else r = Done () \<and> get_value (envs s') (env s') x = Inr c
                      \<and> type_name_of c = type_name_of cv \<and> errors s' = errors s
             | (Raised e, s1) \<Rightarrow> r = Raised e \<and> s' = s
             | (OutOfFuel, s1) \<Rightarrow> False))
       \<and> (\<exists>cv'. get_value (envs s') (env s') x = Inr cv' \<and> type_name_of cv' = type_name_of cv)"
proof -
  note d = resolves_is_defined [OF assms(1)] and nc = resolves_not_constant [OF assms(1)]
  obtain rc s1 where ct: "cast_type H v (type_name_of cv) x s = (rc, s1)"
    by (cases "cast_type H v (type_name_of cv) x s")
  have poisoned: "r = Done () \<and> s' = s" if "x \<in> set (error_vars_list s)"
    using that assms(5) by (simp add: assign_value_def)
  have run: "assign_value H x v s =
               (case rc of
                  Done c \<Rightarrow>
                    if c \<noteq> VNone then
                      (case set_value (envs s1) (env s1) x c of
                         Inl e \<Rightarrow> (Raised e, s1)
                       | Inr E \<Rightarrow> (Done (), s1\<lparr>envs := E, assigned_vars := insert x (assigned_vars s1)\<rparr>))
                    else (Done (), s1)
                | Raised e \<Rightarrow> (Raised e, s1)
                | OutOfFuel \<Rightarrow> (OutOfFuel, s1))"
    if "x \<notin> set (error_vars_list s)"
    using that d nc assms(3,4) ct
    by (simp add: assign_value_def and_then_def split: outcome.splits)
  have fresh: "(case (rc, s1) of
               (Done c, s1) \<Rightarrow>
                 if c = VNone
                 then r = Done () \<and> envs s' = envs s \<and> x \<in> set (error_vars_list s')
                      \<and> (\<exists>m. s' = poison x (add_error m s))
                 else r = Done () \<and> get_value (envs s') (env s') x = Inr c
                      \<and> type_name_of c = type_name_of cv \<and> errors s' = errors s
             | (Raised e, s1) \<Rightarrow> r = Raised e \<and> s' = s
             | (OutOfFuel, s1) \<Rightarrow> False)" if np: "x \<notin> set (error_vars_list s)"
  proof (cases rc)
    case (Done c)
    show ?thesis
    proof (cases "c = VNone")
      case True
      from ct Done True have "cast_type H v (type_name_of cv) x s = (Done VNone, s1)" by simp
      from cast_type_failed [OF this assms(2) np]
      obtain m where m: "s1 = poison x (add_error m s)" by blast
      from run [OF np] Done True assms(5) have "r = Done ()" and "s' = s1" by simp_all
      with m Done True show ?thesis by (auto simp: poison_def)
    next
      case False
      from ct Done have "cast_type H v (type_name_of cv) x s = (Done c, s1)" by simp
      from cast_type_done [OF this False] have s1: "s1 = s" and ty: "type_name_of c = type_name_of cv"
        by simp_all
      from set_value_resolves [OF assms(1), of c]
      obtain E where E: "set_value (envs s) (env s) x c = Inr E" "get_value E (env s) x = Inr c" by auto
      from run [OF np] Done False s1 E assms(5)
      have "r = Done ()" and "s' = s\<lparr>envs := E, assigned_vars := insert x (assigned_vars s)\<rparr>" by simp_all
      with E ty Done False show ?thesis by simp
    qed
  next
    case (Raised e)
    from ct Raised have "cast_type H v (type_name_of cv) x s = (Raised e, s1)" by simp
    from cast_type_raised [OF this] have "s1 = s" .
    with run [OF np] Raised assms(5) show ?thesis by simp
  next
    case OutOfFuel
    with ct cast_type_fuel [of H v "type_name_of cv" x s s1] show ?thesis by simp
  qed
  have kept: "\<exists>cv'. get_value (envs s') (env s') x = Inr cv' \<and> type_name_of cv' = type_name_of cv"
  proof (cases "x \<in> set (error_vars_list s)")
    case True
    with poisoned assms(3) show ?thesis by simp
  next
    case False
    from fresh [OF False] assms(3) show ?thesis
      by (cases rc) (auto simp: poison_def split: if_splits)
  qed
  from poisoned fresh kept ct show ?thesis by simp
qed

text \<open>
  The theorem after \<^verbatim>\<open>x -> 5\<close>: assigning 7 stores 7, and assigning \<^verbatim>\<open>"abc"\<close> records an
  error, poisons \<^verbatim>\<open>x\<close> and leaves 5.
\<close>

theorem assignment_keeps_type_witness:
  "get_value (envs (snd (assign_value ideal_host ''x'' (VInt 7) (run_program 6 [Assignment ''x'' (num_lit ''5'')]))))
      (env (snd (assign_value ideal_host ''x'' (VInt 7) (run_program 6 [Assignment ''x'' (num_lit ''5'')])))) ''x''
     = Inr (VInt 7)
   \<and> errors (snd (assign_value ideal_host ''x'' (VInt 7) (run_program 6 [Assignment ''x'' (num_lit ''5'')]))) = []
   \<and> envs (snd (assign_value ideal_host ''x'' (VStr ''abc'') (run_program 6 [Assignment ''x'' (num_lit ''5'')])))
       = envs (run_program 6 [Assignment ''x'' (num_lit ''5'')])
   \<and> ''x'' \<in> set (error_vars_list
         (snd (assign_value ideal_host ''x'' (VStr ''abc'') (run_program 6 [Assignment ''x'' (num_lit ''5'')]))))
   \<and> var_of (run_program 6 [Assignment ''x'' (num_lit ''5'')]) ''x'' = Some (VInt 5)"
proof -
  let ?s = "run_program 6 [Assignment ''x'' (num_lit ''5'')]"
  have r: "resolves_to_var (envs ?s) (env ?s) ''x''" by code_simp
  have g: "get_value (envs ?s) (env ?s) ''x'' = Inr (VInt 5)" by code_simp
  have p: "''x'' \<notin> set (error_vars_list ?s)" by code_simp
  have e: "errors ?s = []" by code_simp
  have v: "var_of ?s ''x'' = Some (VInt 5)" by code_simp
  have c7: "fst (cast_type ideal_host (VInt 7) ''int'' ''x'' ?s) = Done (VInt 7)" by code_simp
  have cs: "fst (cast_type ideal_host (VStr ''abc'') ''int'' ''x'' ?s) = Done VNone" by code_simp
  note stored = assignment_keeps_type
         [where H = ideal_host and x = "''x''" and v = "VInt 7" and s = ?s and cv = "VInt 5"
            and r = "fst (assign_value ideal_host ''x'' (VInt 7) ?s)"
            and s' = "snd (assign_value ideal_host ''x'' (VInt 7) ?s)", OF r _ g]
  note failed = assignment_keeps_type
         [where H = ideal_host and x = "''x''" and v = "VStr ''abc''" and s = ?s and cv = "VInt 5"
            and r = "fst (assign_value ideal_host ''x'' (VStr ''abc'') ?s)"
            and s' = "snd (assign_value ideal_host ''x'' (VStr ''abc'') ?s)", OF r _ g]
  from stored p c7 e have a: "get_value (envs (snd (assign_value ideal_host ''x'' (VInt 7) ?s)))
      (env (snd (assign_value ideal_host ''x'' (VInt 7) ?s))) ''x'' = Inr (VInt 7)
      \<and> errors (snd (assign_value ideal_host ''x'' (VInt 7) ?s)) = []"
    by (simp add: case_prod_beta)
  from failed p cs have b: "envs (snd (assign_value ideal_host ''x'' (VStr ''abc'') ?s)) = envs ?s
      \<and> ''x'' \<in> set (error_vars_list (snd (assign_value ideal_host ''x'' (VStr ''abc'') ?s)))"
    by (simp add: case_prod_beta)
  from a b v show ?thesis by simp
qed

text \<open>
  A later assignment does not cast and store: after \<^verbatim>\<open>x -> 5\<close> and the failed \<^verbatim>\<open>x -> "abc"\<close>,
  the assignment \<^verbatim>\<open>x -> 7\<close>, whose cast to \<^verbatim>\<open>int\<close> succeeds, leaves \<^verbatim>\<open>x\<close> at 5 and records
  nothing.
\<close>

theorem poisoned_assignment_counterexample:
  "var_of (run_program 6 (take 2 poisoned_assignment_prog)) ''x'' = Some (VInt 5)
   \<and> fst (cast_type ideal_host (VInt 7) (type_name_of (VInt 5 :: rat val)) [] (initial_state [])) = Done (VInt 7)
   \<and> var_of (run_program 6 poisoned_assignment_prog) ''x'' = Some (VInt 5)
   \<and> errors (run_program 6 poisoned_assignment_prog) = errors (run_program 6 (take 2 poisoned_assignment_prog))"
  by code_simp

section \<open>Claim C2: constants\<close>

text \<open>
  C2, as the code has it. Let \<^verbatim>\<open>visit_assignment\<close> have evaluated the right-hand side to
  \<open>v\<close>. Whatever the target \<open>x\<close> is, the assignment changes no constant of any environment.
  If \<open>x\<close> is a constant of the current environment and is not poisoned, the assignment
  records the error \<^verbatim>\<open>Cannot assign values to constants afterward: 'x'\<close> and does nothing
  else (an error text is in the list once, so the state is unchanged when that text was
  recorded before). If \<open>x\<close> is poisoned, the assignment does nothing at all: no error is
  recorded.
\<close>

theorem constant_assignment_rejected:
  assumes "assign_value H x v s = (r, s')"
  shows "(\<forall>j. constants (envs s' j) = constants (envs s j))
       \<and> (is_constant (envs s) (env s) x \<and> x \<notin> set (error_vars_list s) \<longrightarrow>
            r = Done ()
            \<and> s' = add_error (''Cannot assign values to constants afterward: '' @ quoted x) s
            \<and> format_error (''Cannot assign values to constants afterward: '' @ quoted x) \<in> set (errors s'))
       \<and> (x \<in> set (error_vars_list s) \<longrightarrow> r = Done () \<and> s' = s)"
proof (intro conjI allI impI)
  fix j
  from assms show "constants (envs s' j) = constants (envs s j)"
    by (rule assign_value_constants)
next
  assume c: "is_constant (envs s) (env s) x \<and> x \<notin> set (error_vars_list s)"
  with is_constant_is_defined [of "envs s" "env s" x] assms
  have "r = Done () \<and> s' = add_error (''Cannot assign values to constants afterward: '' @ quoted x) s"
    by (auto simp: assign_value_def)
  then show "r = Done ()"
    and "s' = add_error (''Cannot assign values to constants afterward: '' @ quoted x) s"
    and "format_error (''Cannot assign values to constants afterward: '' @ quoted x) \<in> set (errors s')"
    by (simp_all add: add_error_def)
next
  assume "x \<in> set (error_vars_list s)"
  with assms show "r = Done ()" and "s' = s"
    by (simp_all add: assign_value_def)
qed

text \<open>
  The theorem after the definition of the constant \<^verbatim>\<open>c\<close> as 5: assigning 7 to \<^verbatim>\<open>c\<close> records
  the error and leaves 5.
\<close>

theorem constant_assignment_witness:
  "const_of (run_program 6 (take 1 poisoned_constant_prog)) ''c'' = Some (VInt 5)
   \<and> fst (assign_value ideal_host ''c'' (VInt 7) (run_program 6 (take 1 poisoned_constant_prog))) = Done ()
   \<and> const_of (snd (assign_value ideal_host ''c'' (VInt 7) (run_program 6 (take 1 poisoned_constant_prog)))) ''c''
       = Some (VInt 5)
   \<and> errors (snd (assign_value ideal_host ''c'' (VInt 7) (run_program 6 (take 1 poisoned_constant_prog))))
       = [format_error (''Cannot assign values to constants afterward: '' @ quoted ''c'')]"
proof -
  let ?s = "run_program 6 (take 1 poisoned_constant_prog)"
  have c: "is_constant (envs ?s) (env ?s) ''c''" by code_simp
  have p: "''c'' \<notin> set (error_vars_list ?s)" by code_simp
  have e: "errors ?s = []" by code_simp
  have v: "const_of ?s ''c'' = Some (VInt 5)" by code_simp
  from constant_assignment_rejected
         [where H = ideal_host and x = "''c''" and v = "VInt 7" and s = ?s
            and r = "fst (assign_value ideal_host ''c'' (VInt 7) ?s)"
            and s' = "snd (assign_value ideal_host ''c'' (VInt 7) ?s)"]
       c p e v
  show ?thesis by (simp add: const_of_def add_error_def)
qed

text \<open>
  Poisoning does matter: the definition of a variable \<^verbatim>\<open>c\<close> after the constant \<^verbatim>\<open>c\<close> records
  its error and poisons \<^verbatim>\<open>c\<close>; the assignment \<^verbatim>\<open>c -> 7\<close> that follows records no error.
\<close>

theorem poisoned_constant_counterexample:
  "const_of (run_program 6 (take 2 poisoned_constant_prog)) ''c'' = Some (VInt 5)
   \<and> errors (run_program 6 (take 2 poisoned_constant_prog))
       = [format_error (''Variable '' @ quoted ''c'' @ '' is already defined'')]
   \<and> error_vars_list (run_program 6 (take 2 poisoned_constant_prog)) = [''c'']
   \<and> const_of (run_program 6 poisoned_constant_prog) ''c'' = Some (VInt 5)
   \<and> errors (run_program 6 poisoned_constant_prog) = errors (run_program 6 (take 2 poisoned_constant_prog))"
  by code_simp

section \<open>Claim C3: \<^verbatim>\<open>now.repeat\<close>\<close>

text \<open>
  C3. \<^verbatim>\<open>visit_member_access_expr\<close> answers \<^verbatim>\<open>now.repeat\<close> with the value of the name
  \<^verbatim>\<open>repeat\<close>, whatever name the loop bound. In the loop \<^verbatim>\<open>Again(1, i) [ x -> now.repeat ]\<close>
  the index is bound under \<^verbatim>\<open>i\<close>, so the read records the error that there is no loop
  and yields no value: \<^verbatim>\<open>x\<close> is \<^verbatim>\<open>None\<close>. Outside any loop, after \<^verbatim>\<open>repeat -> "hello"\<close>, the
  read yields \<^verbatim>\<open>"hello"\<close> and records no error.
\<close>

theorem now_repeat_ignores_index_name:
  "var_of (run_program 9 now_repeat_prog) ''x'' = Some VNone
   \<and> errors (run_program 9 now_repeat_prog)
       = [format_error (quoted ''now.repeat''
            @ '' can only be used inside an Again loop that provides a repeat parameter'')]
   \<and> var_of (run_program 9 now_repeat_outside_prog) ''x'' = Some (VStr ''hello'')
   \<and> errors (run_program 9 now_repeat_outside_prog) = []"
  by code_simp

section \<open>Claim C4: groups of conditions\<close>

text \<open>
  C4, as the code has it. \<^verbatim>\<open>visit_conditions\<close> first evaluates every condition of the
  group, from left to right, whatever the results are (\<open>visit_children\<close> returns one
  result for each condition after the first, and the group ends in the state \<open>s1\<close> reached
  after the last of them); only then it folds the results from the left, and that fold
  stops at an \<^verbatim>\<open>and\<close> whose running result is false or an \<^verbatim>\<open>or\<close> whose running result is
  true. The operator nodes are the ones the parser builds, whose text is read from the
  source line.
\<close>

theorem conditions_evaluated_then_folded:
  assumes "visit (vc c) s = (Done first, s0)"
      and "visit_children vc rest s0 = (Done xs, s1)"
      and "list_all (\<lambda>(node, c). node = Logic_op []) rest"
  shows "visit_conditions vc (Conditions c rest) s = (Done (spec_fold first xs), s1)
         \<and> length xs = length rest"
proof (cases rest)
  case Nil
  with assms show ?thesis by (simp add: visit_conditions_def)
next
  case (Cons a list)
  from visit_children_ops [OF assms(2) assms(3)]
  have ops: "list_all (\<lambda>(opr, r). opr = ''and'' \<or> opr = ''or'') xs" and len: "length xs = length rest"
    by simp_all
  from Cons assms(1) assms(2) logic_loop_spec [OF ops] len show ?thesis
    by (simp add: visit_conditions_def and_then_def)
qed

text \<open>
  The theorem at \<^verbatim>\<open>1 ? 2 and 1 ? 1\<close>: the second condition is evaluated, to true, and the
  group is false.
\<close>

theorem conditions_folded_witness:
  "fst (visit (visit_condition ideal_host (eval_expr ideal_host 3) (Condition (num_lit ''1'') ''?'' (num_lit ''2'')))
          (initial_state [])) = Done False
   \<and> fst (visit_children (visit_condition ideal_host (eval_expr ideal_host 3))
            [(Logic_op [], Condition (num_lit ''1'') ''?'' (num_lit ''1''))]
            (snd (visit (visit_condition ideal_host (eval_expr ideal_host 3)
                           (Condition (num_lit ''1'') ''?'' (num_lit ''2'')))
                    (initial_state []))))
       = Done [(''and'', True)]
   \<and> fst (visit_conditions (visit_condition ideal_host (eval_expr ideal_host 3)) false_and_true
            (initial_state [])) = Done False"
proof -
  let ?vc = "visit_condition ideal_host (eval_expr ideal_host 3)"
  let ?c = "Condition (num_lit ''1'') ''?'' (num_lit ''2'')"
  let ?rest = "[(Logic_op [], Condition (num_lit ''1'') ''?'' (num_lit ''1''))]"
  let ?s0 = "snd (visit (?vc ?c) (initial_state []))"
  let ?s1 = "snd (visit_children ?vc ?rest ?s0)"
  have a1: "fst (visit (?vc ?c) (initial_state [])) = Done False"
    by code_simp
  have b1: "fst (visit_children ?vc ?rest ?s0) = Done [(''and'', True)]"
    by code_simp
  have a: "visit (?vc ?c) (initial_state []) = (Done False, ?s0)"
    using a1 by (simp add: prod_eq_iff)
  have b: "visit_children ?vc ?rest ?s0 = (Done [(''and'', True)], ?s1)"
    using b1 by (simp add: prod_eq_iff)
  have c: "list_all (\<lambda>(node, c). node = Logic_op []) ?rest"
    by simp
  from conditions_evaluated_then_folded [OF a b c] a1 b1 show ?thesis
    by (simp add: false_and_true_def)
qed

text \<open>
  Evaluation is not cut short: in \<^verbatim>\<open>1 ? 2 and y ? 1\<close> the first condition is false, and
  the second is evaluated all the same, which records that \<^verbatim>\<open>y\<close> is not defined.
\<close>

theorem eager_conditions_counterexample:
  "fst (visit (visit_condition ideal_host (eval_expr ideal_host 3) (Condition (num_lit ''1'') ''?'' (num_lit ''2'')))
          (initial_state [])) = Done False
   \<and> fst (visit_conditions (visit_condition ideal_host (eval_expr ideal_host 3)) false_and_undefined
            (initial_state [])) = Done False
   \<and> errors (snd (visit_conditions (visit_condition ideal_host (eval_expr ideal_host 3)) false_and_undefined
                    (initial_state [])))
       = [format_error (''Variable '' @ quoted ''y'' @ '' not defined'')]"
  by code_simp

section \<open>Claim C5: redefinition\<close>




section \<open>Claim C6: division by zero\<close>

text \<open>
  C6, as the code has it. When the right operand of a \<^verbatim>\<open>/\<close> evaluates to zero,
  \<^verbatim>\<open>visit_term\<close> records the error \<^verbatim>\<open>Division by zero\<close> and returns 0 at once, whatever
  operators follow in the term: the term's value is 0, nothing is raised, and the
  statements after it run.
\<close>

theorem division_by_zero_yields_zero:
  assumes "visit (vf f) s = (Done right, s1)" and "is_zero H right"
  shows "term_loop H vf left ((''/'', f) # rest) s = (Done (VInt 0), add_error ''Division by zero'' s1)
         \<and> format_error ''Division by zero'' \<in> set (errors (add_error ''Division by zero'' s1))"
  using assms by (simp add: add_error_def)

text \<open>
  The theorem at \<^verbatim>\<open>5 / 0\<close>; and the run of \<^verbatim>\<open>x -> 5 / 0\<close>, \<^verbatim>\<open>y -> 1\<close>, where both
  assignments take place.
\<close>

theorem division_by_zero_witness:
  "visit (eval_factor ideal_host (Suc 0) (NUMBER ''0'')) (initial_state []) = (Done (VInt 0), initial_state [])
   \<and> is_zero ideal_host (VInt 0)
   \<and> fst (term_loop ideal_host (eval_factor ideal_host (Suc 0)) (VInt 5) [(''/'', NUMBER ''0'')] (initial_state []))
       = Done (VInt 0)
   \<and> var_of (run_program 6 division_then_assignment) ''x'' = Some (VInt 0)
   \<and> var_of (run_program 6 division_then_assignment) ''y'' = Some (VInt 1)"
proof -
  have a: "visit (eval_factor ideal_host (Suc 0) (NUMBER ''0'')) (initial_state [])
             = (Done (VInt 0), initial_state [])"
    by (simp add: visit_def visit_factor_def visit_NUMBER_def py_int_of_str_def isdigit_def
          is_digit_def nat_of_digits_def digit_val_def)
  have b: "is_zero ideal_host (VInt 0)" by simp
  have c: "var_of (run_program 6 division_then_assignment) ''x'' = Some (VInt 0)
           \<and> var_of (run_program 6 division_then_assignment) ''y'' = Some (VInt 1)"
    by code_simp
  from division_by_zero_yields_zero
         [where vf = "eval_factor ideal_host (Suc 0)" and f = "NUMBER ''0''" and H = ideal_host
            and left = "VInt 5" and rest = "[]", OF a b]
       a b c
  show ?thesis by simp
qed

text \<open>
  The enclosing expression does not take the value 0: \<^verbatim>\<open>1 + 5 / 0\<close> evaluates to 1, with
  the error recorded.
\<close>

theorem sum_with_division_counterexample:
  "fst (eval_expr ideal_host 4 sum_with_division (initial_state [])) = Done (VInt 1)
   \<and> errors (snd (eval_expr ideal_host 4 sum_with_division (initial_state [])))
       = [format_error ''Division by zero'']"
  by code_simp

section \<open>Claim C7: the operators by operand kind\<close>

text \<open>
  C7, as the code has it. \<^verbatim>\<open>visit_expr\<close> and \<^verbatim>\<open>visit_term\<close> apply Python's operators to
  the two operand values, \<open>left\<close> and the value \<open>right\<close> of the next operand, without
  looking at their types first.
  \<^item> \<^verbatim>\<open>+\<close>: if either operand is a string, the two string forms are concatenated; two
    numbers are added (as integers, or as floats when one is a float); two lists are
    concatenated; a list plus anything else raises the type error that a list can
    only be concatenated with a list, and every other pair the type error of
    unsupported operands.
  \<^item> \<^verbatim>\<open>-\<close>: raises the type error unless both operands are numbers.
  \<^item> \<^verbatim>\<open>/\<close>: unless both operands are numbers, raises the type error, except that a right
    operand equal to zero is the division by zero (error recorded, result 0).
  \<^item> \<^verbatim>\<open>*\<close>: a string or a list times an integer, in either order, is the repetition
    (an overflow error when the count does not fit a machine index); a string or a
    list times anything else raises the type error that a sequence cannot be multiplied
    by a non-int, which names the type of the other operand; every other pair that is
    not two numbers raises the type error of unsupported operands.
\<close>

theorem operators_by_operand_kind:
  assumes "visit (vt t) s = (Done right, s1)" and "visit (vf f) s = (Done right, s1)"
  shows "(is_str left \<or> is_str right \<longrightarrow>
            expr_loop H vt left ((''+'', t) # rest) s
              = expr_loop H vt (VStr (py_str H left @ py_str H right)) rest s1)
       \<and> (is_number left \<and> is_number right \<longrightarrow>
            expr_loop H vt left ((''+'', t) # rest) s
              = lift_op (case (left, right) of
                           (VInt a, VInt b) \<Rightarrow> Inr (VInt (a + b))
                         | _ \<Rightarrow> float_op H (float_add H) (as_float H left) (as_float H right))
                  (\<lambda>v. expr_loop H vt v rest) s1)
       \<and> (\<not> is_str left \<and> \<not> is_str right \<and> \<not> (is_number left \<and> is_number right) \<longrightarrow>
            expr_loop H vt left ((''+'', t) # rest) s
              = (case left of
                   VList xs \<Rightarrow>
                     (case right of
                        VList ys \<Rightarrow> expr_loop H vt (VList (xs @ ys)) rest s1
                      | _ \<Rightarrow> (Raised (concat_msg ''list'' right), s1))
                 | _ \<Rightarrow> (Raised (unsupported ''+'' left right), s1)))
       \<and> (\<not> (is_number left \<and> is_number right) \<longrightarrow>
            expr_loop H vt left ((''-'', t) # rest) s = (Raised (unsupported ''-'' left right), s1))
       \<and> (\<not> (is_number left \<and> is_number right) \<longrightarrow>
            term_loop H vf left ((''/'', f) # rest0) s
              = (if is_zero H right then (Done (VInt 0), add_error ''Division by zero'' s1)
                 else (Raised (unsupported ''/'' left right), s1)))
       \<and> (\<not> (is_number left \<and> is_number right) \<longrightarrow>
            term_loop H vf left ((''*'', f) # rest0) s
              = (case left of
                   VStr x \<Rightarrow>
                     (case right of
                        VInt n \<Rightarrow>
                          if fits_index n then term_loop H vf (VStr (repeat_seq n x)) rest0 s1
                          else (Raised index_overflow_msg, s1)
                      | _ \<Rightarrow> (Raised (cant_multiply right), s1))
                 | VList xs \<Rightarrow>
                     (case right of
                        VInt n \<Rightarrow>
                          if fits_index n then term_loop H vf (VList (repeat_seq n xs)) rest0 s1
                          else (Raised index_overflow_msg, s1)
                      | _ \<Rightarrow> (Raised (cant_multiply right), s1))
                 | VInt n \<Rightarrow>
                     (case right of
                        VStr x \<Rightarrow>
                          if fits_index n then term_loop H vf (VStr (repeat_seq n x)) rest0 s1
                          else (Raised index_overflow_msg, s1)
                      | VList xs \<Rightarrow>
                          if fits_index n then term_loop H vf (VList (repeat_seq n xs)) rest0 s1
                          else (Raised index_overflow_msg, s1)
                      | _ \<Rightarrow> (Raised (unsupported ''*'' left right), s1))
                 | _ \<Rightarrow>
                     (case right of
                        VStr x \<Rightarrow> (Raised (cant_multiply left), s1)
                      | VList xs \<Rightarrow> (Raised (cant_multiply left), s1)
                      | _ \<Rightarrow> (Raised (unsupported ''*'' left right), s1))))"
proof (intro conjI impI)
  assume "is_str left \<or> is_str right"
  then show "expr_loop H vt left ((''+'', t) # rest) s
              = expr_loop H vt (VStr (py_str H left @ py_str H right)) rest s1"
    using assms(1) by simp
next
  assume n: "is_number left \<and> is_number right"
  then have "\<not> is_str left \<and> \<not> is_str right"
    by (cases left; cases right) simp_all
  then show "expr_loop H vt left ((''+'', t) # rest) s
              = lift_op (case (left, right) of
                           (VInt a, VInt b) \<Rightarrow> Inr (VInt (a + b))
                         | _ \<Rightarrow> float_op H (float_add H) (as_float H left) (as_float H right))
                  (\<lambda>v. expr_loop H vt v rest) s1"
    using assms(1) n py_add_numbers [of left right H] by simp
next
  assume a: "\<not> is_str left \<and> \<not> is_str right \<and> \<not> (is_number left \<and> is_number right)"
  then show "expr_loop H vt left ((''+'', t) # rest) s
              = (case left of
                   VList xs \<Rightarrow>
                     (case right of
                        VList ys \<Rightarrow> expr_loop H vt (VList (xs @ ys)) rest s1
                      | _ \<Rightarrow> (Raised (concat_msg ''list'' right), s1))
                 | _ \<Rightarrow> (Raised (unsupported ''+'' left right), s1))"
    using assms(1) by (cases left; cases right) (simp_all add: lift_op_def)
next
  assume "\<not> (is_number left \<and> is_number right)"
  then show "expr_loop H vt left ((''-'', t) # rest) s = (Raised (unsupported ''-'' left right), s1)"
    using assms(1) py_sub_non_numeric [of left right H] by (simp add: lift_op_def)
next
  assume "\<not> (is_number left \<and> is_number right)"
  then show "term_loop H vf left ((''/'', f) # rest0) s
              = (if is_zero H right then (Done (VInt 0), add_error ''Division by zero'' s1)
                 else (Raised (unsupported ''/'' left right), s1))"
    using assms(2) py_truediv_non_numeric [of left right H] by (simp add: lift_op_def)
next
  assume "\<not> (is_number left \<and> is_number right)"
  then show "term_loop H vf left ((''*'', f) # rest0) s
              = (case left of
                   VStr x \<Rightarrow>
                     (case right of
                        VInt n \<Rightarrow>
                          if fits_index n then term_loop H vf (VStr (repeat_seq n x)) rest0 s1
                          else (Raised index_overflow_msg, s1)
                      | _ \<Rightarrow> (Raised (cant_multiply right), s1))
                 | VList xs \<Rightarrow>
                     (case right of
                        VInt n \<Rightarrow>
                          if fits_index n then term_loop H vf (VList (repeat_seq n xs)) rest0 s1
                          else (Raised index_overflow_msg, s1)
                      | _ \<Rightarrow> (Raised (cant_multiply right), s1))
                 | VInt n \<Rightarrow>
                     (case right of
                        VStr x \<Rightarrow>
                          if fits_index n then term_loop H vf (VStr (repeat_seq n x)) rest0 s1
                          else (Raised index_overflow_msg, s1)
                      | VList xs \<Rightarrow>
                          if fits_index n then term_loop H vf (VList (repeat_seq n xs)) rest0 s1
                          else (Raised index_overflow_msg, s1)
                      | _ \<Rightarrow> (Raised (unsupported ''*'' left right), s1))
                 | _ \<Rightarrow>
                     (case right of
                        VStr x \<Rightarrow> (Raised (cant_multiply left), s1)
                      | VList xs \<Rightarrow> (Raised (cant_multiply left), s1)
                      | _ \<Rightarrow> (Raised (unsupported ''*'' left right), s1)))"
    using assms(2) by (cases left; cases right) (simp_all add: lift_op_def seq_repeat_def)
qed

text \<open>
  The theorem at the operands \<^verbatim>\<open>"a"\<close> and \<^verbatim>\<open>1\<close>, at \<^verbatim>\<open>2\<close> and \<^verbatim>\<open>1\<close>, at the list \<^verbatim>\<open>[2]\<close> and
  \<^verbatim>\<open>1\<close>, and at \<^verbatim>\<open>"a"\<close> and \<^verbatim>\<open>"b"\<close>: \<^verbatim>\<open>"a" + 1\<close> is \<^verbatim>\<open>"a1"\<close>, \<^verbatim>\<open>2 + 1\<close> is 3, \<^verbatim>\<open>"a" - 1\<close> and
  \<^verbatim>\<open>"a" / 1\<close> raise the type error of unsupported operands, \<^verbatim>\<open>[2] + 1\<close> and \<^verbatim>\<open>"a" * "b"\<close>
  raise the type errors of their own.
\<close>

theorem operators_by_operand_kind_witness:
  "visit (eval_term ideal_host 2 (Trm (NUMBER ''1'') [])) (initial_state [])
     = (Done (VInt 1), initial_state [])
   \<and> visit (eval_factor ideal_host 1 (NUMBER ''1'')) (initial_state []) = (Done (VInt 1), initial_state [])
   \<and> expr_loop ideal_host (eval_term ideal_host 2) (VStr ''a'') [(''+'', Trm (NUMBER ''1'') [])] (initial_state [])
       = (Done (VStr ''a1''), initial_state [])
   \<and> expr_loop ideal_host (eval_term ideal_host 2) (VInt 2) [(''+'', Trm (NUMBER ''1'') [])] (initial_state [])
       = (Done (VInt 3), initial_state [])
   \<and> expr_loop ideal_host (eval_term ideal_host 2) (VStr ''a'') [(''-'', Trm (NUMBER ''1'') [])] (initial_state [])
       = (Raised (unsupported ''-'' (VStr ''a'') (VInt 1 :: rat val)), initial_state [])
   \<and> term_loop ideal_host (eval_factor ideal_host 1) (VStr ''a'') [(''/'', NUMBER ''1'')] (initial_state [])
       = (Raised (unsupported ''/'' (VStr ''a'') (VInt 1 :: rat val)), initial_state [])
   \<and> term_loop ideal_host (eval_factor ideal_host 1) (VStr ''a'') [(''*'', NUMBER ''1'')] (initial_state [])
       = (Done (VStr ''a''), initial_state [])
   \<and> expr_loop ideal_host (eval_term ideal_host 2) (VList [VInt 2]) [(''+'', Trm (NUMBER ''1'') [])]
         (initial_state [])
       = (Raised (''can only concatenate list (not '' @ [CHR 0x22] @ ''int'' @ [CHR 0x22] @ '') to list''),
          initial_state [])
   \<and> term_loop ideal_host (eval_factor ideal_host 1) (VStr ''a'')
         [(''*'', STRING ([CHR 0x22] @ ''b'' @ [CHR 0x22]))] (initial_state [])
       = (Raised (''can'' @ [CHR 0x27] @ ''t multiply sequence by non-int of type '' @ quoted ''str''),
          initial_state [])"
proof -
  have a: "visit (eval_term ideal_host 2 (Trm (NUMBER ''1'') [])) (initial_state [])
             = (Done (VInt 1), initial_state [])"
    by (simp add: numeral_2_eq_2 visit_def visit_term_def and_then_def visit_factor_def visit_NUMBER_def
          py_int_of_str_def isdigit_def is_digit_def nat_of_digits_def digit_val_def)
  have b: "visit (eval_factor ideal_host 1 (NUMBER ''1'')) (initial_state [])
             = (Done (VInt 1), initial_state [])"
    by (simp add: visit_def visit_factor_def visit_NUMBER_def
          py_int_of_str_def isdigit_def is_digit_def nat_of_digits_def digit_val_def)
  have c: "visit (eval_term ideal_host 2 (Trm (STRING ([CHR 0x22] @ ''b'' @ [CHR 0x22])) [])) (initial_state [])
             = (Done (VStr ''b''), initial_state [])"
    by (simp add: numeral_2_eq_2 visit_def visit_term_def and_then_def visit_factor_def visit_STRING_def)
  have d: "visit (eval_factor ideal_host 1 (STRING ([CHR 0x22] @ ''b'' @ [CHR 0x22]))) (initial_state [])
             = (Done (VStr ''b''), initial_state [])"
    by (simp add: visit_def visit_factor_def visit_STRING_def)
  note text_case = operators_by_operand_kind
         [where vt = "eval_term ideal_host 2" and t = "Trm (NUMBER ''1'') []"
            and vf = "eval_factor ideal_host 1" and f = "NUMBER ''1''"
            and H = ideal_host and left = "VStr ''a''" and rest = "[]" and rest0 = "[]", OF a b]
  note number_case = operators_by_operand_kind
         [where vt = "eval_term ideal_host 2" and t = "Trm (NUMBER ''1'') []"
            and vf = "eval_factor ideal_host 1" and f = "NUMBER ''1''"
            and H = ideal_host and left = "VInt 2" and rest = "[]" and rest0 = "[]", OF a b]
  note list_case = operators_by_operand_kind
         [where vt = "eval_term ideal_host 2" and t = "Trm (NUMBER ''1'') []"
            and vf = "eval_factor ideal_host 1" and f = "NUMBER ''1''"
            and H = ideal_host and left = "VList [VInt 2]" and rest = "[]" and rest0 = "[]", OF a b]
  note texts_case = operators_by_operand_kind
         [where vt = "eval_term ideal_host 2" and t = "Trm (STRING ([CHR 0x22] @ ''b'' @ [CHR 0x22])) []"
            and vf = "eval_factor ideal_host 1" and f = "STRING ([CHR 0x22] @ ''b'' @ [CHR 0x22])"
            and H = ideal_host and left = "VStr ''a''" and rest = "[]" and rest0 = "[]", OF c d]
  have str1: "py_str ideal_host (VInt 1) = ''1''" by code_simp
  have str2: "py_str ideal_host (VStr ''a'') = ''a''" by code_simp
  have m1: "concat_msg ''list'' (VInt 1 :: rat val)
              = ''can only concatenate list (not '' @ [CHR 0x22] @ ''int'' @ [CHR 0x22] @ '') to list''"
    by (simp add: concat_msg_def)
  have m2: "cant_multiply (VStr ''b'' :: rat val)
              = ''can'' @ [CHR 0x27] @ ''t multiply sequence by non-int of type '' @ quoted ''str''"
    by (simp add: cant_multiply_def quoted_def)
  from list_case m1 have l: "expr_loop ideal_host (eval_term ideal_host 2) (VList [VInt 2])
         [(''+'', Trm (NUMBER ''1'') [])] (initial_state [])
       = (Raised (''can only concatenate list (not '' @ [CHR 0x22] @ ''int'' @ [CHR 0x22] @ '') to list''),
          initial_state [])"
    by simp
  from texts_case m2 have t: "term_loop ideal_host (eval_factor ideal_host 1) (VStr ''a'')
         [(''*'', STRING ([CHR 0x22] @ ''b'' @ [CHR 0x22]))] (initial_state [])
       = (Raised (''can'' @ [CHR 0x27] @ ''t multiply sequence by non-int of type '' @ quoted ''str''),
          initial_state [])"
    by simp
  from text_case number_case a b str1 str2 l t show ?thesis
    by (simp add: lift_op_def repeat_seq_def seq_repeat_def fits_index_def)
qed

text \<open>
  \<^verbatim>\<open>*\<close> does not require numbers: \<^verbatim>\<open>"ab" * 3\<close> evaluates to \<^verbatim>\<open>"ababab"\<close> and records no
  error.
\<close>

theorem text_times_int_counterexample:
  "fst (eval_term ideal_host 3 text_times_int (initial_state [])) = Done (VStr ''ababab'')
   \<and> errors (snd (eval_term ideal_host 3 text_times_int (initial_state []))) = []"
  by code_simp

section \<open>Claim C8: \<^verbatim>\<open>rep.stop\<close>\<close>

text \<open>
  C8. \<^verbatim>\<open>rep.stop\<close> sets \<^verbatim>\<open>should_break\<close> and changes nothing else. Let an iteration of an
  \<^verbatim>\<open>Again\<close> loop start in a state \<open>s\<close>, bind the index, and run the statements \<open>pre\<close> of
  the body without setting a flag; let the next statement \<open>st\<close> of the body (\<^verbatim>\<open>rep.stop\<close>
  itself, or a statement around it such as a \<^verbatim>\<open>Cause\<close>) end in a state \<open>s3\<close> where
  \<^verbatim>\<open>should_break\<close> is set. Then
  \<^item> the block ends in \<open>s3\<close>: the statements \<open>post\<close> after \<open>st\<close> are not run;
  \<^item> the loop ends in \<open>s3\<close> too, however many iterations \<open>Suc k\<close> were left;
  \<^item> the \<^verbatim>\<open>Again\<close> statement, whatever its count, ends in \<open>s3\<close> with the index name popped
    and \<^verbatim>\<open>should_break\<close> cleared, so the flag does not reach the statements after the loop.
\<close>

theorem rep_stop_halts_loop:
  assumes "\<not> should_break s"
      and "visit_block (exec_statement H (Suc n)) pre (bind_repeat_var repeat_var i s) = (Done (), s2)"
      and "\<not> should_return s2" and "\<not> should_break s2"
      and "visit (exec_statement H (Suc n) st) s2 = (Done (), s3)" and "should_break s3"
  shows "visit (exec_statement H (Suc n) Rep_stop) s2 = (Done (), s2\<lparr>should_break := True\<rparr>)
       \<and> exec_block H (Suc (Suc n)) (pre @ st # post) (bind_repeat_var repeat_var i s) = (Done (), s3)
       \<and> again_loop (exec_block H (Suc (Suc n))) repeat_var (pre @ st # post) i (Suc k) s = (Done (), s3)
       \<and> (\<forall>ve e cnt c s0 sc.
             visit (ve e) s0 = (Done cnt, sc) \<and> s = sc\<lparr>should_break := False\<rparr>
               \<and> is_number cnt \<and> \<not> is_negative H cnt
               \<and> int_of_number H cnt = Some c \<and> nat c = Suc k \<and> i = 0 \<longrightarrow>
             visit_again_stmt H ve (exec_block H (Suc (Suc n))) e repeat_var (pre @ st # post) s0
               = (Done (), (pop_repeat_var repeat_var s3)\<lparr>should_break := False\<rparr>))"
proof -
  have stop: "visit (exec_statement H (Suc n) Rep_stop) s2 = (Done (), s2\<lparr>should_break := True\<rparr>)"
    by (rule exec_rep_stop)
  have blk: "exec_block H (Suc (Suc n)) (pre @ st # post) (bind_repeat_var repeat_var i s) = (Done (), s3)"
    using assms(2,3,4,5,6) visit_block_skipped [of s3 "exec_statement H (Suc n)" post]
    by (simp add: visit_block_append)
  have loop: "again_loop (exec_block H (Suc (Suc n))) repeat_var (pre @ st # post) i (Suc k) s
           = (Done (), s3)"
    using assms(1,6) blk by simp
  have stmt: "visit_again_stmt H ve (exec_block H (Suc (Suc n))) e repeat_var (pre @ st # post) s0
               = (Done (), (pop_repeat_var repeat_var s3)\<lparr>should_break := False\<rparr>)"
    if "visit (ve e) s0 = (Done cnt, sc)" and "s = sc\<lparr>should_break := False\<rparr>"
      and "is_number cnt" and "\<not> is_negative H cnt"
      and "int_of_number H cnt = Some c" and "nat c = Suc k" and "i = 0"
    for ve e cnt c s0 sc
    using that loop by (simp add: visit_again_stmt_def and_then_def del: again_loop.simps)
  show ?thesis
    using stop blk loop stmt by blast
qed

text \<open>
  The theorem at \<^verbatim>\<open>Again(1000, i) [ rep.stop  x -> 1 ]\<close> in the state of a fresh checker: the
  statement ends with the flag cleared, \<^verbatim>\<open>x\<close> was never assigned and \<^verbatim>\<open>i\<close> is popped.
\<close>

theorem rep_stop_halts_loop_witness:
  "visit (eval_expr ideal_host 3 (num_lit ''1000'')) (initial_state []) = (Done (VInt 1000), initial_state [])
   \<and> fst (visit_again_stmt ideal_host (eval_expr ideal_host 3) (exec_block ideal_host 3)
            (num_lit ''1000'') (Some ''i'') [Rep_stop, Assignment ''x'' (num_lit ''1'')] (initial_state []))
       = Done ()
   \<and> \<not> should_break (snd (visit_again_stmt ideal_host (eval_expr ideal_host 3) (exec_block ideal_host 3)
            (num_lit ''1000'') (Some ''i'') [Rep_stop, Assignment ''x'' (num_lit ''1'')] (initial_state [])))
   \<and> var_of (snd (visit_again_stmt ideal_host (eval_expr ideal_host 3) (exec_block ideal_host 3)
            (num_lit ''1000'') (Some ''i'') [Rep_stop, Assignment ''x'' (num_lit ''1'')] (initial_state []))) ''x''
       = None
   \<and> var_of (snd (visit_again_stmt ideal_host (eval_expr ideal_host 3) (exec_block ideal_host 3)
            (num_lit ''1000'') (Some ''i'') [Rep_stop, Assignment ''x'' (num_lit ''1'')] (initial_state []))) ''i''
       = None"
proof -
  let ?s = "initial_state [] :: rat state"
  let ?s2 = "bind_repeat_var (Some ''i'') 0 ?s"
  have a: "visit (eval_expr ideal_host 3 (num_lit ''1000'')) ?s = (Done (VInt 1000), ?s)"
    by (simp add: numeral_3_eq_3 num_lit_def visit_def visit_expr_def visit_term_def and_then_def
          visit_factor_def visit_NUMBER_def py_int_of_str_def isdigit_def is_digit_def
          nat_of_digits_def digit_val_def)
  have s: "?s = ?s\<lparr>should_break := False\<rparr>" and nb: "\<not> should_break ?s"
    by (simp_all add: initial_state_def)
  have pre: "visit_block (exec_statement ideal_host (Suc 1)) [] ?s2 = (Done (), ?s2)"
    by simp
  have flags: "\<not> should_return ?s2" "\<not> should_break ?s2"
    by (simp_all add: bind_repeat_var_def truthy_def initial_state_def)
  have stop: "visit (exec_statement ideal_host (Suc 1) Rep_stop) ?s2 = (Done (), ?s2\<lparr>should_break := True\<rparr>)"
    by (rule exec_rep_stop)
  have sb: "should_break (?s2\<lparr>should_break := True\<rparr>)"
    by simp
  have d: "is_defined (envs (?s2\<lparr>should_break := True\<rparr>)) (env (?s2\<lparr>should_break := True\<rparr>)) ''i''"
    by (subst is_defined.simps) (simp add: bind_repeat_var_def truthy_def define_var_def)
  have prem: "visit (eval_expr ideal_host 3 (num_lit ''1000'')) ?s = (Done (VInt 1000), ?s)
               \<and> ?s = ?s\<lparr>should_break := False\<rparr>
               \<and> is_number (VInt 1000 :: rat val) \<and> \<not> is_negative ideal_host (VInt 1000)
               \<and> int_of_number ideal_host (VInt 1000) = Some 1000 \<and> nat 1000 = Suc 999 \<and> (0::nat) = 0"
    by (intro conjI; (rule a | rule s | simp))
  note loop = rep_stop_halts_loop
         [where H = ideal_host and n = 1 and pre = "[]" and st = Rep_stop and repeat_var = "Some ''i''"
            and i = 0 and k = 999 and post = "[Assignment ''x'' (num_lit ''1'')]",
          OF nb pre flags stop sb]
  from loop [THEN conjunct2, THEN conjunct2, THEN conjunct2, rule_format,
             where ve = "eval_expr ideal_host 3" and e = "num_lit ''1000''", OF prem]
  have r: "visit_again_stmt ideal_host (eval_expr ideal_host 3) (exec_block ideal_host 3)
             (num_lit ''1000'') (Some ''i'') [Rep_stop, Assignment ''x'' (num_lit ''1'')] ?s
           = (Done (), (pop_repeat_var (Some ''i'') (?s2\<lparr>should_break := True\<rparr>))\<lparr>should_break := False\<rparr>)"
    by (simp add: numeral_3_eq_3)
  from d have p: "variables (envs (pop_repeat_var (Some ''i'') (?s2\<lparr>should_break := True\<rparr>)) 0)
                  = (variables (envs ?s 0))(''i'' := None)"
    by (simp add: pop_repeat_var_def truthy_def bind_repeat_var_def define_var_def initial_state_def)
  have x: "variables (envs ?s 0) ''x'' = None"
    by (simp add: initial_state_def builtin_env_def)
  from a r p x show ?thesis
    by (simp add: var_of_def)
qed

section \<open>Claim C9: a loop of zero iterations\<close>

text \<open>
  C9, as the code has it. When the count of an \<^verbatim>\<open>Again\<close> loop evaluates to a number that
  truncates to 0, the block is not run: the statement ends in the state \<open>s0\<close> reached by
  evaluating the count, but for \<^verbatim>\<open>should_break\<close>, cleared, and for the index name, popped
  from the variables of the current environment when it is defined. So no constant, no
  function, no parent link and no variable of another name changes; without an index
  name no binding changes at all; and a variable that has the index's name and is
  visible from the current environment is no longer among the current environment's
  variables, although the loop never bound it.
\<close>

theorem zero_loop_frame:
  assumes "visit (ve times_expr) s = (Done cnt, s0)"
      and "is_number cnt" and "\<not> is_negative H cnt"
      and "int_of_number H cnt = Some n" and "nat n = 0"
      and "s' = (pop_repeat_var repeat_var (s0\<lparr>should_break := False\<rparr>))\<lparr>should_break := False\<rparr>"
  shows "visit_again_stmt H ve vb times_expr repeat_var block_node s = (Done (), s')
       \<and> (\<forall>j. constants (envs s' j) = constants (envs s0 j)
              \<and> funcs (envs s' j) = funcs (envs s0 j)
              \<and> parent (envs s' j) = parent (envs s0 j))
       \<and> (\<forall>j x. j \<noteq> env s0 \<or> Some x \<noteq> repeat_var \<longrightarrow> variables (envs s' j) x = variables (envs s0 j) x)
       \<and> (repeat_var = None \<longrightarrow> envs s' = envs s0)
       \<and> (\<forall>x. repeat_var = Some x \<and> x \<noteq> [] \<and> is_defined (envs s0) (env s0) x
              \<longrightarrow> variables (envs s' (env s0)) x = None)"
  using assms
  by (auto simp: visit_again_stmt_def and_then_def pop_repeat_var_def truthy_def split: option.splits)

text \<open>
  The theorem at \<^verbatim>\<open>Again(0, now) [ rep.stop ]\<close> in the state of a fresh checker, where
  \<^verbatim>\<open>now\<close> is one of the built-in objects: the block is not run, the built-in \<^verbatim>\<open>rep\<close> is
  what it was and \<^verbatim>\<open>now\<close> is gone.
\<close>

theorem zero_loop_frame_witness:
  "visit (eval_expr ideal_host 3 (num_lit ''0'')) (initial_state []) = (Done (VInt 0), initial_state [])
   \<and> fst (visit_again_stmt ideal_host (eval_expr ideal_host 3) (exec_block ideal_host 3)
            (num_lit ''0'') (Some ''now'') [Rep_stop] (initial_state [])) = Done ()
   \<and> \<not> should_break (snd (visit_again_stmt ideal_host (eval_expr ideal_host 3) (exec_block ideal_host 3)
            (num_lit ''0'') (Some ''now'') [Rep_stop] (initial_state [])))
   \<and> var_of (snd (visit_again_stmt ideal_host (eval_expr ideal_host 3) (exec_block ideal_host 3)
            (num_lit ''0'') (Some ''now'') [Rep_stop] (initial_state []))) ''rep''
       = var_of (initial_state []) ''rep''
   \<and> var_of (initial_state []) ''now'' = Some (VDict [(''repeat'', VStr ''now.repeat'')])
   \<and> var_of (snd (visit_again_stmt ideal_host (eval_expr ideal_host 3) (exec_block ideal_host 3)
            (num_lit ''0'') (Some ''now'') [Rep_stop] (initial_state []))) ''now'' = None"
proof -
  have a: "visit (eval_expr ideal_host 3 (num_lit ''0'')) (initial_state [])
             = (Done (VInt 0), initial_state [])"
    by (simp add: numeral_3_eq_3 num_lit_def visit_def visit_expr_def visit_term_def and_then_def
          visit_factor_def visit_NUMBER_def py_int_of_str_def isdigit_def is_digit_def
          nat_of_digits_def digit_val_def)
  have d: "is_defined (envs (initial_state [] :: rat state)) (env (initial_state [] :: rat state)) ''now''"
    by (subst is_defined.simps) (simp add: initial_state_def builtin_env_def)
  have e: "env (initial_state [] :: rat state) = 0"
    by (simp add: initial_state_def)
  have v: "var_of (initial_state []) ''now'' = Some (VDict [(''repeat'', VStr ''now.repeat'')])"
    by (simp add: var_of_def initial_state_def builtin_env_def)
  from zero_loop_frame
         [where ve = "eval_expr ideal_host 3" and times_expr = "num_lit ''0''" and H = ideal_host
            and vb = "exec_block ideal_host 3" and repeat_var = "Some ''now''"
            and block_node = "[Rep_stop]" and n = 0, OF a _ _ _ _ refl]
       a d e v
  show ?thesis by (simp add: var_of_def)
qed

text \<open>
  A binding that existed before the loop is removed: after \<^verbatim>\<open>i -> 5\<close> the variable \<^verbatim>\<open>i\<close> is
  5, after \<^verbatim>\<open>i -> 5\<close> and \<^verbatim>\<open>Again(0, i) [ ]\<close> it is not defined, and no error is recorded.
\<close>

theorem zero_loop_counterexample:
  "var_of (run_program 6 [Assignment ''i'' (num_lit ''5'')]) ''i'' = Some (VInt 5)
   \<and> var_of (run_program 6 zero_loop_prog) ''i'' = None
   \<and> errors (run_program 6 zero_loop_prog) = []"
  by code_simp

section \<open>Claim C10: a return outside any function\<close>

text \<open>
  C10. \<^verbatim>\<open>back.value\<close> sets \<^verbatim>\<open>should_return\<close>. Outside a function call nothing clears it:
  from a state \<open>s\<close> where it is set,
  \<^item> every statement and the whole loop of \<^verbatim>\<open>execute\<close> end with it set;
  \<^item> the loop of \<^verbatim>\<open>execute\<close> does not look at it: it visits the next statement and goes on
    with the rest; it steps over a NEWLINE token and goes on with the rest; and after
    any children \<open>pre\<close> it goes on with the children \<open>post\<close> that follow them, so that every
    later statement is visited, each in the state the children before it have left (an
    exception of a statement is recorded and does not stop the loop);
  \<^item> a block runs none of its statements, so a \<^verbatim>\<open>Cause\<close> statement only evaluates its
    conditions, and an \<^verbatim>\<open>Again\<close> statement only evaluates its count and binds the index
    for each iteration, ending with the index popped;
  \<^item> a function call runs the body with the flag cleared, and sets it again afterwards.
\<close>

theorem top_level_return_stays_set:
  assumes "should_return (s :: 'f state)"
  shows "(\<forall>ve e v (s0 :: 'f state) s1. visit (ve e) s0 = (Done v, s1) \<longrightarrow>
            visit_back_stmt ve (Some e) s0 = (Done (), s1\<lparr>return_value := v, should_return := True\<rparr>))
       \<and> (\<forall>ve (s0 :: 'f state). visit_back_stmt ve None s0 = (Done (), s0\<lparr>return_value := VNone, should_return := True\<rparr>))
       \<and> should_return (snd (exec_statement H n st s))
       \<and> should_return (snd (execute_loop H n i items s))
       \<and> (\<forall>line s1. visit (exec_statement H n st)
                        (s\<lparr>current_line_num := (case line of Some l \<Rightarrow> l | None \<Rightarrow> i + 1)\<rparr>) = (Done (), s1) \<longrightarrow>
            execute_loop H n i (Top_statement line st # items) s = execute_loop H n (Suc i) items s1)
       \<and> (\<forall>line e s1. visit (exec_statement H n st)
                          (s\<lparr>current_line_num := (case line of Some l \<Rightarrow> l | None \<Rightarrow> i + 1)\<rparr>)
                        = (Raised e, s1) \<longrightarrow>
            execute_loop H n i (Top_statement line st # items) s
              = execute_loop H n (Suc i) items (if \<not> has_marker e then add_error e s1 else s1))
       \<and> execute_loop H n i (Top_newline # items) s
            = execute_loop H n (Suc i) items (s\<lparr>current_line_num := i + 1\<rparr>)
       \<and> (\<forall>pre post s1. execute_loop H n i pre s = (Done (), s1) \<longrightarrow>
            should_return s1
            \<and> execute_loop H n i (pre @ post) s = execute_loop H n (i + length pre) post s1)
       \<and> (\<forall>e. fst (execute_loop H n i items s) \<noteq> Raised e)
       \<and> exec_block H (Suc n) b s = (Done (), s)
       \<and> (\<forall>c r s1 if_block or_block.
            visit (visit_conditions (visit_condition H (eval_expr H (Suc n))) c) s = (Done r, s1) \<longrightarrow>
            exec_statement H (Suc (Suc n)) (Cause_stmt c if_block or_block) s = (Done (), s1))
       \<and> (\<forall>e cnt c s1 repeat_var.
            visit (eval_expr H (Suc n) e) s = (Done cnt, s1) \<and> is_number cnt \<and> \<not> is_negative H cnt
              \<and> int_of_number H cnt = Some c \<longrightarrow>
            exec_statement H (Suc (Suc n)) (Again_stmt e repeat_var b) s
              = (Done (),
                 (pop_repeat_var repeat_var
                    (if nat c = 0 then s1\<lparr>should_break := False\<rparr>
                     else bind_repeat_var repeat_var (nat c - 1) (s1\<lparr>should_break := False\<rparr>)))
                 \<lparr>should_break := False\<rparr>))
       \<and> \<not> should_return (enter_call fi bindings s)
       \<and> (\<forall>vb r s2. visit (vb (body fi)) (enter_call fi bindings s) = (r, s2) \<longrightarrow>
            snd (call_body vb fi bindings s) = leave_call s s2 \<and> should_return (leave_call s s2))"
proof -
  note inv = keeps_eval [OF stable_should_return]
  have back1: "visit_back_stmt ve (Some e) s0 = (Done (), s1\<lparr>return_value := v, should_return := True\<rparr>)"
    if "visit (ve e) s0 = (Done v, s1)" for ve :: "expr \<Rightarrow> ('f val, 'f) run" and e v s0 s1
    using that by (simp add: visit_back_stmt_def and_then_def)
  have back2: "visit_back_stmt ve None s0 = (Done (), s0\<lparr>return_value := VNone, should_return := True\<rparr>)"
    for ve :: "expr \<Rightarrow> ('f val, 'f) run" and s0
    by (simp add: visit_back_stmt_def)
  have stmt: "should_return (snd (exec_statement H n st s))"
    using inv [where H = H and n = n] assms by (simp add: keeps_def)
  have run: "should_return (snd (execute_loop H n i items s))"
    using keeps_execute_loop [OF stable_should_return, where H = H and n = n and i = i and items = items and s = s] assms by (simp add: keeps_def)
  have nxt: "execute_loop H n i (Top_statement line st # items) s = execute_loop H n (Suc i) items s1"
    if "visit (exec_statement H n st)
          (s\<lparr>current_line_num := (case line of Some l \<Rightarrow> l | None \<Rightarrow> i + 1)\<rparr>) = (Done (), s1)"
    for line s1
    using that by simp
  have exc: "execute_loop H n i (Top_statement line st # items) s
              = execute_loop H n (Suc i) items (if \<not> has_marker e then add_error e s1 else s1)"
    if "visit (exec_statement H n st)
          (s\<lparr>current_line_num := (case line of Some l \<Rightarrow> l | None \<Rightarrow> i + 1)\<rparr>) = (Raised e, s1)"
    for line e s1
    using that by simp
  have newline: "execute_loop H n i (Top_newline # items) s
                   = execute_loop H n (Suc i) items (s\<lparr>current_line_num := i + 1\<rparr>)"
    by simp
  have parts: "should_return s1
               \<and> execute_loop H n i (pre @ post) s = execute_loop H n (i + length pre) post s1"
    if p: "execute_loop H n i pre s = (Done (), s1)" for pre post s1
  proof -
    from keeps_execute_loop [OF stable_should_return, where H = H and n = n and i = i
                               and items = pre and s = s] assms p
    have "should_return s1" by simp
    with p show ?thesis by (simp add: execute_loop_append)
  qed
  have total: "fst (execute_loop H n i items s) \<noteq> Raised e" for e
    by (rule execute_loop_not_raised)
  have skip: "exec_block H (Suc m) b' s' = (Done (), s')" if "should_return s'" for m b' s'
    using that by (simp add: visit_block_skipped)
  have cause: "exec_statement H (Suc (Suc n)) (Cause_stmt c if_block or_block) s = (Done (), s1)"
    if c: "visit (visit_conditions (visit_condition H (eval_expr H (Suc n))) c) s = (Done r, s1)"
    for c r s1 if_block or_block
  proof -
    have "keeps should_return (visit_conditions (visit_condition H (eval_expr H (Suc n))) c)"
      using inv [where H = H and n = "Suc n"]
      by (intro keeps_visit_conditions keeps_visit_condition stable_should_return) simp
    from krD [OF keeps_visit [OF this] c assms] have r1: "should_return s1" .
    from c skip [OF r1] show ?thesis
      by (simp add: visit_statement_def visit_cause_stmt_def and_then_def visit_def
               split: option.splits)
  qed
  have again: "exec_statement H (Suc (Suc n)) (Again_stmt e repeat_var b) s
              = (Done (),
                 (pop_repeat_var repeat_var
                    (if nat c = 0 then s1\<lparr>should_break := False\<rparr>
                     else bind_repeat_var repeat_var (nat c - 1) (s1\<lparr>should_break := False\<rparr>)))
                 \<lparr>should_break := False\<rparr>)"
    if e: "visit (eval_expr H (Suc n) e) s = (Done cnt, s1)" and num: "is_number cnt" "\<not> is_negative H cnt"
      and c: "int_of_number H cnt = Some c"
    for e cnt c s1 repeat_var
  proof -
    have "keeps should_return (eval_expr H (Suc n) e)"
      using inv [where H = H and n = "Suc n"] by simp
    from krD [OF keeps_visit [OF this] e assms] have r1: "should_return (s1\<lparr>should_break := False\<rparr>)"
      by simp
    have nb: "\<not> should_break (s1\<lparr>should_break := False\<rparr>)" by simp
    have loop: "again_loop (exec_block H (Suc n)) repeat_var b 0 (nat c) (s1\<lparr>should_break := False\<rparr>)
                = (Done (), if nat c = 0 then s1\<lparr>should_break := False\<rparr>
                            else bind_repeat_var repeat_var (0 + nat c - 1) (s1\<lparr>should_break := False\<rparr>))"
      by (rule again_loop_skipped [OF skip r1 nb])
    from e num c loop show ?thesis
      by (simp add: visit_statement_def visit_again_stmt_def and_then_def visit_def
               del: again_loop.simps)
  qed
  have enter: "\<not> should_return (enter_call fi bindings s)"
    by (simp add: enter_call_def Let_def)
  have leave: "snd (call_body vb fi bindings s) = leave_call s s2 \<and> should_return (leave_call s s2)"
    if "visit (vb (body fi)) (enter_call fi bindings s) = (r, s2)" for vb r s2
    using that assms by (cases r) (simp_all add: call_body_def leave_call_def)
  have p1: "(\<forall>ve e v (s0 :: 'f state) s1. visit (ve e) s0 = (Done v, s1) \<longrightarrow>
            visit_back_stmt ve (Some e) s0 = (Done (), s1\<lparr>return_value := v, should_return := True\<rparr>))
       \<and> (\<forall>ve (s0 :: 'f state). visit_back_stmt ve None s0 =
              (Done (), s0\<lparr>return_value := VNone, should_return := True\<rparr>))
       \<and> should_return (snd (exec_statement H n st s))
       \<and> should_return (snd (execute_loop H n i items s))
       \<and> (\<forall>line s1. visit (exec_statement H n st)
                        (s\<lparr>current_line_num := (case line of Some l \<Rightarrow> l | None \<Rightarrow> i + 1)\<rparr>) = (Done (), s1) \<longrightarrow>
            execute_loop H n i (Top_statement line st # items) s = execute_loop H n (Suc i) items s1)"
    using back1 back2 stmt run nxt by blast
  have p2: "(\<forall>line e s1. visit (exec_statement H n st)
                          (s\<lparr>current_line_num := (case line of Some l \<Rightarrow> l | None \<Rightarrow> i + 1)\<rparr>)
                        = (Raised e, s1) \<longrightarrow>
            execute_loop H n i (Top_statement line st # items) s
              = execute_loop H n (Suc i) items (if \<not> has_marker e then add_error e s1 else s1))
       \<and> execute_loop H n i (Top_newline # items) s
            = execute_loop H n (Suc i) items (s\<lparr>current_line_num := i + 1\<rparr>)
       \<and> (\<forall>pre post s1. execute_loop H n i pre s = (Done (), s1) \<longrightarrow>
            should_return s1
            \<and> execute_loop H n i (pre @ post) s = execute_loop H n (i + length pre) post s1)
       \<and> (\<forall>e. fst (execute_loop H n i items s) \<noteq> Raised e)"
    using exc newline parts total by blast
  have p3: "exec_block H (Suc n) b s = (Done (), s)
       \<and> (\<forall>c r s1 if_block or_block.
            visit (visit_conditions (visit_condition H (eval_expr H (Suc n))) c) s = (Done r, s1) \<longrightarrow>
            exec_statement H (Suc (Suc n)) (Cause_stmt c if_block or_block) s = (Done (), s1))
       \<and> (\<forall>e cnt c s1 repeat_var.
            visit (eval_expr H (Suc n) e) s = (Done cnt, s1) \<and> is_number cnt \<and> \<not> is_negative H cnt
              \<and> int_of_number H cnt = Some c \<longrightarrow>
            exec_statement H (Suc (Suc n)) (Again_stmt e repeat_var b) s
              = (Done (),
                 (pop_repeat_var repeat_var
                    (if nat c = 0 then s1\<lparr>should_break := False\<rparr>
                     else bind_repeat_var repeat_var (nat c - 1) (s1\<lparr>should_break := False\<rparr>)))
                 \<lparr>should_break := False\<rparr>))
       \<and> \<not> should_return (enter_call fi bindings s)
       \<and> (\<forall>vb r s2. visit (vb (body fi)) (enter_call fi bindings s) = (r, s2) \<longrightarrow>
            snd (call_body vb fi bindings s) = leave_call s s2 \<and> should_return (leave_call s s2))"
    using skip [OF assms, of n b] cause again enter leave by blast
  from p1 p2 p3 show ?thesis
    by (elim conjE) (intro conjI; assumption)
qed

text \<open>
  The theorem in the state after a top-level \<^verbatim>\<open>back.value\<close>. In the run of \<^verbatim>\<open>back.value\<close>,
  \<^verbatim>\<open>Cause (1 ? 1) [ x -> 1 ]\<close>, \<^verbatim>\<open>y -> 2\<close> the flag is set at the end, \<^verbatim>\<open>x\<close> is never
  assigned and \<^verbatim>\<open>y\<close> is; the same in the run of the tree the parser builds, with its
  NEWLINE tokens, whose loop is the loop on the first statement followed by the loop on
  the four children after it. In the run that calls a function after the \<^verbatim>\<open>back.value\<close>,
  the body's assignment to \<^verbatim>\<open>z\<close> takes place in the function's environment.
\<close>

theorem top_level_return_witness:
  "should_return (run_program 6 (take 1 return_then_block))
   \<and> should_return
        (snd (execute_loop ideal_host 6 1 (map (Top_statement None) (drop 1 return_then_block))
                (run_program 6 (take 1 return_then_block))))
   \<and> exec_block ideal_host 7 [Assignment ''x'' (num_lit ''1'')] (run_program 6 (take 1 return_then_block))
       = (Done (), run_program 6 (take 1 return_then_block))
   \<and> var_of (run_program 6 return_then_block) ''x'' = None
   \<and> var_of (run_program 6 return_then_block) ''y'' = Some (VInt 2)
   \<and> should_return (run_program 6 return_then_block)
   \<and> variables (envs (run_program 6 return_then_call) 1) ''z'' = Some (VInt 3)
   \<and> should_return (run_program 6 return_then_call)
   \<and> length (separated return_then_block) = 5
   \<and> execute_loop ideal_host 6 1 (drop 1 (separated return_then_block)) (run_source 6 (take 1 return_then_block))
       = execute_loop ideal_host 6 2 (drop 2 (separated return_then_block))
           ((run_source 6 (take 1 return_then_block))\<lparr>current_line_num := 2\<rparr>)
   \<and> run_source 6 return_then_block
       = snd (execute_loop ideal_host 6 1 (drop 1 (separated return_then_block))
                (run_source 6 (take 1 return_then_block)))
   \<and> var_of (run_source 6 return_then_block) ''x'' = None
   \<and> var_of (run_source 6 return_then_block) ''y'' = Some (VInt 2)
   \<and> current_line_num (run_source 6 return_then_block) = 5
   \<and> should_return (run_source 6 return_then_block)"
proof -
  let ?s = "run_program 6 (take 1 return_then_block)"
  let ?i = "initial_state [] :: rat state"
  let ?u = "run_source 6 (take 1 return_then_block)"
  have h: "should_return ?s" by code_simp
  have x: "var_of (run_program 6 return_then_block) ''x'' = None" by code_simp
  have y: "var_of (run_program 6 return_then_block) ''y'' = Some (VInt 2)" by code_simp
  have r: "should_return (run_program 6 return_then_block)" by code_simp
  have z: "variables (envs (run_program 6 return_then_call) 1) ''z'' = Some (VInt 3)" by code_simp
  have c: "should_return (run_program 6 return_then_call)" by code_simp
  note t = top_level_return_stays_set
         [where s = ?s and H = ideal_host and n = 6 and i = 1
            and items = "map (Top_statement None) (drop 1 return_then_block)"
            and b = "[Assignment ''x'' (num_lit ''1'')]", OF h]
  from t have a: "should_return
        (snd (execute_loop ideal_host 6 1 (map (Top_statement None) (drop 1 return_then_block)) ?s))"
    by blast
  from t have b: "exec_block ideal_host (Suc 6) [Assignment ''x'' (num_lit ''1'')] ?s = (Done (), ?s)"
    by blast
  have len: "length (separated return_then_block) = 5" by code_simp
  have hu: "should_return ?u" by code_simp
  have sx: "var_of (run_source 6 return_then_block) ''x'' = None" by code_simp
  have sy: "var_of (run_source 6 return_then_block) ''y'' = Some (VInt 2)" by code_simp
  have sl: "current_line_num (run_source 6 return_then_block) = 5" by code_simp
  have sr: "should_return (run_source 6 return_then_block)" by code_simp
  have first: "fst (execute_loop ideal_host 6 0 (take 1 (separated return_then_block)) ?i) = Done ()"
    by code_simp
  have tk: "separated (take 1 return_then_block) = take 1 (separated return_then_block)"
    by (simp add: return_then_block_def)
  have dr: "drop 1 (separated return_then_block) = Top_newline # drop 2 (separated return_then_block)"
    by (simp add: return_then_block_def)
  have pre: "execute_loop ideal_host 6 0 (take 1 (separated return_then_block)) ?i = (Done (), ?u)"
    using first unfolding run_source_def tk by (simp add: prod_eq_iff)
  note u = top_level_return_stays_set
         [where s = ?u and H = ideal_host and n = 6 and i = 1
            and items = "drop 2 (separated return_then_block)", OF hu]
  from u have nl: "execute_loop ideal_host 6 1 (Top_newline # drop 2 (separated return_then_block)) ?u
       = execute_loop ideal_host 6 (Suc 1) (drop 2 (separated return_then_block))
           (?u\<lparr>current_line_num := 1 + 1\<rparr>)"
    by blast
  have whole: "run_source 6 return_then_block
       = snd (execute_loop ideal_host 6 1 (drop 1 (separated return_then_block)) ?u)"
  proof -
    have "execute_loop ideal_host 6 0
            (take 1 (separated return_then_block) @ drop 1 (separated return_then_block)) ?i
          = execute_loop ideal_host 6 (0 + length (take 1 (separated return_then_block)))
              (drop 1 (separated return_then_block)) ?u"
      using pre by (simp only: execute_loop_append prod.case outcome.case)
    with len show ?thesis
      by (simp add: run_source_def [of 6 return_then_block])
  qed
  from nl have nl': "execute_loop ideal_host 6 1 (drop 1 (separated return_then_block)) ?u
       = execute_loop ideal_host 6 2 (drop 2 (separated return_then_block)) (?u\<lparr>current_line_num := 2\<rparr>)"
    unfolding dr by (simp add: numeral_2_eq_2)
  from h a b x y r z c len nl' whole sx sy sl sr show ?thesis
    by simp
qed

end
